(* ===== verification/Prelude.thy ===== *)
theory Prelude
  imports Main "HOL-Library.Word"
begin

text \<open>
  Shared vocabulary of the Walk-server model: the Go integer types used by the
  models (\<open>int8\<close> and \<open>uint8\<close> as 8-bit words), the error messages the
  handlers send through \<open>utility.ResponseError\<close>, the response a handler writes,
  the keyed-table operations that model GORM's \<open>Save\<close> / \<open>Delete\<close> on a table
  with a primary key, and the decimal conversions \<open>strconv.Itoa\<close> and
  \<open>strconv.ParseUint(s, 10, 32)\<close> that the handlers call.
\<close>

named_theorems table_simps "rewrite rules for the keyed-table operations"
named_theorems eval_simps "definitions unfolded to run a handler on a concrete database"

type_synonym int8 = "8 word"   \<comment> \<open>Go \<open>int8\<close>: read with \<open>sint\<close>\<close>
type_synonym uint8 = "8 word"  \<comment> \<open>Go \<open>uint8\<close>: read with \<open>unat\<close>\<close>
type_synonym openid = string
type_synonym unix_time = int   \<comment> \<open>\<open>time.Time\<close>, as seconds since the epoch\<close>

subsection \<open>Responses\<close>

text \<open>
  One constructor per distinct message that a handler passes to
  \<open>utility.ResponseError\<close>. \<open>OldTeamStarted n\<close> is the message built from the
  person's name in \<open>Regroup\<close>.
\<close>

datatype msg =
    ParamError            \<comment> \<open>"parameter error"\<close>
  | QrTeamNotFound        \<comment> \<open>"bad QR code, team not found"\<close>
  | OtherRoute            \<comment> \<open>"team is on another route"\<close>
  | TeamNotFound          \<comment> \<open>"team lookup failed, check again"\<close>
  | CodeAlreadyBound      \<comment> \<open>"QR code already bound"\<close>
  | ServiceErrorContact   \<comment> \<open>"service error, contact the organiser"\<close>
  | MembersUnconfirmed    \<comment> \<open>"some members are unconfirmed"\<close>
  | NotEnoughMembers      \<comment> \<open>"too few members, cannot bind"\<close>
  | StartNotScanned       \<comment> \<open>"team not scanned at the start"\<close>
  | TeamFinished          \<comment> \<open>"team has finished, ask an admin"\<close>
  | HalfRouteContinue     \<comment> \<open>"half-route team, let it walk on"\<close>
  | FullRouteContinue     \<comment> \<open>"full-route team, let it walk on"\<close>
  | TeamStatusConfirmed   \<comment> \<open>"team status already confirmed, ask an admin"\<close>
  | WrongSecret           \<comment> \<open>"wrong password"\<close>
  | DuplicateScan         \<comment> \<open>"duplicate scan, submit again"\<close>
  | ScanError             \<comment> \<open>"scan error, scan again"\<close>
  | OldTeamStarted string \<comment> \<open>name + "'s old team has started, do not regroup"\<close>
  | ServiceError          \<comment> \<open>"service error"\<close>
  | TeamIdWrong           \<comment> \<open>"wrong team number, team not found"\<close>
  | TeamInfoFailed        \<comment> \<open>"could not read the team"\<close>
  | MemberFinished        \<comment> \<open>"member has finished the walk"\<close>
  | ScanUserNotFound      \<comment> \<open>"scan error, user not found, check again"\<close>
  | UploadDataError       \<comment> \<open>"bad upload data"\<close>
  | AlreadyRegistered     \<comment> \<open>"already registered, please log in"\<close>
  | WrongAccountMsg       \<comment> \<open>"wrong account or password"\<close>
  | ClosedAtNight         \<comment> \<open>"identity service closed at night, try by day"\<close>
  | NotActivated          \<comment> \<open>"account not activated"\<close>
  | SystemError           \<comment> \<open>"system error, try later"\<close>
  | RegisterFailed        \<comment> \<open>"registration failed, retry"\<close>
  | PasswordGenError      \<comment> \<open>"password generation error: " + err\<close>
  | DatabaseError         \<comment> \<open>"database error: " + err\<close>

text \<open>
  What a handler writes to the gin context: an error message, a success payload,
  or nothing because the handler panicked (a nil dereference or an index out of
  range, recovered by gin as an internal server error).
\<close>

datatype 'a response = ResponseError msg | ResponseSuccess 'a | Panic

subsection \<open>Keyed tables\<close>

text \<open>
  A database table is the list of its rows; \<open>key\<close> reads the primary key.
  GORM's \<open>Save\<close> updates the row with the same primary key, or inserts the row
  when there is none: that is \<open>upsert\<close>. \<open>Delete\<close> removes the rows with the key.
\<close>

fun upsert :: "('a \<Rightarrow> 'k) \<Rightarrow> 'a \<Rightarrow> 'a list \<Rightarrow> 'a list" where
  "upsert key x [] = [x]"
| "upsert key x (y # ys) = (if key y = key x then x # ys else y # upsert key x ys)"

definition lookup_key :: "('a \<Rightarrow> 'k) \<Rightarrow> 'k \<Rightarrow> 'a list \<Rightarrow> 'a option" where
  "lookup_key key k xs = find (\<lambda>y. key y = k) xs"

definition delete_key :: "('a \<Rightarrow> 'k) \<Rightarrow> 'k \<Rightarrow> 'a list \<Rightarrow> 'a list" where
  "delete_key key k xs = filter (\<lambda>y. key y \<noteq> k) xs"

subsection \<open>Decimal conversions of the Go standard library\<close>

text \<open>
  \<open>strconv.Itoa\<close> on a non-negative value, and \<open>strconv.ParseUint(s, 10, 32)\<close>:
  a non-empty string of decimal digits whose value is below \<open>2^32\<close>; anything
  else is an error.
\<close>

definition digit_char :: "nat \<Rightarrow> char" where
  "digit_char d = ''0123456789'' ! d"

definition char_digit :: "char \<Rightarrow> nat option" where
  "char_digit c = (let n = of_char c :: nat in if 48 \<le> n \<and> n \<le> 57 then Some (n - 48) else None)"

fun Itoa :: "nat \<Rightarrow> string" where
  "Itoa n = (if n < 10 then [digit_char n] else Itoa (n div 10) @ [digit_char (n mod 10)])"

declare Itoa.simps [simp del]
declare lookup_key_def [eval_simps] delete_key_def [eval_simps]

fun parse_digits :: "nat \<Rightarrow> string \<Rightarrow> nat option" where
  "parse_digits acc [] = Some acc"
| "parse_digits acc (c # cs) =
     (case char_digit c of None \<Rightarrow> None | Some d \<Rightarrow> parse_digits (10 * acc + d) cs)"

definition ParseUint32 :: "string \<Rightarrow> nat option" where
  "ParseUint32 s =
     (if s = [] then None
      else case parse_digits 0 s of
             None \<Rightarrow> None
           | Some v \<Rightarrow> if v < 2 ^ 32 then Some v else None)"

subsection \<open>Lemmas on keyed tables\<close>

lemma set_map_upsert [table_simps]:
  "key ` set (upsert key x xs) = insert (key x) (key ` set xs)"
  by (induction xs) auto

lemma distinct_upsert [table_simps]:
  "distinct (map key xs) \<Longrightarrow> distinct (map key (upsert key x xs))"
proof (induction xs)
  case Nil
  then show ?case by simp
next
  case (Cons y ys)
  then show ?case by (auto simp: set_map_upsert)
qed

lemma lookup_key_upsert [table_simps]:
  "lookup_key key k (upsert key x xs) = (if key x = k then Some x else lookup_key key k xs)"
  by (induction xs) (auto simp: lookup_key_def)

lemma lookup_key_delete [table_simps]:
  "lookup_key key k (delete_key key k' xs) = (if k = k' then None else lookup_key key k xs)"
  by (induction xs) (auto simp: lookup_key_def delete_key_def)

lemma lookup_key_Some:
  "lookup_key key k xs = Some y \<Longrightarrow> y \<in> set xs \<and> key y = k"
  by (auto simp: lookup_key_def dest: find_Some_iff [THEN iffD1] simp: nth_mem)

lemma lookup_key_None:
  "lookup_key key k xs = None \<longleftrightarrow> k \<notin> set (map key xs)"
  by (auto simp: lookup_key_def find_None_iff)

lemma distinct_delete_key [table_simps]:
  "distinct (map key xs) \<Longrightarrow> distinct (map key (delete_key key k xs))"
  by (simp add: delete_key_def distinct_map_filter)

text \<open>On a table with distinct keys, saving an existing row replaces it in place.\<close>

lemma upsert_existing:
  "distinct (map key xs) \<Longrightarrow> key x \<in> set (map key xs) \<Longrightarrow>
   upsert key x xs = map (\<lambda>y. if key y = key x then x else y) xs"
proof (induction xs)
  case Nil
  then show ?case by simp
next
  case (Cons y ys)
  show ?case
  proof (cases "key y = key x")
    case True
    with Cons.prems have "\<forall>z\<in>set ys. key z \<noteq> key x"
      by (metis distinct.simps(2) image_eqI list.set_map list.simps(9))
    with True show ?thesis by (simp add: map_idI)
  next
    case False
    with Cons show ?thesis by simp
  qed
qed

lemma set_upsert_subset:
  "y \<in> set (upsert key x xs) \<Longrightarrow> y = x \<or> y \<in> set xs"
  by (induction xs) (auto split: if_splits)

lemma lookup_key_distinct:
  "distinct (map key xs) \<Longrightarrow> x \<in> set xs \<Longrightarrow> lookup_key key (key x) xs = Some x"
  by (induction xs) (auto simp: lookup_key_def)

lemma upsert_new:
  "key x \<notin> set (map key xs) \<Longrightarrow> upsert key x xs = xs @ [x]"
  by (induction xs) auto

text \<open>Saving or deleting under another key keeps a row.\<close>

lemma upsert_keep:
  "y \<in> set xs \<Longrightarrow> key x \<noteq> key y \<Longrightarrow> y \<in> set (upsert key x xs)"
  by (induction xs) auto

lemma delete_key_keep:
  "y \<in> set xs \<Longrightarrow> key y \<noteq> k \<Longrightarrow> y \<in> set (delete_key key k xs)"
  by (simp add: delete_key_def)

text \<open>A row of a saved table with distinct keys is the saved row or an old row under another key.\<close>

lemma upsert_in_distinct:
  "distinct (map key xs) \<Longrightarrow> y \<in> set (upsert key x xs) \<Longrightarrow> y = x \<or> (y \<in> set xs \<and> key y \<noteq> key x)"
  by (induction xs) (auto split: if_splits simp: image_iff)

lemma fold_upsert_keep:
  "y \<in> set xs \<Longrightarrow> \<forall>z\<in>set zs. key (g z) \<noteq> key y \<Longrightarrow>
   y \<in> set (fold (\<lambda>z. upsert key (g z)) zs xs)"
  by (induction zs arbitrary: xs) (auto intro: upsert_keep)

lemma distinct_fold_upsert:
  "distinct (map key xs) \<Longrightarrow> distinct (map key (fold (\<lambda>z. upsert key (g z)) zs xs))"
  by (induction zs arbitrary: xs) (auto intro: distinct_upsert)

text \<open>In a table with distinct keys a row is determined by its key.\<close>

lemma distinct_key_eq:
  "distinct (map key xs) \<Longrightarrow> x \<in> set xs \<Longrightarrow> y \<in> set xs \<Longrightarrow> key x = key y \<Longrightarrow> x = y"
  by (metis distinct_map inj_onD)

text \<open>A map that keeps a filter's predicate and fixes the rows it selects does not change the selection.\<close>

lemma filter_map_fixed:
  "(\<And>x. P (g x) = P x) \<Longrightarrow> (\<And>x. P x \<Longrightarrow> g x = x) \<Longrightarrow> filter P (map g xs) = filter P xs"
  by (induction xs) auto

subsection \<open>Lemmas on lists, sums and words\<close>

lemma find_append_skip: "\<forall>x\<in>set xs. \<not> P x \<Longrightarrow> find P (xs @ ys) = find P ys"
  by (induction xs) auto

lemma replicate_numeral [eval_simps]: "replicate (numeral k) x = x # replicate (pred_numeral k) x"
  by (simp add: numeral_eq_Suc)

lemmas upt_eval [eval_simps] = upt_rec

lemma list_update_numeral [eval_simps]: "(x # xs)[numeral k := y] = x # xs[pred_numeral k := y]"
  by (simp add: numeral_eq_Suc)

lemma length_filter_sum: "length (filter P xs) = (\<Sum>x\<leftarrow>xs. if P x then 1 else 0)"
  by (induction xs) auto

lemma sum_list_swap: "(\<Sum>x\<leftarrow>xs. \<Sum>y\<leftarrow>ys. f x y) = (\<Sum>y\<leftarrow>ys. \<Sum>x\<leftarrow>xs. f x y :: 'a::comm_monoid_add)"
  by (induction xs) (simp_all add: sum_list_addf)

text \<open>The length of a two-generator comprehension, as the rows of a join are counted.\<close>

lemma length_comprehension:
  "length [(x, y). x \<leftarrow> xs, y \<leftarrow> ys, P x y] = (\<Sum>x\<leftarrow>xs. \<Sum>y\<leftarrow>ys. if P x y then 1 else 0)"
proof -
  have inner: "(\<Sum>y\<leftarrow>ys. length (if Q y then [g y] else [])) = (\<Sum>y\<leftarrow>ys. if Q y then 1 else 0)"
    for Q and g :: "'b \<Rightarrow> 'c" by (induction ys) auto
  show ?thesis by (induction xs) (simp_all add: length_concat comp_def inner)
qed

text \<open>In a table with distinct keys, at most one row has a given key.\<close>

lemma length_filter_key:
  "distinct (map key xs) \<Longrightarrow>
   length (filter (\<lambda>x. key x = k \<and> Q x) xs) = (if \<exists>x\<in>set xs. key x = k \<and> Q x then 1 else 0)"
proof (induction xs)
  case Nil
  then show ?case by simp
next
  case (Cons x xs)
  show ?case
  proof (cases "key x = k")
    case True
    with Cons.prems have none: "\<forall>y\<in>set xs. key y \<noteq> k" by (auto simp: image_iff)
    then have "filter (\<lambda>y. key y = k \<and> Q y) xs = []" by (simp add: filter_empty_conv)
    with True none show ?thesis by simp
  next
    case False
    with Cons show ?thesis by simp
  qed
qed

lemma sint_eq_iff: "sint (x :: 'a::len word) = sint y \<longleftrightarrow> x = y"
  by (metis signed_word_eqI)

subsection \<open>Lemmas on decimal conversion\<close>

lemma char_digit_digit_char [simp]: "d < 10 \<Longrightarrow> char_digit (digit_char d) = Some d"
proof -
  assume "d < 10"
  then have "d \<in> {0, 1, 2, 3, 4, 5, 6, 7, 8, 9}" by auto
  then show ?thesis by (auto simp: char_digit_def digit_char_def)
qed

lemma Itoa_digit [simp]: "n < 10 \<Longrightarrow> Itoa n = [digit_char n]"
  by (simp add: Itoa.simps [of n])

lemma Itoa_0 [eval_simps]: "Itoa 0 = ''0''"
  by (simp add: digit_char_def)

lemma parse_digits_append:
  "parse_digits acc (xs @ ys) = (case parse_digits acc xs of None \<Rightarrow> None | Some a \<Rightarrow> parse_digits a ys)"
  by (induction xs arbitrary: acc) (auto split: option.splits)

lemma Itoa_nonempty [simp]: "Itoa n \<noteq> []"
  by (subst Itoa.simps) simp

lemma parse_digits_Itoa: "parse_digits acc (Itoa n) = Some (acc * 10 ^ length (Itoa n) + n)"
proof (induction n arbitrary: acc rule: Itoa.induct)
  case (1 n)
  show ?case
  proof (cases "n < 10")
    case True
    then show ?thesis by (simp add: Itoa.simps [of n])
  next
    case False
    then have "Itoa n = Itoa (n div 10) @ [digit_char (n mod 10)]"
      by (subst Itoa.simps) simp
    with False "1.IH" [of acc] show ?thesis
      by (simp add: parse_digits_append algebra_simps)
  qed
qed

text \<open>Printing a value with \<open>Itoa\<close> and parsing it back gives the value when it fits in 32 bits.\<close>

lemma ParseUint32_Itoa: "ParseUint32 (Itoa n) = (if n < 2 ^ 32 then Some n else None)"
  by (simp add: ParseUint32_def parse_digits_Itoa)

end
