(* ===== verification/Model.thy ===== *)
theory Model
  imports Prelude
begin

text \<open>
  The data model and the persistence services. \<open>person\<close> is
  \<open>model.Person\<close> (src/model/person.go) with the two fields \<open>WalkStatus\<close> and
  \<open>Type\<close> that every handler reads but the struct in src/ lacks; \<open>team\<close> and
  \<open>admin\<close> are \<open>model.Team\<close> and \<open>model.Admin\<close>, whose files are not under src/
  and whose fields are taken from their uses in the handlers. The database is a
  record of tables (lists of rows, keyed by primary key); the services of
  src/service/teamService/update.go and their siblings are functions on it.
  The configuration the handlers read from packages outside src/
  (\<open>constant.PointMap\<close>, \<open>constant.GetPointName\<close>, \<open>middleware.CheckRoute\<close>,
  the server secret, JWT parsing) is the record \<open>env\<close>, a parameter of every
  handler.
\<close>

subsection \<open>Rows\<close>

text \<open>Field names carry a prefix of their table, since several structs share Go field names.\<close>

record person =
  p_OpenId :: openid
  p_Name :: string
  p_Gender :: int8
  p_StuId :: string
  p_Campus :: uint8
  p_Identity :: string
  p_Status :: uint8      \<comment> \<open>0 no team, 1 member, 2 captain\<close>
  p_Qq :: string
  p_Wechat :: string
  p_College :: string
  p_Tel :: string
  p_CreatedOp :: uint8
  p_JoinOp :: uint8
  p_TeamId :: int        \<comment> \<open>Go \<open>int\<close>, \<open>-1\<close> for no team\<close>
  p_WalkStatus :: uint8  \<comment> \<open>1 not started, 2 walking, 3 confirmed, 4 withdrawn, 5 finished\<close>
  p_Type :: uint8        \<comment> \<open>1 student, 2 teacher, 3 alumnus\<close>

record team =
  t_ID :: nat
  t_Name :: string
  t_Route :: uint8       \<comment> \<open>1 ZH, 2 PF half, 3 PF full, 4 MGS half, 5 MGS full\<close>
  t_Password :: string
  t_AllowMatch :: bool
  t_Slogan :: string
  t_Point :: int8        \<comment> \<open>waypoint index, \<open>-1\<close> before the start\<close>
  t_Status :: uint8      \<comment> \<open>1 not started, 5 bound at the start, 2 walking, 3 ended, 4 arrived\<close>
  t_StartNum :: nat      \<comment> \<open>Go \<open>uint\<close>\<close>
  t_Num :: uint8
  t_Captain :: openid
  t_Submit :: bool
  t_Code :: string
  t_Time :: unix_time

record admin =
  a_ID :: nat
  a_Name :: string
  a_Account :: string
  a_Password :: string
  a_Point :: int8
  a_Route :: uint8

text \<open>
  The persistent state: the three tables, the auto-increment counters of the team
  and admin tables, and the Redis set \<open>teams\<close> (members are decimal team ids).
\<close>

record db =
  people :: "person list"
  teams :: "team list"
  admins :: "admin list"
  next_team_id :: nat
  next_admin_id :: nat
  redis_teams :: "string list"

record env =
  PointMap :: "uint8 \<Rightarrow> int"
  GetPointName :: "uint8 \<Rightarrow> int8 \<Rightarrow> string"
  CheckRoute :: "admin \<Rightarrow> team \<Rightarrow> bool"
  server_secret :: string
  ParseToken :: "string \<Rightarrow> openid option"

subsection \<open>Queries\<close>

definition GetPerson :: "db \<Rightarrow> openid \<Rightarrow> person option" where
  "GetPerson d oid = lookup_key p_OpenId oid (people d)"

definition GetTeamByID :: "db \<Rightarrow> nat \<Rightarrow> team option" where
  "GetTeamByID d tid = lookup_key t_ID tid (teams d)"

definition GetTeamByCode :: "db \<Rightarrow> string \<Rightarrow> team option" where
  "GetTeamByCode d code = find (\<lambda>t. t_Code t = code) (teams d)"

definition GetTeamByCaptain :: "db \<Rightarrow> openid \<Rightarrow> team option" where
  "GetTeamByCaptain d oid = find (\<lambda>t. t_Captain t = oid) (teams d)"

text \<open>\<open>global.DB.Where("team_id = ?", team.ID).Find(&persons)\<close>.\<close>

definition team_members :: "db \<Rightarrow> nat \<Rightarrow> person list" where
  "team_members d tid = filter (\<lambda>p. p_TeamId p = int tid) (people d)"

text \<open>
  \<open>model.GetPersonsInTeam\<close>: the captain (the member with \<open>Status = 2\<close>) and the
  other members of a team.
\<close>

definition GetPersonsInTeam :: "db \<Rightarrow> int \<Rightarrow> person option \<times> person list" where
  "GetPersonsInTeam d tid =
     (find (\<lambda>p. p_TeamId p = tid \<and> p_Status p = 2) (people d),
      filter (\<lambda>p. p_TeamId p = tid \<and> p_Status p \<noteq> 2) (people d))"

subsection \<open>Updates\<close>

text \<open>\<open>teamService.Update\<close>: \<open>global.DB.Save(&a)\<close>.\<close>

definition team_Update :: "db \<Rightarrow> team \<Rightarrow> db" where
  "team_Update d t = d\<lparr>teams := upsert t_ID t (teams d)\<rparr>"

text \<open>\<open>teamService.Delete\<close>: \<open>global.DB.Delete(&a)\<close>.\<close>

definition team_Delete :: "db \<Rightarrow> team \<Rightarrow> db" where
  "team_Delete d t = d\<lparr>teams := delete_key t_ID (t_ID t) (teams d)\<rparr>"

text \<open>
  \<open>teamService.Create\<close>: \<open>global.DB.Create(&a)\<close> on the function's own copy
  \<open>a\<close>. The row gets the next auto-increment id; the caller's value is a copy
  and keeps its id.
\<close>

definition team_Create :: "db \<Rightarrow> team \<Rightarrow> db" where
  "team_Create d t =
     d\<lparr>teams := teams d @ [t\<lparr>t_ID := next_team_id d\<rparr>], next_team_id := Suc (next_team_id d)\<rparr>"

text \<open>\<open>teamService.UpdateCaptain\<close>: one column of the rows with the id.\<close>

definition team_UpdateCaptain :: "db \<Rightarrow> nat \<Rightarrow> openid \<Rightarrow> db" where
  "team_UpdateCaptain d tid oid =
     d\<lparr>teams := map (\<lambda>t. if t_ID t = tid then t\<lparr>t_Captain := oid\<rparr> else t) (teams d)\<rparr>"

text \<open>\<open>userService.Update\<close>: \<open>global.DB.Save\<close> of a person.\<close>

definition user_Update :: "db \<Rightarrow> person \<Rightarrow> db" where
  "user_Update d p = d\<lparr>people := upsert p_OpenId p (people d)\<rparr>"

text \<open>
  The member loops of the handlers: \<open>for _, p := range persons { if P(p) {
  ...; userService.Update(f(p)) } }\<close>, each \<open>p\<close> a copy of a row read before
  the loop.
\<close>

fun save_matching :: "(person \<Rightarrow> bool) \<Rightarrow> (person \<Rightarrow> person) \<Rightarrow> db \<Rightarrow> person list \<Rightarrow> db" where
  "save_matching P f d [] = d"
| "save_matching P f d (p # ps) = save_matching P f (if P p then user_Update d (f p) else d) ps"

text \<open>The Redis command \<open>SAdd "teams" id\<close>.\<close>

definition redis_SAdd :: "db \<Rightarrow> string \<Rightarrow> db" where
  "redis_SAdd d k = d\<lparr>redis_teams := List.insert k (redis_teams d)\<rparr>"

subsection \<open>A route policy\<close>

text \<open>
  \<open>middleware.CheckRoute\<close> is not under src/. The handlers let an admin of the
  full Pingfeng route act on half-route teams and conversely, so the policy
  compares campuses: Zhaohui (route 1), Pingfeng (routes 2 and 3) and Moganshan
  (routes 4 and 5). It is one instance of the parameter \<open>CheckRoute\<close>; the
  theorems about the handlers hold for every policy.
\<close>

definition campus_of_route :: "uint8 \<Rightarrow> nat" where
  "campus_of_route r =
     (if r = 1 then 1 else if r = 2 \<or> r = 3 then 2 else if r = 4 \<or> r = 5 then 3 else 0)"

definition campus_CheckRoute :: "admin \<Rightarrow> team \<Rightarrow> bool" where
  "campus_CheckRoute a t \<longleftrightarrow>
     campus_of_route (t_Route t) \<noteq> 0 \<and> campus_of_route (a_Route a) = campus_of_route (t_Route t)"

subsection \<open>Sample rows\<close>

text \<open>
  Rows with the fields that the handlers do not read set to fixed values, and a
  sample configuration (waypoint counts chosen for illustration), used to run
  the handlers on concrete databases.
\<close>

definition sample_person :: "openid \<Rightarrow> int \<Rightarrow> uint8 \<Rightarrow> uint8 \<Rightarrow> person" where
  "sample_person oid tid st ws =
     \<lparr>p_OpenId = oid, p_Name = oid, p_Gender = 1, p_StuId = [], p_Campus = 1, p_Identity = [],
      p_Status = st, p_Qq = [], p_Wechat = [], p_College = [], p_Tel = [], p_CreatedOp = 2,
      p_JoinOp = 5, p_TeamId = tid, p_WalkStatus = ws, p_Type = 1\<rparr>"

definition sample_team :: "nat \<Rightarrow> uint8 \<Rightarrow> uint8 \<Rightarrow> uint8 \<Rightarrow> team" where
  "sample_team tid route st num =
     \<lparr>t_ID = tid, t_Name = ''team'', t_Route = route, t_Password = ''123456'', t_AllowMatch = True,
      t_Slogan = [], t_Point = -1, t_Status = st, t_StartNum = 0, t_Num = num, t_Captain = [],
      t_Submit = True, t_Code = [], t_Time = 0\<rparr>"

definition sample_admin :: "uint8 \<Rightarrow> int8 \<Rightarrow> admin" where
  "sample_admin route point =
     \<lparr>a_ID = 1, a_Name = ''admin'', a_Account = ''admin'', a_Password = ''pw'',
      a_Point = point, a_Route = route\<rparr>"

definition sample_env :: env where
  "sample_env =
     \<lparr>PointMap = (\<lambda>r. if r = 1 then 5 else if r = 2 then 4 else if r = 3 then 6 else if r = 4 then 4 else 6),
      GetPointName = (\<lambda>r p. ''point''), CheckRoute = campus_CheckRoute,
      server_secret = ''secret'', ParseToken = (\<lambda>s. Some s)\<rparr>"

definition sample_db :: "person list \<Rightarrow> team list \<Rightarrow> db" where
  "sample_db ps ts = \<lparr>people = ps, teams = ts, admins = [], next_team_id = Suc (fold max (map t_ID ts) 0),
                       next_admin_id = 1, redis_teams = []\<rparr>"

declare GetPerson_def [eval_simps] GetTeamByID_def [eval_simps] GetTeamByCode_def [eval_simps]
  GetTeamByCaptain_def [eval_simps] team_members_def [eval_simps] GetPersonsInTeam_def [eval_simps]
  team_Update_def [eval_simps] team_Delete_def [eval_simps] team_Create_def [eval_simps]
  team_UpdateCaptain_def [eval_simps] user_Update_def [eval_simps] redis_SAdd_def [eval_simps]
  campus_of_route_def [eval_simps] campus_CheckRoute_def [eval_simps]
  sample_person_def [eval_simps] sample_team_def [eval_simps] sample_admin_def [eval_simps]
  sample_env_def [eval_simps] sample_db_def [eval_simps]

subsection \<open>Well-formed databases\<close>

text \<open>
  Primary keys are unique, the auto-increment counter is above every team id, and
  (the intended invariant of the specification, section 3) a person's
  \<open>TeamId\<close> is \<open>-1\<close> or the id of an existing team.
\<close>

definition db_wf :: "db \<Rightarrow> bool" where
  "db_wf d \<longleftrightarrow>
     distinct (map p_OpenId (people d)) \<and>
     distinct (map t_ID (teams d)) \<and>
     (\<forall>t\<in>set (teams d). t_ID t < next_team_id d) \<and>
     (\<forall>p\<in>set (people d). p_TeamId p = -1 \<or> p_TeamId p \<in> int ` t_ID ` set (teams d))"

lemma team_Update_frame [simp]:
  "people (team_Update d t) = people d" "admins (team_Update d t) = admins d"
  "next_team_id (team_Update d t) = next_team_id d" "redis_teams (team_Update d t) = redis_teams d"
  by (simp_all add: team_Update_def)

lemma user_Update_frame [simp]:
  "teams (user_Update d p) = teams d" "admins (user_Update d p) = admins d"
  "next_team_id (user_Update d p) = next_team_id d" "redis_teams (user_Update d p) = redis_teams d"
  by (simp_all add: user_Update_def)

lemma GetTeamByID_team_Update [simp]:
  "GetTeamByID (team_Update d t) k = (if t_ID t = k then Some t else GetTeamByID d k)"
  by (simp add: GetTeamByID_def team_Update_def lookup_key_upsert)

lemma GetTeamByID_Some:
  "GetTeamByID d k = Some t \<Longrightarrow> t \<in> set (teams d) \<and> t_ID t = k"
  unfolding GetTeamByID_def by (rule lookup_key_Some)

lemma GetPerson_Some:
  "GetPerson d k = Some p \<Longrightarrow> p \<in> set (people d) \<and> p_OpenId p = k"
  unfolding GetPerson_def by (rule lookup_key_Some)

lemma GetTeamByID_in: "db_wf d \<Longrightarrow> t \<in> set (teams d) \<Longrightarrow> GetTeamByID d (t_ID t) = Some t"
  by (simp add: GetTeamByID_def db_wf_def lookup_key_distinct)

lemma team_members_team_Update [simp]:
  "team_members (team_Update d t) k = team_members d k"
  by (simp add: team_members_def)

text \<open>Well-formedness depends on the people table only through its keys and team references.\<close>

lemma db_wf_people_cong:
  assumes "db_wf d" and "teams d' = teams d" and "next_team_id d' = next_team_id d"
    and "map p_OpenId (people d') = map p_OpenId (people d)"
    and "p_TeamId ` set (people d') = p_TeamId ` set (people d)"
  shows "db_wf d'"
proof -
  have "p_TeamId p = -1 \<or> p_TeamId p \<in> int ` t_ID ` set (teams d)" if "p \<in> set (people d')" for p
  proof -
    from that assms(5) obtain q where "q \<in> set (people d)" and "p_TeamId p = p_TeamId q"
      by (metis imageE imageI)
    with assms(1) show ?thesis by (auto simp: db_wf_def)
  qed
  with assms show ?thesis by (simp add: db_wf_def)
qed

text \<open>Saving a team whose id is already in the table keeps the database well formed.\<close>

lemma team_Update_wf:
  assumes "db_wf d" and "t_ID t \<in> t_ID ` set (teams d)"
  shows "db_wf (team_Update d t)"
proof -
  have ids: "t_ID ` set (upsert t_ID t (teams d)) = t_ID ` set (teams d)"
    using assms(2) by (simp add: set_map_upsert insert_absorb)
  have "\<forall>u\<in>set (upsert t_ID t (teams d)). t_ID u < next_team_id d"
    using assms ids by (auto simp: db_wf_def dest: set_upsert_subset)
  with assms ids show ?thesis
    by (simp add: db_wf_def team_Update_def distinct_upsert)
qed

text \<open>Saving a known person whose team reference is valid keeps the database well formed.\<close>

lemma user_Update_wf:
  assumes "db_wf d" and "p_OpenId p \<in> p_OpenId ` set (people d)"
    and "p_TeamId p = -1 \<or> p_TeamId p \<in> int ` t_ID ` set (teams d)"
  shows "db_wf (user_Update d p)"
  using assms
  by (auto simp: db_wf_def user_Update_def distinct_upsert dest: set_upsert_subset)

text \<open>
  The effect of a member loop on the people table: when the rows iterated over
  are rows of the table with distinct keys and the update keeps the key, each
  row of the loop that satisfies \<open>P\<close> is replaced by its update, in place.
\<close>

lemma people_save_matching:
  assumes "distinct (map p_OpenId (people d))" and "set ps \<subseteq> set (people d)"
    and "distinct (map p_OpenId ps)" and "\<And>q. p_OpenId (f q) = p_OpenId q"
  shows "people (save_matching P f d ps) = map (\<lambda>q. if q \<in> set ps \<and> P q then f q else q) (people d)"
  using assms(1-3)
proof (induction ps arbitrary: d)
  case Nil
  then show ?case by simp
next
  case (Cons p ps)
  let ?d' = "if P p then user_Update d (f p) else d"
  have p_in: "p \<in> set (people d)" using Cons.prems by simp
  have same: "q = p" if "q \<in> set (people d)" "p_OpenId q = p_OpenId p" for q
    using that p_in Cons.prems(1) by (metis inj_on_contraD distinct_map)
  have d': "people ?d' = map (\<lambda>q. if q = p \<and> P q then f q else q) (people d)"
  proof (cases "P p")
    case True
    have "upsert p_OpenId (f p) (people d) = map (\<lambda>y. if p_OpenId y = p_OpenId (f p) then f p else y) (people d)"
      using Cons.prems(1) p_in assms(4) by (intro upsert_existing) auto
    also have "\<dots> = map (\<lambda>q. if q = p \<and> P q then f q else q) (people d)"
      using same True assms(4) by (intro map_cong) auto
    finally show ?thesis using True by (simp add: user_Update_def)
  qed (auto intro: map_idI [symmetric])
  have keys: "map p_OpenId (people ?d') = map p_OpenId (people d)"
    using d' assms(4) by (induction "people d") auto
  have rest: "set ps \<subseteq> set (people ?d')"
  proof
    fix q assume q: "q \<in> set ps"
    have "p_OpenId p \<notin> p_OpenId ` set ps" using Cons.prems(3) by simp
    with q have "p_OpenId q \<noteq> p_OpenId p" by (metis image_eqI)
    with q Cons.prems(2) show "q \<in> set (people ?d')" by (auto simp: d')
  qed
  have IH: "people (save_matching P f ?d' ps) = map (\<lambda>q. if q \<in> set ps \<and> P q then f q else q) (people ?d')"
    using Cons.prems keys rest by (intro Cons.IH) auto
  have "p_OpenId p \<notin> p_OpenId ` set ps" using Cons.prems(3) by simp
  then have fp: "f p \<notin> set ps" using assms(4) by (metis image_eqI)
  have pn: "p \<notin> set ps" using Cons.prems(3) by auto
  show ?case using IH fp pn by (auto simp: d' intro!: map_cong)
qed

end
