(* ===== verification/Checkin.thy ===== *)
theory Checkin
  imports Model
begin

text \<open>
  The check-in handlers of src/controller/admin/team.go: \<open>GetTeam\<close> (look a
  team up by id or by its bound QR code), \<open>BindTeam\<close> (bind a QR code at the
  start and start the team), \<open>UpdateTeamStatus\<close> (check in at a waypoint) and
  \<open>PostDestination\<close> (arrival). Each handler takes the environment, the
  database, the admin decoded from the JWT, its request form and the current
  time, and returns the new database with the response. A form is the request
  after JSON decoding; its \<open>binding\<close> tags are the predicate \<open>*_valid\<close>, whose
  failure is the \<open>"parameter error"\<close> response.
\<close>

subsection \<open>Request forms\<close>

record TeamForm =
  tf_CodeType :: nat
  tf_Content :: string

definition TeamForm_valid :: "TeamForm \<Rightarrow> bool" where
  "TeamForm_valid f \<longleftrightarrow> (tf_CodeType f = 1 \<or> tf_CodeType f = 2) \<and> tf_Content f \<noteq> []"

record BindTeamForm =
  bf_TeamID :: nat
  bf_Type :: nat
  bf_Code :: string

definition BindTeamForm_valid :: "BindTeamForm \<Rightarrow> bool" where
  "BindTeamForm_valid f \<longleftrightarrow> bf_TeamID f \<noteq> 0 \<and> bf_Type f = 2 \<and> bf_Code f \<noteq> []"

record TeamStatusForm =
  sf_CodeType :: nat
  sf_Content :: string

definition TeamStatusForm_valid :: "TeamStatusForm \<Rightarrow> bool" where
  "TeamStatusForm_valid f \<longleftrightarrow> sf_CodeType f \<noteq> 0 \<and> sf_Content f \<noteq> []"

record PostDestinationForm =
  pf_TeamID :: nat
  pf_Status :: nat

definition PostDestinationForm_valid :: "PostDestinationForm \<Rightarrow> bool" where
  "PostDestinationForm_valid f \<longleftrightarrow> pf_TeamID f \<noteq> 0 \<and> (pf_Status f = 1 \<or> pf_Status f = 2)"

subsection \<open>Member counts\<close>

text \<open>
  The loop of \<open>BindTeam\<close>: it stops (\<open>flag = false\<close>) at the first member
  whose walk status is neither 3 (confirmed) nor 4 (withdrawn), and counts the
  confirmed ones in \<open>num\<close>.
\<close>

fun bind_scan :: "nat \<Rightarrow> person list \<Rightarrow> bool \<times> nat" where
  "bind_scan num [] = (True, num)"
| "bind_scan num (p # ps) =
     (if p_WalkStatus p \<noteq> 3 \<and> p_WalkStatus p \<noteq> 4 then (False, num)
      else bind_scan (if p_WalkStatus p = 3 then Suc num else num) ps)"

text \<open>The loops of \<open>UpdateTeamStatus\<close> and \<open>PostDestination\<close>: members walking (2) or confirmed (3).\<close>

definition active :: "person \<Rightarrow> bool" where
  "active p \<longleftrightarrow> p_WalkStatus p = 3 \<or> p_WalkStatus p = 2"

definition progress_num :: "person list \<Rightarrow> nat" where
  "progress_num ps = length (filter active ps)"

subsection \<open>GetTeam\<close>

text \<open>The team a \<open>TeamForm\<close> designates: by decimal id for code type 1, else by QR code.\<close>

definition team_of_form :: "db \<Rightarrow> TeamForm \<Rightarrow> msg + team option" where
  "team_of_form d f =
     (if tf_CodeType f = 1 then
        (case ParseUint32 (tf_Content f) of
           None \<Rightarrow> Inl ParamError
         | Some tid \<Rightarrow> Inr (GetTeamByID d tid))
      else Inr (GetTeamByCode d (tf_Content f)))"

definition GetTeam ::
  "env \<Rightarrow> db \<Rightarrow> admin \<Rightarrow> TeamForm \<Rightarrow> db \<times> (team \<times> string \<times> person list) response" where
  "GetTeam e d user f =
     (if \<not> TeamForm_valid f then (d, ResponseError ParamError) else
      case team_of_form d f of
        Inl m \<Rightarrow> (d, ResponseError m)
      | Inr None \<Rightarrow> (d, ResponseError QrTeamNotFound)
      | Inr (Some team) \<Rightarrow>
          if \<not> CheckRoute e user team then (d, ResponseError OtherRoute)
          else (d, ResponseSuccess (team, GetPointName e (t_Route team) (t_Point team),
                                    team_members d (t_ID team))))"

subsection \<open>BindTeam\<close>

text \<open>
  \<open>(team.Num+1)/2 > uint8(num)\<close>: the sum and the quotient are \<open>uint8\<close>
  arithmetic, and the member count is truncated to 8 bits.
\<close>

definition too_few_confirmed :: "uint8 \<Rightarrow> nat \<Rightarrow> bool" where
  "too_few_confirmed n num \<longleftrightarrow> (word_of_nat num :: uint8) < (n + 1) div 2"

text \<open>The body of \<open>BindTeam\<close> once the team is found (team.go lines 115 to 160).\<close>

definition bind_team ::
  "env \<Rightarrow> db \<Rightarrow> admin \<Rightarrow> team \<Rightarrow> string \<Rightarrow> unix_time \<Rightarrow> db \<times> unit response" where
  "bind_team e d user team code now =
     (if \<not> CheckRoute e user team then (d, ResponseError OtherRoute)
      else if GetTeamByCode d code \<noteq> None then (d, ResponseError CodeAlreadyBound)
      else
        (case bind_scan 0 (team_members d (t_ID team)) of
           (flag, num) \<Rightarrow>
             if \<not> flag then (d, ResponseError MembersUnconfirmed)
             else if too_few_confirmed (t_Num team) num then (d, ResponseError NotEnoughMembers)
             else (team_Update d (team\<lparr>t_Code := code, t_Point := 0, t_Status := 5,
                                        t_StartNum := num, t_Time := now\<rparr>),
                   ResponseSuccess ())))"

definition BindTeam :: "env \<Rightarrow> db \<Rightarrow> admin \<Rightarrow> BindTeamForm \<Rightarrow> unix_time \<Rightarrow> db \<times> unit response" where
  "BindTeam e d user f now =
     (if \<not> BindTeamForm_valid f then (d, ResponseError ParamError) else
      case GetTeamByID d (bf_TeamID f) of
        None \<Rightarrow> (d, ResponseError TeamNotFound)
      | Some team \<Rightarrow> bind_team e d user team (bf_Code f) now)"

subsection \<open>UpdateTeamStatus\<close>

text \<open>
  The per-route rule for the waypoint a team is checked in at. On the
  half route of Pingfeng (2) an admin of the full route (3) standing at points
  2 to 4 turns the team away; otherwise points above 2 are shifted down by two,
  since the half route skips two of the full route's points. On the full route
  (3) an admin of the half route at point 2 turns the team away. Every other
  route takes the admin's point as it is.
\<close>

definition route_point :: "uint8 \<Rightarrow> admin \<Rightarrow> msg + int8" where
  "route_point route user =
     (if route = 2 then
        (if a_Route user = 3 \<and> (a_Point user = 2 \<or> a_Point user = 3 \<or> a_Point user = 4)
         then Inl HalfRouteContinue
         else Inr (if 2 < sint (a_Point user) then a_Point user - 2 else a_Point user))
      else if route = 3 then
        (if a_Route user = 2 \<and> a_Point user = 2 then Inl FullRouteContinue
         else Inr (a_Point user))
      else Inr (a_Point user))"

text \<open>The loop that moves confirmed members (3) to walking (2), saving each one.\<close>

definition start_walking :: "db \<Rightarrow> person list \<Rightarrow> db" where
  "start_walking d ps = save_matching (\<lambda>p. p_WalkStatus p = 3) (\<lambda>p. p\<lparr>p_WalkStatus := 2\<rparr>) d ps"

definition team_of_status_form :: "db \<Rightarrow> TeamStatusForm \<Rightarrow> msg + team option" where
  "team_of_status_form d f =
     (if sf_CodeType f = 1 then
        (case ParseUint32 (sf_Content f) of
           None \<Rightarrow> Inl ParamError
         | Some tid \<Rightarrow> Inr (GetTeamByID d tid))
      else if sf_CodeType f = 2 then Inr (GetTeamByCode d (sf_Content f))
      else Inl ParamError)"

text \<open>\<open>int8(constant.PointMap[team.Route])\<close>: the last waypoint, truncated to 8 bits.\<close>

definition end_point :: "env \<Rightarrow> team \<Rightarrow> int8" where
  "end_point e team = word_of_int (PointMap e (t_Route team))"

text \<open>
  The body of \<open>UpdateTeamStatus\<close> once the team is found (team.go lines
  198 to 262): the route check, the status guards, the count of members on the
  way, and either the end of the team (no member left) or the check-in.
\<close>

definition checkin_team :: "env \<Rightarrow> db \<Rightarrow> admin \<Rightarrow> team \<Rightarrow> unix_time \<Rightarrow> db \<times> nat response" where
  "checkin_team e d user team now =
     (if \<not> CheckRoute e user team then (d, ResponseError OtherRoute)
      else if t_Status team = 1 then (d, ResponseError StartNotScanned)
      else if t_Status team = 3 \<or> t_Status team = 4 then (d, ResponseError TeamFinished)
      else
        let persons = team_members d (t_ID team); num = progress_num persons in
        if num = 0 then
          (team_Update d (team\<lparr>t_Status := 3, t_Point := end_point e team\<rparr>), ResponseSuccess 0)
        else
          (case route_point (t_Route team) user of
             Inl m \<Rightarrow> (d, ResponseError m)
           | Inr pt \<Rightarrow>
               (team_Update (start_walking d persons)
                  (team\<lparr>t_Point := pt, t_Time := now, t_Status := 2\<rparr>),
                ResponseSuccess num)))"

definition UpdateTeamStatus ::
  "env \<Rightarrow> db \<Rightarrow> admin \<Rightarrow> TeamStatusForm \<Rightarrow> unix_time \<Rightarrow> db \<times> nat response" where
  "UpdateTeamStatus e d user f now =
     (if \<not> TeamStatusForm_valid f then (d, ResponseError ParamError) else
      case team_of_status_form d f of
        Inl m \<Rightarrow> (d, ResponseError m)
      | Inr None \<Rightarrow> (d, ResponseError TeamNotFound)
      | Inr (Some team) \<Rightarrow> checkin_team e d user team now)"

subsection \<open>PostDestination\<close>

text \<open>The loop that marks walking and confirmed members as finished (5).\<close>

definition finish_members :: "db \<Rightarrow> person list \<Rightarrow> db" where
  "finish_members d ps =
     save_matching (\<lambda>p. p_WalkStatus p = 2 \<or> p_WalkStatus p = 3) (\<lambda>p. p\<lparr>p_WalkStatus := 5\<rparr>) d ps"

text \<open>The body of \<open>PostDestination\<close> once the team is found (team.go lines 286 to 333).\<close>

definition arrive_team ::
  "env \<Rightarrow> db \<Rightarrow> admin \<Rightarrow> team \<Rightarrow> nat \<Rightarrow> unix_time \<Rightarrow> db \<times> unit response" where
  "arrive_team e d user team status now =
     (if \<not> CheckRoute e user team then (d, ResponseError OtherRoute)
      else
        let persons = team_members d (t_ID team); num = progress_num persons in
        if t_Status team = 4 \<or> t_Status team = 3 then (d, ResponseError TeamStatusConfirmed)
        else if num = 0 then
          (team_Update d (team\<lparr>t_Status := 3, t_Point := end_point e team\<rparr>), ResponseSuccess ())
        else
          let team' = team\<lparr>t_Point := end_point e team, t_Time := now\<rparr> in
          if status = 1 then
            (team_Update (finish_members d persons) (team'\<lparr>t_Status := 4\<rparr>), ResponseSuccess ())
          else (team_Update d (team'\<lparr>t_Status := 3\<rparr>), ResponseSuccess ()))"

definition PostDestination ::
  "env \<Rightarrow> db \<Rightarrow> admin \<Rightarrow> PostDestinationForm \<Rightarrow> unix_time \<Rightarrow> db \<times> unit response" where
  "PostDestination e d user f now =
     (if \<not> PostDestinationForm_valid f then (d, ResponseError ParamError) else
      case GetTeamByID d (pf_TeamID f) of
        None \<Rightarrow> (d, ResponseError TeamNotFound)
      | Some team \<Rightarrow> arrive_team e d user team (pf_Status f) now)"

subsection \<open>A sample database\<close>

text \<open>
  Team 1 (Zhaohui, bound at the start, QR code \<open>qr1\<close>) with a confirmed and a
  withdrawn member; team 2 (Pingfeng half route, ended) with a confirmed and a
  withdrawn member; team 3 (Moganshan full route, not started) with one confirmed
  member; and a person without a team.
\<close>

definition demo_db :: db where
  "demo_db = sample_db
     [sample_person ''a'' 1 2 3, sample_person ''b'' 1 1 4, sample_person ''c'' 2 2 3,
      sample_person ''d'' 2 1 4, sample_person ''e'' 3 2 3, sample_person ''f'' (-1) 0 1]
     [(sample_team 1 1 5 2)\<lparr>t_Code := ''qr1'', t_Point := 0\<rparr>, sample_team 2 2 3 2, sample_team 3 5 1 1]"

declare TeamForm_valid_def [eval_simps] BindTeamForm_valid_def [eval_simps]
  TeamStatusForm_valid_def [eval_simps] PostDestinationForm_valid_def [eval_simps]
  active_def [eval_simps] progress_num_def [eval_simps] team_of_form_def [eval_simps]
  GetTeam_def [eval_simps] too_few_confirmed_def [eval_simps] bind_team_def [eval_simps]
  BindTeam_def [eval_simps] route_point_def [eval_simps] start_walking_def [eval_simps]
  team_of_status_form_def [eval_simps] end_point_def [eval_simps] checkin_team_def [eval_simps]
  UpdateTeamStatus_def [eval_simps] finish_members_def [eval_simps] arrive_team_def [eval_simps]
  PostDestination_def [eval_simps] demo_db_def [eval_simps]

subsection \<open>Lemmas on the member loops and lookups\<close>

lemma save_matching_frame [simp]:
  "teams (save_matching P f d ps) = teams d" "admins (save_matching P f d ps) = admins d"
  "next_team_id (save_matching P f d ps) = next_team_id d"
  "redis_teams (save_matching P f d ps) = redis_teams d"
  by (induction ps arbitrary: d) auto

lemma team_members_rows:
  "set (team_members d k) \<subseteq> set (people d)"
  "distinct (map p_OpenId (people d)) \<Longrightarrow> distinct (map p_OpenId (team_members d k))"
  by (auto simp: team_members_def distinct_map_filter)

text \<open>
  A member loop over the members of team \<open>k\<close> replaces, in place, exactly the
  rows of that team that satisfy the loop's guard.
\<close>

lemma people_member_loop:
  assumes "distinct (map p_OpenId (people d))" and "\<And>q. p_OpenId (f q) = p_OpenId q"
  shows "people (save_matching P f d (team_members d k)) =
         map (\<lambda>q. if p_TeamId q = int k \<and> P q then f q else q) (people d)"
proof -
  have "people (save_matching P f d (team_members d k)) =
        map (\<lambda>q. if q \<in> set (team_members d k) \<and> P q then f q else q) (people d)"
    using assms team_members_rows by (intro people_save_matching) auto
  then show ?thesis by (auto simp: team_members_def intro!: map_cong)
qed

lemma people_start_walking:
  "distinct (map p_OpenId (people d)) \<Longrightarrow>
   people (start_walking d (team_members d k)) =
   map (\<lambda>q. if p_TeamId q = int k \<and> p_WalkStatus q = 3 then q\<lparr>p_WalkStatus := 2\<rparr> else q) (people d)"
  unfolding start_walking_def by (rule people_member_loop) simp_all

lemma people_finish_members:
  "distinct (map p_OpenId (people d)) \<Longrightarrow>
   people (finish_members d (team_members d k)) =
   map (\<lambda>q. if p_TeamId q = int k \<and> (p_WalkStatus q = 2 \<or> p_WalkStatus q = 3)
             then q\<lparr>p_WalkStatus := 5\<rparr> else q) (people d)"
  unfolding finish_members_def by (rule people_member_loop) simp_all

text \<open>A member loop that keeps keys and team ids keeps the database well formed.\<close>

lemma member_loop_wf:
  assumes "db_wf d" and "\<And>q. p_OpenId (f q) = p_OpenId q" and "\<And>q. p_TeamId (f q) = p_TeamId q"
  shows "db_wf (save_matching P f d (team_members d k))"
proof -
  let ?g = "\<lambda>q. if p_TeamId q = int k \<and> P q then f q else q"
  have eq: "people (save_matching P f d (team_members d k)) = map ?g (people d)"
    using assms(1,2) by (intro people_member_loop) (auto simp: db_wf_def)
  have c: "p_TeamId \<circ> ?g = p_TeamId" using assms(3) by (simp add: fun_eq_iff)
  have img: "p_TeamId ` set (map ?g (people d)) = p_TeamId ` set (people d)"
    by (simp only: set_map image_comp c)
  show ?thesis
  proof (rule db_wf_people_cong [OF assms(1)])
    show "map p_OpenId (people (save_matching P f d (team_members d k))) = map p_OpenId (people d)"
      using assms(2) by (simp add: eq)
    show "p_TeamId ` set (people (save_matching P f d (team_members d k))) = p_TeamId ` set (people d)"
      using img by (simp only: eq)
  qed simp_all
qed

lemma GetTeamByCode_Some: "GetTeamByCode d c = Some t \<Longrightarrow> t \<in> set (teams d) \<and> t_Code t = c"
  by (auto simp: GetTeamByCode_def dest: find_Some_iff [THEN iffD1] simp: nth_mem)

lemma team_of_status_form_Some:
  "team_of_status_form d f = Inr (Some t) \<Longrightarrow> t \<in> set (teams d)"
  by (auto simp: team_of_status_form_def split: if_splits option.splits
           dest: GetTeamByID_Some GetTeamByCode_Some)

lemma team_of_form_Some:
  "team_of_form d f = Inr (Some t) \<Longrightarrow> t \<in> set (teams d)"
  by (auto simp: team_of_form_def split: if_splits option.splits
           dest: GetTeamByID_Some GetTeamByCode_Some)

subsection \<open>Outcomes of the handlers\<close>

text \<open>
  One lemma per handler body listing its outcomes: the database is unchanged
  (every error response), or one of the updates of the code. The dispatch lemmas
  reduce a handler to its body on the team it found.
\<close>

lemma checkin_team_cases:
  assumes run: "checkin_team e d user team now = (d', r)"
  obtains (unchanged) "d' = d"
  | (ended) "CheckRoute e user team" "t_Status team \<notin> {1, 3, 4}"
      "progress_num (team_members d (t_ID team)) = 0"
      "d' = team_Update d (team\<lparr>t_Status := 3, t_Point := end_point e team\<rparr>)" "r = ResponseSuccess 0"
  | (checked) p where "CheckRoute e user team" "t_Status team \<notin> {1, 3, 4}"
      "0 < progress_num (team_members d (t_ID team))" "route_point (t_Route team) user = Inr p"
      "d' = team_Update (start_walking d (team_members d (t_ID team)))
              (team\<lparr>t_Point := p, t_Time := now, t_Status := 2\<rparr>)"
      "r = ResponseSuccess (progress_num (team_members d (t_ID team)))"
proof (cases "CheckRoute e user team \<and> t_Status team \<notin> {1, 3, 4}")
  case False
  with run have "d' = d" by (auto simp: checkin_team_def split: if_split_asm)
  then show ?thesis by (rule unchanged)
next
  case ok: True
  show ?thesis
  proof (cases "progress_num (team_members d (t_ID team)) = 0")
    case True
    with run ok have "d' = team_Update d (team\<lparr>t_Status := 3, t_Point := end_point e team\<rparr>)"
      and "r = ResponseSuccess 0" by (auto simp: checkin_team_def Let_def)
    with ok True show ?thesis by (intro ended) auto
  next
    case False
    show ?thesis
    proof (cases "route_point (t_Route team) user")
      case (Inl m)
      with run ok False have "d' = d" by (auto simp: checkin_team_def Let_def)
      then show ?thesis by (rule unchanged)
    next
      case (Inr p)
      with run ok False
      have "d' = team_Update (start_walking d (team_members d (t_ID team)))
                   (team\<lparr>t_Point := p, t_Time := now, t_Status := 2\<rparr>)"
        and "r = ResponseSuccess (progress_num (team_members d (t_ID team)))"
        by (auto simp: checkin_team_def Let_def)
      with ok False Inr show ?thesis by (intro checked) auto
    qed
  qed
qed


lemma arrive_team_cases:
  assumes run: "arrive_team e d user team status now = (d', r)"
  obtains (unchanged) "d' = d"
  | (ended) "CheckRoute e user team" "t_Status team \<notin> {3, 4}"
      "progress_num (team_members d (t_ID team)) = 0 \<or> status \<noteq> 1"
      "d' = team_Update d (team\<lparr>t_Status := 3, t_Point := end_point e team,
                                 t_Time := (if progress_num (team_members d (t_ID team)) = 0
                                            then t_Time team else now)\<rparr>)"
      "r = ResponseSuccess ()"
  | (arrived) "CheckRoute e user team" "t_Status team \<notin> {3, 4}"
      "0 < progress_num (team_members d (t_ID team))" "status = 1"
      "d' = team_Update (finish_members d (team_members d (t_ID team)))
              (team\<lparr>t_Point := end_point e team, t_Time := now, t_Status := 4\<rparr>)"
      "r = ResponseSuccess ()"
proof (cases "CheckRoute e user team \<and> t_Status team \<notin> {3, 4}")
  case False
  with run have "d' = d" by (auto simp: arrive_team_def Let_def split: if_split_asm)
  then show ?thesis by (rule unchanged)
next
  case ok: True
  show ?thesis
  proof (cases "progress_num (team_members d (t_ID team)) = 0")
    case True
    with run ok have "d' = team_Update d (team\<lparr>t_Status := 3, t_Point := end_point e team\<rparr>)"
      and "r = ResponseSuccess ()" by (auto simp: arrive_team_def Let_def)
    with ok True show ?thesis by (intro ended) auto
  next
    case False
    show ?thesis
    proof (cases "status = 1")
      case True
      with run ok False
      have "d' = team_Update (finish_members d (team_members d (t_ID team)))
                   (team\<lparr>t_Point := end_point e team, t_Time := now, t_Status := 4\<rparr>)"
        and "r = ResponseSuccess ()" by (auto simp: arrive_team_def Let_def)
      with ok False True show ?thesis by (intro arrived) auto
    next
      case st: False
      with run ok False
      have "d' = team_Update d (team\<lparr>t_Point := end_point e team, t_Time := now, t_Status := 3\<rparr>)"
        and "r = ResponseSuccess ()" by (auto simp: arrive_team_def Let_def)
      moreover have "team\<lparr>t_Point := end_point e team, t_Time := now, t_Status := 3\<rparr> =
                     team\<lparr>t_Status := 3, t_Point := end_point e team, t_Time := now\<rparr>" by simp
      ultimately show ?thesis using ok False st by (intro ended) auto
    qed
  qed
qed

lemma bind_scan_flag: "fst (bind_scan n ps) \<longleftrightarrow> (\<forall>p\<in>set ps. p_WalkStatus p = 3 \<or> p_WalkStatus p = 4)"
  by (induction n ps rule: bind_scan.induct) auto

lemma bind_scan_num:
  "fst (bind_scan n ps) \<Longrightarrow> snd (bind_scan n ps) = n + length (filter (\<lambda>p. p_WalkStatus p = 3) ps)"
  by (induction n ps rule: bind_scan.induct) auto

lemma bind_team_cases:
  assumes run: "bind_team e d user team code now = (d', r)"
  obtains (unchanged) "d' = d" "r \<noteq> ResponseSuccess ()"
  | (bound) "CheckRoute e user team" "GetTeamByCode d code = None"
      "\<forall>p\<in>set (team_members d (t_ID team)). p_WalkStatus p = 3 \<or> p_WalkStatus p = 4"
      "\<not> too_few_confirmed (t_Num team) (length (filter (\<lambda>p. p_WalkStatus p = 3) (team_members d (t_ID team))))"
      "d' = team_Update d (team\<lparr>t_Code := code, t_Point := 0, t_Status := 5,
              t_StartNum := length (filter (\<lambda>p. p_WalkStatus p = 3) (team_members d (t_ID team))),
              t_Time := now\<rparr>)"
      "r = ResponseSuccess ()"
proof (cases "CheckRoute e user team \<and> GetTeamByCode d code = None \<and>
              fst (bind_scan 0 (team_members d (t_ID team))) \<and>
              \<not> too_few_confirmed (t_Num team) (snd (bind_scan 0 (team_members d (t_ID team))))")
  case False
  with run have "d' = d" "r \<noteq> ResponseSuccess ()"
    by (auto simp: bind_team_def split: prod.splits if_split_asm)
  then show ?thesis by (rule unchanged)
next
  case True
  obtain flag num where bs: "bind_scan 0 (team_members d (t_ID team)) = (flag, num)"
    by (cases "bind_scan 0 (team_members d (t_ID team))")
  with True have flag and n: "num = length (filter (\<lambda>p. p_WalkStatus p = 3) (team_members d (t_ID team)))"
    using bind_scan_num [of 0 "team_members d (t_ID team)"] by auto
  from run True bs \<open>flag\<close>
  have "d' = team_Update d (team\<lparr>t_Code := code, t_Point := 0, t_Status := 5,
                                 t_StartNum := num, t_Time := now\<rparr>)" and "r = ResponseSuccess ()"
    by (auto simp: bind_team_def)
  moreover have "\<forall>p\<in>set (team_members d (t_ID team)). p_WalkStatus p = 3 \<or> p_WalkStatus p = 4"
    using bind_scan_flag [of 0 "team_members d (t_ID team)"] bs \<open>flag\<close> by simp
  ultimately show ?thesis using True n bs by (intro bound) auto
qed


lemma UpdateTeamStatus_dispatch:
  assumes run: "UpdateTeamStatus e d user f now = (d', r)"
  obtains (unchanged) "d' = d"
  | (found) team where "TeamStatusForm_valid f" "team_of_status_form d f = Inr (Some team)"
      "checkin_team e d user team now = (d', r)"
proof (cases "TeamStatusForm_valid f \<and> (\<exists>team. team_of_status_form d f = Inr (Some team))")
  case False
  with run have "d' = d" by (auto simp: UpdateTeamStatus_def split: if_split_asm sum.split_asm option.split_asm)
  then show ?thesis by (rule unchanged)
next
  case True
  then obtain team where "TeamStatusForm_valid f" "team_of_status_form d f = Inr (Some team)" by blast
  with run show ?thesis by (intro found) (simp_all add: UpdateTeamStatus_def)
qed

lemma PostDestination_dispatch:
  assumes run: "PostDestination e d user f now = (d', r)"
  obtains (unchanged) "d' = d"
  | (found) team where "PostDestinationForm_valid f" "GetTeamByID d (pf_TeamID f) = Some team"
      "arrive_team e d user team (pf_Status f) now = (d', r)"
proof (cases "PostDestinationForm_valid f \<and> (\<exists>team. GetTeamByID d (pf_TeamID f) = Some team)")
  case False
  with run have "d' = d" by (auto simp: PostDestination_def split: if_split_asm option.split_asm)
  then show ?thesis by (rule unchanged)
next
  case True
  then obtain team where "PostDestinationForm_valid f" "GetTeamByID d (pf_TeamID f) = Some team" by blast
  with run show ?thesis by (intro found) (simp_all add: PostDestination_def)
qed

lemma BindTeam_dispatch:
  assumes run: "BindTeam e d user f now = (d', r)"
  obtains (unchanged) "d' = d" "r \<noteq> ResponseSuccess ()"
  | (found) team where "BindTeamForm_valid f" "GetTeamByID d (bf_TeamID f) = Some team"
      "bind_team e d user team (bf_Code f) now = (d', r)"
proof (cases "BindTeamForm_valid f \<and> (\<exists>team. GetTeamByID d (bf_TeamID f) = Some team)")
  case False
  with run have "d' = d" "r \<noteq> ResponseSuccess ()" by (auto simp: BindTeam_def split: if_split_asm option.split_asm)
  then show ?thesis by (rule unchanged)
next
  case True
  then obtain team where "BindTeamForm_valid f" "GetTeamByID d (bf_TeamID f) = Some team" by blast
  with run show ?thesis by (intro found) (simp_all add: BindTeam_def)
qed

lemma start_walking_wf: "db_wf d \<Longrightarrow> db_wf (start_walking d (team_members d k))"
  unfolding start_walking_def by (rule member_loop_wf) auto

lemma finish_members_wf: "db_wf d \<Longrightarrow> db_wf (finish_members d (team_members d k))"
  unfolding finish_members_def by (rule member_loop_wf) auto

lemma loop_frame [simp]:
  "teams (start_walking d ps) = teams d" "teams (finish_members d ps) = teams d"
  by (simp_all add: start_walking_def finish_members_def)

lemma team_Update_found_wf:
  "db_wf d' \<Longrightarrow> teams d' = teams d \<Longrightarrow> team \<in> set (teams d) \<Longrightarrow>
   t_ID team' = t_ID team \<Longrightarrow> db_wf (team_Update d' team')"
  by (rule team_Update_wf) auto

lemma checkin_team_wf:
  assumes wf: "db_wf d" and t: "team \<in> set (teams d)" and run: "checkin_team e d user team now = (d', r)"
  shows "db_wf d'"
  using run
proof (cases rule: checkin_team_cases)
  case unchanged
  then show ?thesis using wf by simp
next
  case ended
  then show ?thesis using team_Update_found_wf [OF wf _ t] by simp
next
  case (checked p)
  then show ?thesis using team_Update_found_wf [OF start_walking_wf [OF wf] _ t] by simp
qed

lemma arrive_team_wf:
  assumes wf: "db_wf d" and t: "team \<in> set (teams d)" and run: "arrive_team e d user team s now = (d', r)"
  shows "db_wf d'"
  using run
proof (cases rule: arrive_team_cases)
  case unchanged
  then show ?thesis using wf by simp
next
  case ended
  then show ?thesis using team_Update_found_wf [OF wf _ t] by simp
next
  case arrived
  then show ?thesis using team_Update_found_wf [OF finish_members_wf [OF wf] _ t] by simp
qed

lemma bind_team_wf:
  assumes wf: "db_wf d" and t: "team \<in> set (teams d)" and run: "bind_team e d user team c now = (d', r)"
  shows "db_wf d'"
  using run
proof (cases rule: bind_team_cases)
  case unchanged
  then show ?thesis using wf by simp
next
  case bound
  then show ?thesis using team_Update_found_wf [OF wf _ t] by simp
qed

subsection \<open>Properties of the check-in handlers\<close>


lemma GetTeamByID_loops [simp]:
  "GetTeamByID (start_walking d ps) k = GetTeamByID d k"
  "GetTeamByID (finish_members d ps) k = GetTeamByID d k"
  by (simp_all add: GetTeamByID_def)

lemma team_members_member_loop_other:
  assumes "distinct (map p_OpenId (people d))" and "\<And>q. p_OpenId (f q) = p_OpenId q"
    and "\<And>q. p_TeamId (f q) = p_TeamId q" and "j \<noteq> k"
  shows "team_members (save_matching P f d (team_members d j)) k = team_members d k"
proof -
  have "people (save_matching P f d (team_members d j)) =
        map (\<lambda>q. if p_TeamId q = int j \<and> P q then f q else q) (people d)"
    using assms(1,2) by (rule people_member_loop)
  moreover have "filter (\<lambda>q. p_TeamId q = int k) (map (\<lambda>q. if p_TeamId q = int j \<and> P q then f q else q) (people d))
               = filter (\<lambda>q. p_TeamId q = int k) (people d)"
    using assms(3,4) by (intro filter_map_fixed) auto
  ultimately show ?thesis by (simp add: team_members_def)
qed

lemma team_members_loops_other:
  "db_wf d \<Longrightarrow> j \<noteq> k \<Longrightarrow> team_members (start_walking d (team_members d j)) k = team_members d k"
  "db_wf d \<Longrightarrow> j \<noteq> k \<Longrightarrow> team_members (finish_members d (team_members d j)) k = team_members d k"
  unfolding start_walking_def finish_members_def
  by (rule team_members_member_loop_other; auto simp: db_wf_def)+

lemma found_same_team:
  "db_wf d \<Longrightarrow> team \<in> set (teams d) \<Longrightarrow> GetTeamByID d k = Some t \<Longrightarrow> t_ID team = k \<Longrightarrow> team = t"
  by (metis GetTeamByID_in option.inject)

text \<open>C2: A waypoint check-in never changes a team that has not started or has ended (status 1, 3 or 4), nor its members: the team row and the member rows are what they were.\<close>

theorem UpdateTeamStatus_frozen:
  assumes wf: "db_wf d" and t: "GetTeamByID d k = Some t" and st: "t_Status t \<in> {1, 3, 4}"
    and run: "UpdateTeamStatus e d user f now = (d', r)"
  shows "GetTeamByID d' k = Some t \<and> team_members d' k = team_members d k"
  using run
proof (cases rule: UpdateTeamStatus_dispatch)
  case unchanged
  then show ?thesis using t by simp
next
  case (found team)
  have tin: "team \<in> set (teams d)" using found(2) by (rule team_of_status_form_Some)
  show ?thesis
  proof (cases "t_ID team = k")
    case True
    with wf tin t have "team = t" by (rule found_same_team)
    with found(3) st t show ?thesis by (cases rule: checkin_team_cases) auto
  next
    case False
    from found(3) show ?thesis
      by (cases rule: checkin_team_cases) (use t False wf team_members_loops_other in auto)
  qed
qed

text \<open>C4: Reporting an arrival never changes a team that has already ended or arrived (status 3 or 4), nor its members.\<close>

theorem PostDestination_frozen:
  assumes wf: "db_wf d" and t: "GetTeamByID d k = Some t" and st: "t_Status t \<in> {3, 4}"
    and run: "PostDestination e d user f now = (d', r)"
  shows "GetTeamByID d' k = Some t \<and> team_members d' k = team_members d k"
  using run
proof (cases rule: PostDestination_dispatch)
  case unchanged
  then show ?thesis using t by simp
next
  case (found team)
  have tin: "team \<in> set (teams d)" using found(2) by (simp add: GetTeamByID_Some)
  show ?thesis
  proof (cases "t_ID team = k")
    case True
    with wf tin t have "team = t" by (rule found_same_team)
    with found(3) st t show ?thesis by (cases rule: arrive_team_cases) auto
  next
    case False
    from found(3) show ?thesis
      by (cases rule: arrive_team_cases) (use t False wf team_members_loops_other in auto)
  qed
qed


text \<open>C1: A waypoint check-in of a started team with members on the way answers their number, moves the team to status 2 at the waypoint given by the route rule, stamps the time, and moves exactly the confirmed members (3) of that team to walking (2), leaving every other row as it was.\<close>

theorem UpdateTeamStatus_checkin:
  assumes wf: "db_wf d" and v: "TeamStatusForm_valid f"
    and found: "team_of_status_form d f = Inr (Some team)"
    and auth: "CheckRoute e user team" and st: "t_Status team \<notin> {1, 3, 4}"
    and act: "0 < progress_num (team_members d (t_ID team))"
    and pt: "route_point (t_Route team) user = Inr p"
    and run: "UpdateTeamStatus e d user f now = (d', r)"
  shows "r = ResponseSuccess (progress_num (team_members d (t_ID team))) \<and>
         GetTeamByID d' (t_ID team) = Some (team\<lparr>t_Point := p, t_Time := now, t_Status := 2\<rparr>) \<and>
         people d' = map (\<lambda>q. if p_TeamId q = int (t_ID team) \<and> p_WalkStatus q = 3
                               then q\<lparr>p_WalkStatus := 2\<rparr> else q) (people d)"
proof -
  from run v found auth st act pt
  have "d' = team_Update (start_walking d (team_members d (t_ID team)))
               (team\<lparr>t_Point := p, t_Time := now, t_Status := 2\<rparr>)"
    and "r = ResponseSuccess (progress_num (team_members d (t_ID team)))"
    by (simp_all add: UpdateTeamStatus_def checkin_team_def Let_def)
  with wf show ?thesis by (simp add: people_start_walking db_wf_def)
qed

text \<open>C3: An arrival report with status 1 for a team that has not ended and has members on the way sets the team to arrived (4) at the last waypoint of its route, and marks exactly its walking and confirmed members as finished (5).\<close>

theorem PostDestination_arrive:
  assumes wf: "db_wf d" and v: "PostDestinationForm_valid f" and s1: "pf_Status f = 1"
    and found: "GetTeamByID d (pf_TeamID f) = Some team"
    and auth: "CheckRoute e user team" and st: "t_Status team \<notin> {3, 4}"
    and act: "0 < progress_num (team_members d (t_ID team))"
    and run: "PostDestination e d user f now = (d', r)"
  shows "r = ResponseSuccess () \<and>
         GetTeamByID d' (t_ID team) =
           Some (team\<lparr>t_Point := end_point e team, t_Time := now, t_Status := 4\<rparr>) \<and>
         people d' = map (\<lambda>q. if p_TeamId q = int (t_ID team) \<and> (p_WalkStatus q = 2 \<or> p_WalkStatus q = 3)
                               then q\<lparr>p_WalkStatus := 5\<rparr> else q) (people d)"
proof -
  from run v s1 found auth st act
  have "d' = team_Update (finish_members d (team_members d (t_ID team)))
               (team\<lparr>t_Point := end_point e team, t_Time := now, t_Status := 4\<rparr>)"
    and "r = ResponseSuccess ()"
    by (simp_all add: PostDestination_def arrive_team_def Let_def)
  with wf show ?thesis by (simp add: people_finish_members db_wf_def)
qed

text \<open>C5: Binding a QR code succeeds exactly when the form is valid, the team exists and is on the admin's route, the code is not bound yet, every member is confirmed (3) or withdrawn (4), and the confirmed members are not too few; the team is then saved with the code, waypoint 0, status 5 and the number of confirmed members as its start count.\<close>

theorem BindTeam_success:
  "BindTeam e d user f now = (d', ResponseSuccess ()) \<longleftrightarrow>
   BindTeamForm_valid f \<and>
   (\<exists>team. GetTeamByID d (bf_TeamID f) = Some team \<and> CheckRoute e user team \<and>
      GetTeamByCode d (bf_Code f) = None \<and>
      (\<forall>p\<in>set (team_members d (t_ID team)). p_WalkStatus p = 3 \<or> p_WalkStatus p = 4) \<and>
      \<not> too_few_confirmed (t_Num team) (length (filter (\<lambda>p. p_WalkStatus p = 3) (team_members d (t_ID team)))) \<and>
      d' = team_Update d (team\<lparr>t_Code := bf_Code f, t_Point := 0, t_Status := 5,
             t_StartNum := length (filter (\<lambda>p. p_WalkStatus p = 3) (team_members d (t_ID team))),
             t_Time := now\<rparr>))" (is "?run \<longleftrightarrow> ?guards")
proof
  assume ?run
  then show ?guards
  proof (cases rule: BindTeam_dispatch)
    case unchanged
    then show ?thesis by simp
  next
    case (found team)
    from found(3) show ?thesis
      by (cases rule: bind_team_cases) (use found(1,2) in auto)
  qed
next
  assume ?guards
  then obtain team where v: "BindTeamForm_valid f" and g: "GetTeamByID d (bf_TeamID f) = Some team"
    and rest: "CheckRoute e user team" "GetTeamByCode d (bf_Code f) = None"
      "\<forall>p\<in>set (team_members d (t_ID team)). p_WalkStatus p = 3 \<or> p_WalkStatus p = 4"
      "\<not> too_few_confirmed (t_Num team) (length (filter (\<lambda>p. p_WalkStatus p = 3) (team_members d (t_ID team))))"
      "d' = team_Update d (team\<lparr>t_Code := bf_Code f, t_Point := 0, t_Status := 5,
             t_StartNum := length (filter (\<lambda>p. p_WalkStatus p = 3) (team_members d (t_ID team))),
             t_Time := now\<rparr>)"
    by blast
  obtain flag num where bs: "bind_scan 0 (team_members d (t_ID team)) = (flag, num)"
    by (cases "bind_scan 0 (team_members d (t_ID team))")
  with rest(3) have flag: flag using bind_scan_flag [of 0 "team_members d (t_ID team)"] by simp
  with bs have "num = length (filter (\<lambda>p. p_WalkStatus p = 3) (team_members d (t_ID team)))"
    using bind_scan_num [of 0 "team_members d (t_ID team)"] by simp
  with v g rest bs flag show ?run by (simp add: BindTeam_def bind_team_def)
qed

text \<open>C6: Without 8-bit wrap-around (team size below 255, fewer than 256 confirmed members) the binding threshold means: a team is refused when fewer than half of its registered members are confirmed.\<close>

theorem too_few_confirmed_no_wrap:
  assumes "unat n < 255" and "num < 256"
  shows "too_few_confirmed n num \<longleftrightarrow> 2 * num < unat n"
proof -
  have "unat ((n + 1) div 2) = (unat n + 1) div 2"
    using assms(1) by (simp add: unat_div unat_word_ariths)
  moreover have "unat (word_of_nat num :: uint8) = num"
    using assms(2) by (simp add: unat_of_nat)
  ultimately show ?thesis
    by (simp add: too_few_confirmed_def word_less_nat_alt) arith
qed

text \<open>
  C7: The threshold is computed in 8 bits and wraps around: a team registered
  with 255 members needs no confirmed member at all (Num+1 is 0), and the
  count of confirmed members is read modulo 256, so 256 more confirmed
  members change nothing.
\<close>

theorem too_few_confirmed_wraps:
  "\<not> too_few_confirmed 255 num \<and> too_few_confirmed n (num + 256) = too_few_confirmed n num"
proof -
  have w: "(word_of_nat (num + 256) :: uint8) = word_of_nat num" by simp
  show ?thesis unfolding too_few_confirmed_def w by simp
qed

subsection \<open>Witnesses\<close>

lemma demo_db_wf: "db_wf demo_db"
  by (simp add: db_wf_def eval_simps)

theorem UpdateTeamStatus_checkin_witness:
  "GetTeamByID (fst (UpdateTeamStatus sample_env demo_db (sample_admin 1 2)
                      \<lparr>sf_CodeType = 2, sf_Content = ''qr1''\<rparr> 100)) 1 =
     Some ((sample_team 1 1 5 2)\<lparr>t_Code := ''qr1'', t_Point := 2, t_Time := 100, t_Status := 2\<rparr>)"
proof -
  let ?f = "\<lparr>sf_CodeType = 2, sf_Content = ''qr1''\<rparr>"
  let ?t = "(sample_team 1 1 5 2)\<lparr>t_Code := ''qr1'', t_Point := 0\<rparr>"
  have "TeamStatusForm_valid ?f" "team_of_status_form demo_db ?f = Inr (Some ?t)"
    "CheckRoute sample_env (sample_admin 1 2) ?t" "t_Status ?t \<notin> {1, 3, 4}"
    "0 < progress_num (team_members demo_db (t_ID ?t))"
    "route_point (t_Route ?t) (sample_admin 1 2) = Inr 2"
    by (simp_all add: eval_simps)
  from UpdateTeamStatus_checkin [OF demo_db_wf this surjective_pairing] show ?thesis
    by (simp add: eval_simps)
qed

theorem UpdateTeamStatus_frozen_witness:
  "GetTeamByID (fst (UpdateTeamStatus sample_env demo_db (sample_admin 3 1)
                      \<lparr>sf_CodeType = 1, sf_Content = ''2''\<rparr> 100)) 2 = Some (sample_team 2 2 3 2)"
proof -
  have "GetTeamByID demo_db 2 = Some (sample_team 2 2 3 2)" "t_Status (sample_team 2 2 3 2) \<in> {1, 3, 4}"
    by (simp_all add: eval_simps)
  from UpdateTeamStatus_frozen [OF demo_db_wf this surjective_pairing] show ?thesis by simp
qed

theorem PostDestination_arrive_witness:
  "GetTeamByID (fst (PostDestination sample_env demo_db (sample_admin 1 5)
                      \<lparr>pf_TeamID = 1, pf_Status = 1\<rparr> 100)) 1 =
     Some ((sample_team 1 1 5 2)\<lparr>t_Code := ''qr1'', t_Point := 5, t_Time := 100, t_Status := 4\<rparr>)"
proof -
  let ?f = "\<lparr>pf_TeamID = 1, pf_Status = 1\<rparr>"
  let ?t = "(sample_team 1 1 5 2)\<lparr>t_Code := ''qr1'', t_Point := 0\<rparr>"
  have "PostDestinationForm_valid ?f" "pf_Status ?f = 1" "GetTeamByID demo_db (pf_TeamID ?f) = Some ?t"
    "CheckRoute sample_env (sample_admin 1 5) ?t" "t_Status ?t \<notin> {3, 4}"
    "0 < progress_num (team_members demo_db (t_ID ?t))"
    by (simp_all add: eval_simps)
  from PostDestination_arrive [OF demo_db_wf this surjective_pairing] show ?thesis
    by (simp add: eval_simps)
qed

theorem PostDestination_frozen_witness:
  "GetTeamByID (fst (PostDestination sample_env demo_db (sample_admin 2 1)
                      \<lparr>pf_TeamID = 2, pf_Status = 1\<rparr> 100)) 2 = Some (sample_team 2 2 3 2)"
proof -
  have "GetTeamByID demo_db 2 = Some (sample_team 2 2 3 2)" "t_Status (sample_team 2 2 3 2) \<in> {3, 4}"
    by (simp_all add: eval_simps)
  from PostDestination_frozen [OF demo_db_wf this surjective_pairing] show ?thesis by simp
qed

theorem BindTeam_success_witness:
  "snd (BindTeam sample_env demo_db (sample_admin 3 1) \<lparr>bf_TeamID = 2, bf_Type = 2, bf_Code = ''qr2''\<rparr> 100)
   = ResponseSuccess ()"
proof -
  have "BindTeam sample_env demo_db (sample_admin 3 1) \<lparr>bf_TeamID = 2, bf_Type = 2, bf_Code = ''qr2''\<rparr> 100 =
        (team_Update demo_db ((sample_team 2 2 3 2)\<lparr>t_Code := ''qr2'', t_Point := 0, t_Status := 5,
                                t_StartNum := 1, t_Time := 100\<rparr>), ResponseSuccess ())"
    by (rule BindTeam_success [THEN iffD2]) (simp add: eval_simps)
  then show ?thesis by simp
qed

theorem too_few_confirmed_no_wrap_witness:
  "too_few_confirmed 10 4 \<and> \<not> too_few_confirmed 10 5"
  using too_few_confirmed_no_wrap [of 10 4] too_few_confirmed_no_wrap [of 10 5] by simp

end
