(* ===== verification/UserStatus.thy ===== *)
theory UserStatus
  imports Checkin
begin

text \<open>
  The member status handler of src/controller/admin/user.go: an admin scans the
  members of a team before the start and confirms each one (status 1 in the
  form, walk status 3) or records a withdrawal (any other status, walk status 4).
  \<open>getUsersAndTeams\<close> reads every person of the list and each person's team
  into two Go maps; a validation loop over the person map (in Go's unspecified
  iteration order) rejects the request if a team is missing, is on another
  route, or a person has finished; then every form is applied in list order
  through a pointer shared by all forms of the same person.
\<close>

record UserStatusForm =
  uf_UserID :: openid
  uf_Status :: int

text \<open>
  \<open>Where("id = ?", person.TeamId).Take(&team)\<close>: the team whose id is the
  person's \<open>TeamId\<close>; none for \<open>-1\<close>.
\<close>

definition team_of_person :: "db \<Rightarrow> person \<Rightarrow> team option" where
  "team_of_person d p = (if p_TeamId p < 0 then None else GetTeamByID d (nat (p_TeamId p)))"

fun getUsersAndTeams ::
  "db \<Rightarrow> UserStatusForm list \<Rightarrow> (openid \<rightharpoonup> person) \<Rightarrow> (int \<rightharpoonup> team) \<Rightarrow>
   msg + (openid \<rightharpoonup> person) \<times> (int \<rightharpoonup> team)" where
  "getUsersAndTeams d [] um tm = Inr (um, tm)"
| "getUsersAndTeams d (f # fs) um tm =
     (case GetPerson d (uf_UserID f) of
        None \<Rightarrow> Inl ScanUserNotFound
      | Some p \<Rightarrow>
          if tm (p_TeamId p) \<noteq> None then getUsersAndTeams d fs (um(uf_UserID f \<mapsto> p)) tm
          else (case team_of_person d p of
                  None \<Rightarrow> Inl TeamInfoFailed
                | Some t \<Rightarrow> getUsersAndTeams d fs (um(uf_UserID f \<mapsto> p)) (tm(p_TeamId p \<mapsto> t))))"

text \<open>
  The validation loop \<open>for _, person := range users\<close>, over the keys in the order
  \<open>ks\<close> in which Go's map iteration visits them.
\<close>

fun check_users ::
  "env \<Rightarrow> admin \<Rightarrow> (openid \<rightharpoonup> person) \<Rightarrow> (int \<rightharpoonup> team) \<Rightarrow> openid list \<Rightarrow> msg option" where
  "check_users e user um tm [] = None"
| "check_users e user um tm (k # ks) =
     (case um k of
        None \<Rightarrow> check_users e user um tm ks
      | Some p \<Rightarrow>
          (case tm (p_TeamId p) of
             None \<Rightarrow> Some TeamInfoFailed
           | Some t \<Rightarrow>
               if \<not> CheckRoute e user t then Some OtherRoute
               else if p_WalkStatus p = 5 then Some MemberFinished
               else check_users e user um tm ks))"

text \<open>
  The update loop: \<open>person := users[form.UserID]\<close> is a pointer, so a second form
  for the same person sees the first one's change; each form saves the person.
\<close>

fun apply_status :: "db \<Rightarrow> (openid \<rightharpoonup> person) \<Rightarrow> UserStatusForm list \<Rightarrow> db" where
  "apply_status d um [] = d"
| "apply_status d um (f # fs) =
     (case um (uf_UserID f) of
        None \<Rightarrow> apply_status d um fs
      | Some p \<Rightarrow>
          let p' = p\<lparr>p_WalkStatus := (if uf_Status f = 1 then 3 else 4)\<rparr>
          in apply_status (user_Update d p') (um(uf_UserID f \<mapsto> p')) fs)"

text \<open>
  The handler. \<open>None\<close> is a request whose \<open>list\<close> is absent or null (the
  \<open>required\<close> tag on a slice); the tags on the elements are not checked, since
  the slice has no \<open>dive\<close> tag. The validation visits the distinct user ids in
  list order, one of the orders Go may choose (see \<open>check_users_None_iff\<close>).
\<close>

definition UserStatus ::
  "env \<Rightarrow> db \<Rightarrow> admin \<Rightarrow> UserStatusForm list option \<Rightarrow> db \<times> unit response" where
  "UserStatus e d user lst =
     (case lst of
        None \<Rightarrow> (d, ResponseError ParamError)
      | Some forms \<Rightarrow>
          (case getUsersAndTeams d forms Map.empty Map.empty of
             Inl m \<Rightarrow> (d, ResponseError m)
           | Inr (um, tm) \<Rightarrow>
               (case check_users e user um tm (remdups (map uf_UserID forms)) of
                  Some m \<Rightarrow> (d, ResponseError m)
                | None \<Rightarrow> (apply_status d um forms, ResponseSuccess ()))))"

text \<open>The walk status the last form of a person sets, if any form names the person.\<close>

fun status_after :: "UserStatusForm list \<Rightarrow> openid \<Rightarrow> uint8 option" where
  "status_after [] k = None"
| "status_after (f # fs) k =
     (case status_after fs k of
        Some s \<Rightarrow> Some s
      | None \<Rightarrow> if uf_UserID f = k then Some (if uf_Status f = 1 then 3 else 4) else None)"

definition user_ok :: "env \<Rightarrow> admin \<Rightarrow> (openid \<rightharpoonup> person) \<Rightarrow> (int \<rightharpoonup> team) \<Rightarrow> openid \<Rightarrow> bool" where
  "user_ok e user um tm k \<longleftrightarrow>
     (case um k of
        None \<Rightarrow> True
      | Some p \<Rightarrow> (case tm (p_TeamId p) of
                    None \<Rightarrow> False
                  | Some t \<Rightarrow> CheckRoute e user t \<and> p_WalkStatus p \<noteq> 5))"

text \<open>The team map of \<open>getUsersAndTeams\<close> holds only teams of the database, under their ids.\<close>

definition tm_ok :: "db \<Rightarrow> (int \<rightharpoonup> team) \<Rightarrow> bool" where
  "tm_ok d tm \<longleftrightarrow> (\<forall>i t. tm i = Some t \<longrightarrow> 0 \<le> i \<and> GetTeamByID d (nat i) = Some t)"

declare team_of_person_def [eval_simps] UserStatus_def [eval_simps] user_ok_def [eval_simps]

subsection \<open>Lemmas\<close>


lemma check_users_None_iff:
  "check_users e user um tm ks = None \<longleftrightarrow> (\<forall>k\<in>set ks. user_ok e user um tm k)"
  by (induction e user um tm ks rule: check_users.induct)
     (auto simp: user_ok_def split: option.splits)

lemma tm_ok_team:
  assumes "tm_ok d tm" and "tm (p_TeamId p) = Some t"
  shows "team_of_person d p = Some t"
proof -
  from assms have "0 \<le> p_TeamId p \<and> GetTeamByID d (nat (p_TeamId p)) = Some t"
    unfolding tm_ok_def by blast
  then show ?thesis by (simp add: team_of_person_def)
qed

lemma tm_ok_upd:
  "tm_ok d tm \<Longrightarrow> team_of_person d p = Some t \<Longrightarrow> tm_ok d (tm(p_TeamId p \<mapsto> t))"
  by (auto simp: tm_ok_def team_of_person_def split: if_splits)

lemma getUsersAndTeams_Inr:
  "tm_ok d tm \<Longrightarrow> getUsersAndTeams d fs um tm = Inr (um', tm') \<Longrightarrow>
   tm_ok d tm' \<and> (\<forall>i t. tm i = Some t \<longrightarrow> tm' i = Some t) \<and>
   (\<forall>k. um' k = (if k \<in> set (map uf_UserID fs) then GetPerson d k else um k)) \<and>
   (\<forall>k\<in>set (map uf_UserID fs). \<exists>p t. GetPerson d k = Some p \<and> team_of_person d p = Some t \<and>
      tm' (p_TeamId p) = Some t)"
proof (induction d fs um tm rule: getUsersAndTeams.induct)
  case (1 d um tm)
  then show ?case by simp
next
  case (2 d f fs um tm)
  then obtain p where p: "GetPerson d (uf_UserID f) = Some p"
    by (auto split: option.splits)
  show ?case
  proof (cases "tm (p_TeamId p) = None")
    case False
    then obtain t where t: "tm (p_TeamId p) = Some t" by auto
    with "2.prems" p have run: "getUsersAndTeams d fs (um(uf_UserID f \<mapsto> p)) tm = Inr (um', tm')" by simp
    note IH = "2.IH"(1) [OF p False "2.prems"(1) run]
    moreover have "team_of_person d p = Some t" using "2.prems"(1) t by (rule tm_ok_team)
    ultimately show ?thesis using p t by auto
  next
    case True
    with "2.prems" p obtain t where t: "team_of_person d p = Some t"
      and run: "getUsersAndTeams d fs (um(uf_UserID f \<mapsto> p)) (tm(p_TeamId p \<mapsto> t)) = Inr (um', tm')"
      by (auto split: option.splits)
    have ok: "tm_ok d (tm(p_TeamId p \<mapsto> t))" using "2.prems"(1) t by (rule tm_ok_upd)
    have nn: "\<not> tm (p_TeamId p) \<noteq> None" using True by simp
    note IH = "2.IH"(2) [OF p nn t ok run]
    have keep: "tm' i = Some u" if "tm i = Some u" for i u
    proof -
      from that True have "i \<noteq> p_TeamId p" by auto
      with that IH show ?thesis by auto
    qed
    from IH keep t p show ?thesis by auto
  qed
qed


lemma getUsersAndTeams_total:
  "tm_ok d tm \<Longrightarrow>
   (\<forall>k\<in>set (map uf_UserID fs). \<exists>p t. GetPerson d k = Some p \<and> team_of_person d p = Some t) \<Longrightarrow>
   \<exists>um' tm'. getUsersAndTeams d fs um tm = Inr (um', tm')"
proof (induction d fs um tm rule: getUsersAndTeams.induct)
  case (1 d um tm)
  then show ?case by simp
next
  case (2 d f fs um tm)
  then obtain p t where p: "GetPerson d (uf_UserID f) = Some p" and t: "team_of_person d p = Some t"
    by auto
  show ?case
  proof (cases "tm (p_TeamId p) = None")
    case False
    have rest: "\<forall>k\<in>set (map uf_UserID fs). \<exists>p t. GetPerson d k = Some p \<and> team_of_person d p = Some t"
      using "2.prems"(2) by simp
    from "2.IH"(1) [OF p False "2.prems"(1) rest] p False show ?thesis by (simp add: fun_upd_def)
  next
    case True
    have nn: "\<not> tm (p_TeamId p) \<noteq> None" using True by simp
    have ok: "tm_ok d (tm(p_TeamId p \<mapsto> t))" using "2.prems"(1) t by (rule tm_ok_upd)
    have rest: "\<forall>k\<in>set (map uf_UserID fs). \<exists>p t. GetPerson d k = Some p \<and> team_of_person d p = Some t"
      using "2.prems"(2) by simp
    from "2.IH"(2) [OF p nn t ok rest] p t True show ?thesis by (simp add: fun_upd_def)
  qed
qed

lemma GetPerson_unique:
  "distinct (map p_OpenId (people d)) \<Longrightarrow> GetPerson d k = Some p \<Longrightarrow> q \<in> set (people d) \<Longrightarrow>
   p_OpenId q = k \<Longrightarrow> q = p"
  by (metis GetPerson_Some GetPerson_def lookup_key_distinct option.inject)

lemma people_apply_status:
  assumes "distinct (map p_OpenId (people d))" and "\<forall>k p. um k = Some p \<longrightarrow> GetPerson d k = Some p"
    and "\<forall>k\<in>set (map uf_UserID fs). um k \<noteq> None"
  shows "people (apply_status d um fs) =
         map (\<lambda>q. case status_after fs (p_OpenId q) of None \<Rightarrow> q | Some s \<Rightarrow> q\<lparr>p_WalkStatus := s\<rparr>) (people d)"
  using assms
proof (induction fs arbitrary: d um)
  case Nil
  then show ?case by (simp add: map_idI)
next
  case (Cons f fs)
  let ?k = "uf_UserID f" and ?s0 = "if uf_Status f = 1 then 3 else 4 :: uint8"
  from Cons.prems obtain p where um: "um ?k = Some p" by auto
  with Cons.prems have gp: "GetPerson d ?k = Some p" by auto
  then have pin: "p \<in> set (people d)" and pk: "p_OpenId p = ?k" by (auto dest: GetPerson_Some)
  let ?p' = "p\<lparr>p_WalkStatus := ?s0\<rparr>"
  let ?d1 = "user_Update d ?p'"
  have d1: "people ?d1 = map (\<lambda>q. if p_OpenId q = ?k then q\<lparr>p_WalkStatus := ?s0\<rparr> else q) (people d)"
  proof -
    have "people ?d1 = map (\<lambda>y. if p_OpenId y = p_OpenId ?p' then ?p' else y) (people d)"
      using Cons.prems(1) pin by (simp add: user_Update_def upsert_existing)
    also have "\<dots> = map (\<lambda>q. if p_OpenId q = ?k then q\<lparr>p_WalkStatus := ?s0\<rparr> else q) (people d)"
      using GetPerson_unique [OF Cons.prems(1) gp] pk by (intro map_cong) auto
    finally show ?thesis .
  qed
  have keys: "map p_OpenId (people ?d1) = map p_OpenId (people d)" by (simp add: d1)
  have inv: "\<forall>k q. (um(?k \<mapsto> ?p')) k = Some q \<longrightarrow> GetPerson ?d1 k = Some q"
    using Cons.prems(2) pk by (auto simp: GetPerson_def user_Update_def lookup_key_upsert)
  have dom: "\<forall>k\<in>set (map uf_UserID fs). (um(?k \<mapsto> ?p')) k \<noteq> None" using Cons.prems(3) by auto
  have IH: "people (apply_status ?d1 (um(?k \<mapsto> ?p')) fs) =
            map (\<lambda>q. case status_after fs (p_OpenId q) of None \<Rightarrow> q | Some s \<Rightarrow> q\<lparr>p_WalkStatus := s\<rparr>) (people ?d1)"
    using Cons.prems(1) keys inv dom by (intro Cons.IH) simp_all
  show ?case using um IH by (simp add: d1 Let_def split: option.splits)
qed


lemma tm_ok_empty: "tm_ok d Map.empty"
  by (simp add: tm_ok_def)

lemma UserStatus_dispatch:
  assumes "UserStatus e d user lst = (d', r)"
  obtains (rejected) m where "d' = d" "r = ResponseError m"
  | (accepted) forms um tm where "lst = Some forms"
      "getUsersAndTeams d forms Map.empty Map.empty = Inr (um, tm)"
      "check_users e user um tm (remdups (map uf_UserID forms)) = None"
      "d' = apply_status d um forms" "r = ResponseSuccess ()"
proof (cases lst)
  case None
  with assms have "d' = d" "r = ResponseError ParamError" by (simp_all add: UserStatus_def)
  then show ?thesis by (rule rejected)
next
  case (Some forms)
  show ?thesis
  proof (cases "getUsersAndTeams d forms Map.empty Map.empty")
    case (Inl m)
    with assms Some have "d' = d" "r = ResponseError m" by (simp_all add: UserStatus_def)
    then show ?thesis by (rule rejected)
  next
    case (Inr x)
    obtain um tm where x: "x = (um, tm)" by (cases x)
    show ?thesis
    proof (cases "check_users e user um tm (remdups (map uf_UserID forms))")
      case (Some m)
      with assms \<open>lst = Some forms\<close> Inr x have "d' = d" "r = ResponseError m"
        by (simp_all add: UserStatus_def)
      then show ?thesis by (rule rejected)
    next
      case None
      with assms \<open>lst = Some forms\<close> Inr x show ?thesis
        by (intro accepted [of forms um tm]) (simp_all add: UserStatus_def)
    qed
  qed
qed

text \<open>
  C8: A member status request succeeds exactly when every listed person exists,
  has a team, that team is on the admin's route, and the person has not
  finished; otherwise it is rejected.
\<close>

theorem UserStatus_success_iff:
  "snd (UserStatus e d user (Some forms)) = ResponseSuccess () \<longleftrightarrow>
   (\<forall>k\<in>set (map uf_UserID forms). \<exists>p t. GetPerson d k = Some p \<and> team_of_person d p = Some t \<and>
      CheckRoute e user t \<and> p_WalkStatus p \<noteq> 5)" (is "?ok \<longleftrightarrow> ?all")
proof
  assume ?ok
  then obtain um tm where g: "getUsersAndTeams d forms Map.empty Map.empty = Inr (um, tm)"
    and c: "check_users e user um tm (remdups (map uf_UserID forms)) = None"
    by (cases "UserStatus e d user (Some forms)") (auto elim: UserStatus_dispatch)
  from getUsersAndTeams_Inr [OF tm_ok_empty g] have
    um: "\<forall>k\<in>set (map uf_UserID forms). um k = GetPerson d k" and
    tm: "\<forall>k\<in>set (map uf_UserID forms). \<exists>p t. GetPerson d k = Some p \<and> team_of_person d p = Some t \<and>
          tm (p_TeamId p) = Some t" by auto
  from c have "\<forall>k\<in>set (map uf_UserID forms). user_ok e user um tm k"
    by (simp add: check_users_None_iff)
  with um tm show ?all by (fastforce simp: user_ok_def)
next
  assume ?all
  then obtain um tm where g: "getUsersAndTeams d forms Map.empty Map.empty = Inr (um, tm)"
    using getUsersAndTeams_total [OF tm_ok_empty, of forms d] by blast
  from getUsersAndTeams_Inr [OF tm_ok_empty g] have
    um: "\<forall>k\<in>set (map uf_UserID forms). um k = GetPerson d k" and
    tm: "\<forall>k\<in>set (map uf_UserID forms). \<exists>p t. GetPerson d k = Some p \<and> team_of_person d p = Some t \<and>
          tm (p_TeamId p) = Some t" by auto
  have "\<forall>k\<in>set (map uf_UserID forms). user_ok e user um tm k"
  proof
    fix k assume k: "k \<in> set (map uf_UserID forms)"
    with \<open>?all\<close> obtain p t where "GetPerson d k = Some p" "team_of_person d p = Some t"
      "CheckRoute e user t" "p_WalkStatus p \<noteq> 5" by blast
    with k um tm show "user_ok e user um tm k" by (auto simp: user_ok_def)
  qed
  then have "check_users e user um tm (remdups (map uf_UserID forms)) = None"
    by (simp add: check_users_None_iff)
  with g show ?ok by (simp add: UserStatus_def)
qed

text \<open>
  C9: An accepted member status request sets the walk status of exactly the
  listed people, to 3 when the last form for that person says 1 and to 4
  otherwise, and changes no other field, row or team.
\<close>

theorem UserStatus_effect:
  assumes wf: "db_wf d" and run: "UserStatus e d user lst = (d', ResponseSuccess ())"
  shows "\<exists>forms. lst = Some forms \<and> teams d' = teams d \<and>
           people d' = map (\<lambda>q. case status_after forms (p_OpenId q) of
                                   None \<Rightarrow> q | Some s \<Rightarrow> q\<lparr>p_WalkStatus := s\<rparr>) (people d)"
  using run
proof (cases rule: UserStatus_dispatch)
  case (rejected m)
  then show ?thesis by simp
next
  case (accepted forms um tm)
  from getUsersAndTeams_Inr [OF tm_ok_empty accepted(2)]
  have um: "\<forall>k. um k = (if k \<in> set (map uf_UserID forms) then GetPerson d k else None)"
    and tm: "\<forall>k\<in>set (map uf_UserID forms). \<exists>p. GetPerson d k = Some p" by auto
  have "people (apply_status d um forms) =
        map (\<lambda>q. case status_after forms (p_OpenId q) of None \<Rightarrow> q | Some s \<Rightarrow> q\<lparr>p_WalkStatus := s\<rparr>) (people d)"
    using wf um tm by (intro people_apply_status) (auto simp: db_wf_def)
  moreover have "teams (apply_status d um forms) = teams d"
    by (induction forms arbitrary: d um) (auto split: option.splits simp: Let_def)
  ultimately show ?thesis using accepted by simp
qed

text \<open>C10: A rejected member status request changes nothing: all checks precede the first save.\<close>

theorem UserStatus_rejects_atomically:
  "UserStatus e d user lst = (d', ResponseError m) \<Longrightarrow> d' = d"
  by (erule UserStatus_dispatch) auto

lemma apply_status_frame [simp]:
  "teams (apply_status d um fs) = teams d" "next_team_id (apply_status d um fs) = next_team_id d"
  "admins (apply_status d um fs) = admins d" "redis_teams (apply_status d um fs) = redis_teams d"
  by (induction fs arbitrary: d um) (auto split: option.splits simp: Let_def)

text \<open>
  The effect of the handler on the tables, whatever its outcome: the people
  table is mapped by the walk statuses of some list of forms (the empty list
  when it is rejected) and nothing else changes.
\<close>

lemma UserStatus_people:
  assumes wf: "db_wf d" and run: "UserStatus e d user lst = (d', r)"
  shows "teams d' = teams d \<and> next_team_id d' = next_team_id d \<and>
    (\<exists>forms. people d' = map (\<lambda>q. case status_after forms (p_OpenId q) of
                                  None \<Rightarrow> q | Some s \<Rightarrow> q\<lparr>p_WalkStatus := s\<rparr>) (people d))"
  using run
proof (cases rule: UserStatus_dispatch)
  case (rejected m)
  have "people d = map (\<lambda>q. case status_after [] (p_OpenId q) of
                             None \<Rightarrow> q | Some s \<Rightarrow> q\<lparr>p_WalkStatus := s\<rparr>) (people d)" by simp
  with rejected show ?thesis by blast
next
  case (accepted forms um tm)
  from getUsersAndTeams_Inr [OF tm_ok_empty accepted(2)]
  have um: "\<forall>k. um k = (if k \<in> set (map uf_UserID forms) then GetPerson d k else None)"
    and tm: "\<forall>k\<in>set (map uf_UserID forms). \<exists>p. GetPerson d k = Some p" by auto
  have "people d' = map (\<lambda>q. case status_after forms (p_OpenId q) of
                              None \<Rightarrow> q | Some s \<Rightarrow> q\<lparr>p_WalkStatus := s\<rparr>) (people d)"
    using wf um tm accepted(4) by (simp, intro people_apply_status) (auto simp: db_wf_def)
  with accepted(4) show ?thesis by auto
qed

lemma UserStatus_wf:
  assumes wf: "db_wf d" and run: "UserStatus e d user lst = (d', r)"
  shows "db_wf d'"
proof -
  obtain forms where eq: "people d' = map (\<lambda>q. case status_after forms (p_OpenId q) of
                              None \<Rightarrow> q | Some s \<Rightarrow> q\<lparr>p_WalkStatus := s\<rparr>) (people d)"
    and fr: "teams d' = teams d" "next_team_id d' = next_team_id d"
    using UserStatus_people [OF wf run] by blast
  let ?g = "\<lambda>q. case status_after forms (p_OpenId q) of None \<Rightarrow> q | Some s \<Rightarrow> q\<lparr>p_WalkStatus := s\<rparr>"
  have c1: "p_OpenId \<circ> ?g = p_OpenId" and c2: "p_TeamId \<circ> ?g = p_TeamId"
    by (auto simp: fun_eq_iff split: option.splits)
  have "map p_OpenId (people d') = map p_OpenId (people d)" by (simp only: eq map_map c1)
  moreover have "p_TeamId ` set (people d') = p_TeamId ` set (people d)"
    by (simp only: eq set_map image_comp c2)
  ultimately show ?thesis using fr by (intro db_wf_people_cong [OF wf]) simp_all
qed

subsection \<open>Witnesses\<close>

theorem UserStatus_success_iff_witness:
  "snd (UserStatus sample_env demo_db (sample_admin 1 0)
     (Some [\<lparr>uf_UserID = ''a'', uf_Status = 1\<rparr>, \<lparr>uf_UserID = ''b'', uf_Status = 1\<rparr>])) = ResponseSuccess () \<and>
   snd (UserStatus sample_env demo_db (sample_admin 4 0)
     (Some [\<lparr>uf_UserID = ''a'', uf_Status = 1\<rparr>])) \<noteq> ResponseSuccess ()"
  using UserStatus_success_iff [of sample_env demo_db "sample_admin 1 0"
          "[\<lparr>uf_UserID = ''a'', uf_Status = 1\<rparr>, \<lparr>uf_UserID = ''b'', uf_Status = 1\<rparr>]"]
        UserStatus_success_iff [of sample_env demo_db "sample_admin 4 0" "[\<lparr>uf_UserID = ''a'', uf_Status = 1\<rparr>]"]
  by (simp add: eval_simps)

theorem UserStatus_effect_witness:
  "map p_WalkStatus (people (fst (UserStatus sample_env demo_db (sample_admin 1 0)
     (Some [\<lparr>uf_UserID = ''a'', uf_Status = 2\<rparr>, \<lparr>uf_UserID = ''b'', uf_Status = 1\<rparr>,
            \<lparr>uf_UserID = ''a'', uf_Status = 1\<rparr>])))) = [3, 3, 3, 4, 3, 1]"
proof -
  let ?fs = "[\<lparr>uf_UserID = ''a'', uf_Status = 2\<rparr>, \<lparr>uf_UserID = ''b'', uf_Status = 1\<rparr>,
              \<lparr>uf_UserID = ''a'', uf_Status = 1\<rparr>]"
  have "snd (UserStatus sample_env demo_db (sample_admin 1 0) (Some ?fs)) = ResponseSuccess ()"
    by (simp add: eval_simps)
  then have "UserStatus sample_env demo_db (sample_admin 1 0) (Some ?fs) =
             (fst (UserStatus sample_env demo_db (sample_admin 1 0) (Some ?fs)), ResponseSuccess ())"
    by (metis surjective_pairing)
  from UserStatus_effect [OF demo_db_wf this] show ?thesis by (auto simp: eval_simps)
qed

theorem UserStatus_rejects_atomically_witness:
  "fst (UserStatus sample_env demo_db (sample_admin 1 0) (Some [\<lparr>uf_UserID = ''f'', uf_Status = 1\<rparr>]))
   = demo_db"
proof -
  have "UserStatus sample_env demo_db (sample_admin 1 0) (Some [\<lparr>uf_UserID = ''f'', uf_Status = 1\<rparr>])
        = (fst (UserStatus sample_env demo_db (sample_admin 1 0) (Some [\<lparr>uf_UserID = ''f'', uf_Status = 1\<rparr>])),
           ResponseError TeamInfoFailed)"
    by (simp add: eval_simps)
  then show ?thesis by (rule UserStatus_rejects_atomically)
qed

end
