(* ===== verification/Regroup.thy ===== *)
theory Regroup
  imports UserStatus
begin

text \<open>
  Team regrouping and submission (src/controller/admin/team.go, \<open>Regroup\<close> and
  \<open>SubmitTeam\<close>). \<open>Regroup\<close> reads the scanned JWTs one by one into copies of
  the persons, refusing a person whose old team has started; then dissolves the
  old team of every scanned person (all its rows reset, the captain saved even
  when the team has none, the team deleted);
  creates the new team with the first scanned person as captain; and saves the
  copies read at the start with the new team id. A duplicate scan writes an error
  but does not return, so a handler may write several responses: \<open>Regroup\<close>
  returns the list of responses written, in order.
\<close>

record RegroupForm =
  rf_Jwts :: "string list option"   \<comment> \<open>\<open>None\<close>: absent or null\<close>
  rf_Secret :: string
  rf_Route :: uint8

definition RegroupForm_valid :: "RegroupForm \<Rightarrow> bool" where
  "RegroupForm_valid f \<longleftrightarrow> rf_Jwts f \<noteq> None \<and> rf_Secret f \<noteq> [] \<and> rf_Route f \<noteq> 0"

text \<open>
  The first loop over the scanned JWTs. \<open>seen\<close> is \<open>processedJwts\<close>, \<open>out\<close> the
  responses written so far, \<open>acc\<close> the copies read. It ends with \<open>Some acc\<close>, or
  with \<open>None\<close> after an error response or a panic: \<open>jwt[7:]\<close> on a string
  shorter than 7 bytes, or \<open>team.Status\<close> on the nil team of a dangling
  \<open>TeamId\<close>.
\<close>

fun scan_loop ::
  "env \<Rightarrow> db \<Rightarrow> string list \<Rightarrow> nat response list \<Rightarrow> person list \<Rightarrow> string list \<Rightarrow>
   nat response list \<times> person list option" where
  "scan_loop e d seen out acc [] = (out, Some acc)"
| "scan_loop e d seen out acc (jwt # jwts) =
     (let out' = (if jwt \<in> set seen then out @ [ResponseError DuplicateScan] else out) in
      if length jwt < 7 then (out' @ [Panic], None)
      else
        (case ParseToken e (drop 7 jwt) of
           None \<Rightarrow> (out' @ [ResponseError ScanError], None)
         | Some oid \<Rightarrow>
             (case GetPerson d oid of
                None \<Rightarrow> (out' @ [ResponseError ScanError], None)
              | Some p \<Rightarrow>
                  if p_TeamId p \<noteq> -1 then
                    (case team_of_person d p of
                       None \<Rightarrow> (out' @ [Panic], None)
                     | Some t \<Rightarrow>
                         if t_Status t \<noteq> 1 then (out' @ [ResponseError (OldTeamStarted (p_Name p))], None)
                         else scan_loop e d (jwt # seen) out' (acc @ [p]) jwts)
                  else scan_loop e d (jwt # seen) out' (acc @ [p]) jwts)))"

text \<open>
  The condition the scan loop puts on a person it accepts (team.go lines 380 to
  386): no team, or a team that has not started.
\<close>

definition joinable :: "db \<Rightarrow> person \<Rightarrow> bool" where
  "joinable d p \<longleftrightarrow>
     p_TeamId p = -1 \<or> (case team_of_person d p of None \<Rightarrow> False | Some t \<Rightarrow> t_Status t = 1)"

text \<open>
  The person a scanned JWT names, as the scan loop reads it (team.go lines 371
  to 378): the open id in the token after its 7-byte prefix, and that person's
  row. Used only where the loop has accepted the JWT, so both lookups succeed.
\<close>

definition scanned_person :: "env \<Rightarrow> db \<Rightarrow> string \<Rightarrow> person" where
  "scanned_person e d jwt = the (GetPerson d (the (ParseToken e (drop 7 jwt))))"

text \<open>The reset of a member of a dissolved team.\<close>

definition reset_person :: "person \<Rightarrow> person" where
  "reset_person p = p\<lparr>p_TeamId := -1, p_Status := 0, p_WalkStatus := 1\<rparr>"

text \<open>
  The captain \<open>model.GetPersonsInTeam\<close> returns when the team has no member with
  \<open>Status = 2\<close>: the zero value of \<open>model.Person\<close>.
\<close>

definition zero_person :: person where
  "zero_person =
     \<lparr>p_OpenId = [], p_Name = [], p_Gender = 0, p_StuId = [], p_Campus = 0, p_Identity = [], p_Status = 0,
      p_Qq = [], p_Wechat = [], p_College = [], p_Tel = [], p_CreatedOp = 0, p_JoinOp = 0, p_TeamId = 0,
      p_WalkStatus = 0, p_Type = 0\<rparr>"

text \<open>
  \<open>userService.Update(captain)\<close> on the reset zero value: its primary key (the
  open id) is empty, so GORM's \<open>Save\<close> creates the row, and the insert fails
  when a row with the empty open id exists.
\<close>

definition save_zero_captain :: "db \<Rightarrow> db" where
  "save_zero_captain d =
     (if GetPerson d (p_OpenId zero_person) = None then d\<lparr>people := people d @ [reset_person zero_person]\<rparr> else d)"

text \<open>
  The dissolution of the team \<open>tid\<close> (team.go lines 394 to 415): reset and save
  every member, then the captain, then delete the team if it is still there.
\<close>

definition dissolve :: "db \<Rightarrow> int \<Rightarrow> db" where
  "dissolve d tid =
     (case GetPersonsInTeam d tid of
        (cap, ms) \<Rightarrow>
          let d1 = fold (\<lambda>p d. user_Update d (reset_person p)) ms d;
              d2 = (case cap of None \<Rightarrow> save_zero_captain d1 | Some c \<Rightarrow> user_Update d1 (reset_person c))
          in (case (if tid < 0 then None else GetTeamByID d2 (nat tid)) of
                None \<Rightarrow> d2
              | Some t \<Rightarrow> team_Delete d2 t))"

fun dissolve_loop :: "db \<Rightarrow> person list \<Rightarrow> db" where
  "dissolve_loop d [] = d"
| "dissolve_loop d (p # ps) = dissolve_loop (if p_TeamId p \<noteq> -1 then dissolve d (p_TeamId p) else d) ps"

text \<open>The name and slogan literals of the new team ("new team", "a new start" in Chinese), as their UTF-8 bytes.\<close>

definition new_team_name :: string where
  "new_team_name = map char_of [230::nat, 150, 176, 233, 152, 159, 228, 188, 141]"

definition new_team_slogan :: string where
  "new_team_slogan = map char_of [230::nat, 150, 176, 231, 154, 132, 229, 188, 128, 229, 167, 139]"

text \<open>
  The Go value \<open>newTeam\<close>: its \<open>ID\<close> is the zero value, and stays so, since
  \<open>teamService.Create\<close> receives a copy.
\<close>

definition new_team :: "RegroupForm \<Rightarrow> person \<Rightarrow> nat \<Rightarrow> unix_time \<Rightarrow> team" where
  "new_team f cap n now =
     \<lparr>t_ID = 0, t_Name = new_team_name, t_Route = rf_Route f, t_Password = ''123456'',
      t_AllowMatch = True, t_Slogan = new_team_slogan, t_Point = -1, t_Status = 1, t_StartNum = 0,
      t_Num = word_of_nat n, t_Captain = p_OpenId cap, t_Submit = True, t_Code = [],
      t_Time = now + 8 * 3600\<rparr>"

text \<open>The last loop: the copies read at the start, with the new team id and role, saved.\<close>

fun assign_loop :: "db \<Rightarrow> nat \<Rightarrow> nat \<Rightarrow> person list \<Rightarrow> db" where
  "assign_loop d tid i [] = d"
| "assign_loop d tid i (p # ps) =
     assign_loop (user_Update d (p\<lparr>p_TeamId := int tid, p_Status := (if i = 0 then 2 else 1)\<rparr>)) tid (Suc i) ps"

definition Regroup :: "env \<Rightarrow> db \<Rightarrow> RegroupForm \<Rightarrow> unix_time \<Rightarrow> db \<times> nat response list" where
  "Regroup e d f now =
     (if \<not> RegroupForm_valid f then (d, [ResponseError ParamError])
      else if rf_Secret f \<noteq> server_secret e then (d, [ResponseError WrongSecret])
      else
        (case scan_loop e d [] [] [] (the (rf_Jwts f)) of
           (out, None) \<Rightarrow> (d, out)
         | (out, Some ps) \<Rightarrow>
             let d1 = dissolve_loop d ps in
             (case ps of
                [] \<Rightarrow> (d1, out @ [Panic])
              | p0 # _ \<Rightarrow>
                  let nt = new_team f p0 (length ps) now;
                      d2 = team_Create d1 nt in
                  (case GetTeamByCaptain d2 (p_OpenId p0) of
                     None \<Rightarrow> (d2, out @ [ResponseError ServiceError])
                   | Some t \<Rightarrow>
                       (redis_SAdd (assign_loop d2 (t_ID t) 0 ps) (Itoa (t_ID nt)),
                        out @ [ResponseSuccess (t_ID nt)])))))"

subsection \<open>SubmitTeam\<close>

record SubmitTeamForm =
  sbf_TeamID :: nat
  sbf_Secret :: string

definition SubmitTeam :: "env \<Rightarrow> db \<Rightarrow> SubmitTeamForm \<Rightarrow> db \<times> unit response" where
  "SubmitTeam e d f =
     (if sbf_TeamID f = 0 \<or> sbf_Secret f = [] then (d, ResponseError ParamError)
      else if sbf_Secret f \<noteq> server_secret e then (d, ResponseError WrongSecret)
      else
        (case GetTeamByID d (sbf_TeamID f) of
           None \<Rightarrow> (d, ResponseError TeamNotFound)
         | Some team \<Rightarrow>
             (redis_SAdd (team_Update d (team\<lparr>t_Submit := True\<rparr>)) (Itoa (t_ID team)), ResponseSuccess ())))"

text \<open>The database after the old teams are dissolved and the new team is created.\<close>

abbreviation regroup_created :: "db \<Rightarrow> RegroupForm \<Rightarrow> person list \<Rightarrow> unix_time \<Rightarrow> db" where
  "regroup_created d f ps now \<equiv> team_Create (dissolve_loop d ps) (new_team f (hd ps) (length ps) now)"

declare RegroupForm_valid_def [eval_simps] reset_person_def [eval_simps] dissolve_def [eval_simps]
  zero_person_def [eval_simps] save_zero_captain_def [eval_simps]
  new_team_def [eval_simps] Regroup_def [eval_simps] SubmitTeam_def [eval_simps] joinable_def [eval_simps]

subsection \<open>The scan loop\<close>

lemma joinable_intros:
  "p_TeamId p = -1 \<Longrightarrow> joinable d p"
  "team_of_person d p = Some t \<Longrightarrow> t_Status t = 1 \<Longrightarrow> joinable d p"
  by (simp_all add: joinable_def)

lemma scan_loop_Cons_Some:
  assumes "scan_loop e d seen out acc (jwt # jwts) = (out', Some ps)"
  obtains p where "p \<in> set (people d)" "joinable d p" "p = scanned_person e d jwt"
    "scan_loop e d (jwt # seen) (if jwt \<in> set seen then out @ [ResponseError DuplicateScan] else out)
       (acc @ [p]) jwts = (out', Some ps)"
proof -
  let ?out = "if jwt \<in> set seen then out @ [ResponseError DuplicateScan] else out"
  have "\<exists>oid p. ParseToken e (drop 7 jwt) = Some oid \<and> GetPerson d oid = Some p \<and> joinable d p \<and>
          scan_loop e d (jwt # seen) ?out (acc @ [p]) jwts = (out', Some ps)"
    using assms by (auto simp: Let_def split: if_splits option.splits intro: joinable_intros)
  then obtain oid p where o: "ParseToken e (drop 7 jwt) = Some oid" and g: "GetPerson d oid = Some p"
    and j: "joinable d p" and sc: "scan_loop e d (jwt # seen) ?out (acc @ [p]) jwts = (out', Some ps)" by blast
  from o g have "p = scanned_person e d jwt" by (simp add: scanned_person_def)
  moreover from g have "p \<in> set (people d)" by (rule GetPerson_Some [THEN conjunct1])
  ultimately show ?thesis using j sc by (intro that)
qed

text \<open>A scan that goes through reads, in order, the person of each JWT.\<close>

lemma scan_loop_Some:
  "scan_loop e d seen out acc js = (out', Some ps) \<Longrightarrow>
   \<exists>qs. ps = acc @ qs \<and> qs = map (scanned_person e d) js \<and> (\<forall>q\<in>set qs. q \<in> set (people d) \<and> joinable d q)"
proof (induction js arbitrary: seen out acc)
  case Nil
  then show ?case by simp
next
  case (Cons jwt jwts)
  from Cons.prems obtain p where p: "p \<in> set (people d)" "joinable d p" "p = scanned_person e d jwt"
    and sc: "scan_loop e d (jwt # seen) (if jwt \<in> set seen then out @ [ResponseError DuplicateScan] else out)
               (acc @ [p]) jwts = (out', Some ps)"
    by (rule scan_loop_Cons_Some)
  from Cons.IH [OF sc] obtain qs where "ps = (acc @ [p]) @ qs" "qs = map (scanned_person e d) jwts"
    and "\<forall>q\<in>set qs. q \<in> set (people d) \<and> joinable d q" by blast
  with p show ?case by (intro exI [of _ "p # qs"]) auto
qed

lemma scan_loop_out_mono:
  "set out \<subseteq> set (fst (scan_loop e d seen out acc js))"
proof (induction js arbitrary: seen out acc)
  case Nil
  then show ?case by simp
next
  case (Cons jwt jwts)
  define o1 where "o1 = (if jwt \<in> set seen then out @ [ResponseError DuplicateScan] else out)"
  have o: "set out \<subseteq> set o1" by (auto simp: o1_def)
  have "set o1 \<subseteq> set (fst (scan_loop e d seen out acc (jwt # jwts)))"
    unfolding scan_loop.simps Let_def o1_def [symmetric]
    using Cons.IH [where seen = "jwt # seen" and out = o1] by (auto split: option.split)
  with o show ?case by blast
qed

lemma scan_loop_out_prefix:
  "scan_loop e d seen out acc js = (out', r) \<Longrightarrow> set out \<subseteq> set out'"
  using scan_loop_out_mono [of out e d seen acc js] by simp

text \<open>A JWT scanned a second time writes the duplicate-scan error, and the loop goes on.\<close>

lemma scan_loop_duplicate:
  "scan_loop e d seen out acc js = (out', Some ps) \<Longrightarrow> j \<in> set seen \<Longrightarrow> j \<in> set js \<Longrightarrow>
   ResponseError DuplicateScan \<in> set out'"
proof (induction js arbitrary: seen out acc)
  case Nil
  then show ?case by simp
next
  case (Cons jwt jwts)
  from Cons.prems(1) obtain p where
    sc: "scan_loop e d (jwt # seen) (if jwt \<in> set seen then out @ [ResponseError DuplicateScan] else out)
           (acc @ [p]) jwts = (out', Some ps)"
    by (rule scan_loop_Cons_Some)
  show ?case
  proof (cases "jwt = j")
    case True
    with Cons.prems(2) scan_loop_out_prefix [OF sc] show ?thesis by auto
  next
    case False
    with Cons.prems(2,3) show ?thesis by (intro Cons.IH [OF sc]) auto
  qed
qed

lemma scan_loop_no_success:
  "scan_loop e d seen out acc js = (out', r) \<Longrightarrow> ResponseSuccess n \<notin> set out \<Longrightarrow>
   ResponseSuccess n \<notin> set out'"
  by (induction e d seen out acc js rule: scan_loop.induct)
    (auto simp: Let_def split: if_splits option.splits)

subsection \<open>Dissolving the old teams\<close>

lemma user_Update_people: "people (user_Update d p) = upsert p_OpenId p (people d)"
  by (simp add: user_Update_def)

lemma user_Update_fold [simp]:
  "people (fold (\<lambda>p d. user_Update d (g p)) ms d) = fold (\<lambda>p. upsert p_OpenId (g p)) ms (people d)"
  "teams (fold (\<lambda>p d. user_Update d (g p)) ms d) = teams d"
  "next_team_id (fold (\<lambda>p d. user_Update d (g p)) ms d) = next_team_id d"
  "redis_teams (fold (\<lambda>p d. user_Update d (g p)) ms d) = redis_teams d"
  by (induction ms arbitrary: d) (simp_all add: user_Update_def)

lemma save_zero_captain_frame [simp]:
  "teams (save_zero_captain d) = teams d" "next_team_id (save_zero_captain d) = next_team_id d"
  "redis_teams (save_zero_captain d) = redis_teams d"
  by (simp_all add: save_zero_captain_def)

lemma save_zero_captain_people:
  "people (save_zero_captain d) =
     people d @ (if [] \<in> p_OpenId ` set (people d) then [] else [reset_person zero_person])"
  by (auto simp: save_zero_captain_def GetPerson_def lookup_key_None zero_person_def)

lemma dissolve_frame [simp]:
  "next_team_id (dissolve d tid) = next_team_id d"
  "redis_teams (dissolve d tid) = redis_teams d"
  by (simp_all add: dissolve_def GetPersonsInTeam_def Let_def team_Delete_def split: option.splits)

lemma dissolve_teams_keep:
  assumes "t \<in> set (teams d)" and "tid \<noteq> int (t_ID t)"
  shows "t \<in> set (teams (dissolve d tid))"
proof -
  have "t \<in> set (delete_key t_ID (t_ID u) (teams d))" if "GetTeamByID d (nat tid) = Some u" "0 \<le> tid" for u
    using that assms by (intro delete_key_keep) (auto dest: GetTeamByID_Some)
  with assms show ?thesis
    by (auto simp: dissolve_def GetPersonsInTeam_def Let_def team_Delete_def GetTeamByID_def
        split: option.splits)
qed

lemma reset_person_key [simp]: "p_OpenId (reset_person p) = p_OpenId p"
  by (simp add: reset_person_def)

lemma save_zero_captain_distinct:
  "distinct (map p_OpenId (people d)) \<Longrightarrow> distinct (map p_OpenId (people (save_zero_captain d)))"
  by (simp add: save_zero_captain_people zero_person_def reset_person_def)

lemma dissolve_distinct:
  "distinct (map p_OpenId (people d)) \<Longrightarrow> distinct (map p_OpenId (people (dissolve d tid)))"
  by (auto simp: dissolve_def GetPersonsInTeam_def Let_def team_Delete_def user_Update_people
      intro!: distinct_upsert distinct_fold_upsert save_zero_captain_distinct split: option.splits)

lemma dissolve_people_keep:
  assumes dist: "distinct (map p_OpenId (people d))" and p: "p \<in> set (people d)" and "p_TeamId p \<noteq> tid"
  shows "p \<in> set (people (dissolve d tid))"
proof -
  have other: "p_OpenId q \<noteq> p_OpenId p" if "q \<in> set (people d)" "p_TeamId q = tid" for q
    using that assms distinct_key_eq [OF dist] by metis
  let ?ms = "filter (\<lambda>q. p_TeamId q = tid \<and> p_Status q \<noteq> 2) (people d)"
  let ?cap = "find (\<lambda>q. p_TeamId q = tid \<and> p_Status q = 2) (people d)"
  have p1: "p \<in> set (fold (\<lambda>q. upsert p_OpenId (reset_person q)) ?ms (people d))"
    using p other by (intro fold_upsert_keep) auto
  have "p_OpenId c \<noteq> p_OpenId p" if "?cap = Some c" for c
    using that other by (auto simp: find_Some_iff nth_mem)
  with p1 show ?thesis
    by (auto simp: dissolve_def GetPersonsInTeam_def Let_def team_Delete_def user_Update_people
        save_zero_captain_people intro: upsert_keep split: option.splits)
qed

lemma dissolve_loop_frame [simp]:
  "next_team_id (dissolve_loop d ps) = next_team_id d"
  "redis_teams (dissolve_loop d ps) = redis_teams d"
  by (induction d ps rule: dissolve_loop.induct) simp_all

lemma dissolve_loop_distinct:
  "distinct (map p_OpenId (people d)) \<Longrightarrow> distinct (map p_OpenId (people (dissolve_loop d ps)))"
  by (induction d ps rule: dissolve_loop.induct) (simp_all add: dissolve_distinct)

lemma dissolve_loop_teams_keep:
  "t \<in> set (teams d) \<Longrightarrow> \<forall>q\<in>set ps. p_TeamId q \<noteq> int (t_ID t) \<Longrightarrow>
   t \<in> set (teams (dissolve_loop d ps))"
  by (induction d ps rule: dissolve_loop.induct) (simp_all add: dissolve_teams_keep)

lemma dissolve_loop_people_keep:
  "distinct (map p_OpenId (people d)) \<Longrightarrow> p \<in> set (people d) \<Longrightarrow>
   \<forall>q\<in>set ps. p_TeamId q \<noteq> p_TeamId p \<Longrightarrow> p \<in> set (people (dissolve_loop d ps))"
  by (induction d ps rule: dissolve_loop.induct) (simp_all add: dissolve_people_keep dissolve_distinct)

subsection \<open>The new members\<close>

lemma assign_loop_frame [simp]:
  "teams (assign_loop d tid i ps) = teams d"
  "next_team_id (assign_loop d tid i ps) = next_team_id d"
  "redis_teams (assign_loop d tid i ps) = redis_teams d"
  by (induction d tid i ps rule: assign_loop.induct) simp_all

lemma assign_loop_people_keep:
  "p \<in> set (people d) \<Longrightarrow> \<forall>q\<in>set ps. p_OpenId q \<noteq> p_OpenId p \<Longrightarrow>
   p \<in> set (people (assign_loop d tid i ps))"
  by (induction d tid i ps rule: assign_loop.induct) (simp_all add: user_Update_def upsert_keep)

lemma assign_loop_other:
  "k \<notin> p_OpenId ` set ps \<Longrightarrow> GetPerson (assign_loop d tid i ps) k = GetPerson d k"
  by (induction d tid i ps rule: assign_loop.induct) (auto simp: GetPerson_def user_Update_def lookup_key_upsert)

text \<open>
  Every person of the loop ends with the new team id, the role the loop gave
  the last copy of it, and otherwise the fields of the copy.
\<close>

lemma assign_loop_row:
  "inj_on p_OpenId (set ps) \<Longrightarrow> q \<in> set ps \<Longrightarrow>
   \<exists>st. (st = 1 \<or> st = 2) \<and>
     GetPerson (assign_loop d tid i ps) (p_OpenId q) = Some (q\<lparr>p_TeamId := int tid, p_Status := st\<rparr>)"
proof (induction d tid i ps rule: assign_loop.induct)
  case (1 d tid i)
  then show ?case by simp
next
  case (2 d tid i p ps)
  show ?case
  proof (cases "q \<in> set ps")
    case True
    have "inj_on p_OpenId (set ps)" using "2.prems" by (auto intro: inj_on_subset)
    with True "2.IH" show ?thesis by simp
  next
    case False
    with "2.prems" have qp: "q = p" and nk: "p_OpenId q \<notin> p_OpenId ` set ps" by auto
    let ?p' = "p\<lparr>p_TeamId := int tid, p_Status := if i = 0 then 2 else 1\<rparr>"
    have "GetPerson (assign_loop d tid i (p # ps)) (p_OpenId q) = Some ?p'"
      using assign_loop_other [OF nk, of "user_Update d ?p'" tid "Suc i"] qp
      by (simp add: GetPerson_def user_Update_def lookup_key_upsert)
    with qp show ?thesis by (intro exI [of _ "if i = 0 then 2 else 1"]) simp
  qed
qed

text \<open>
  A person the loop meets again after the first position ends as an ordinary
  member (role 1), whatever role an earlier copy got.
\<close>

lemma assign_loop_later:
  "0 < i \<Longrightarrow> q \<in> set ps \<Longrightarrow> \<forall>x\<in>set ps. p_OpenId x = p_OpenId q \<longrightarrow> x = q \<Longrightarrow>
   GetPerson (assign_loop d tid i ps) (p_OpenId q) = Some (q\<lparr>p_TeamId := int tid, p_Status := 1\<rparr>)"
proof (induction d tid i ps rule: assign_loop.induct)
  case (1 d tid i)
  then show ?case by simp
next
  case (2 d tid i p ps)
  show ?case
  proof (cases "q \<in> set ps")
    case True
    have "\<forall>x\<in>set ps. p_OpenId x = p_OpenId q \<longrightarrow> x = q" using "2.prems"(3) by simp
    from "2.IH" [OF _ True this] show ?thesis by simp
  next
    case False
    with "2.prems" have qp: "q = p" and nk: "p_OpenId q \<notin> p_OpenId ` set ps" by auto
    let ?p' = "p\<lparr>p_TeamId := int tid, p_Status := if i = 0 then 2 else 1\<rparr>"
    show ?thesis
      using assign_loop_other [OF nk, of "user_Update d ?p'" tid "Suc i"] qp "2.prems"(1)
      by (simp add: GetPerson_def user_Update_def lookup_key_upsert)
  qed
qed

subsection \<open>The handler\<close>

text \<open>
  The outcomes of \<open>Regroup\<close>: the database unchanged with no success written;
  the old teams dissolved and the new team created but no team found by its
  captain; or success, where the response carries \<open>newTeam.ID\<close>.
\<close>

lemma Regroup_cases:
  assumes "Regroup e d f now = (d', rs)"
  obtains (unchanged) "d' = d" "\<forall>n. ResponseSuccess n \<notin> set rs"
  | (created) js out ps where "rf_Jwts f = Some js" "scan_loop e d [] [] [] js = (out, Some ps)"
      "ps \<noteq> []" "d' = regroup_created d f ps now" "\<forall>n. ResponseSuccess n \<notin> set rs"
      "GetTeamByCaptain (regroup_created d f ps now) (p_OpenId (hd ps)) = None"
  | (ok) js out ps t where "rf_Jwts f = Some js" "scan_loop e d [] [] [] js = (out, Some ps)"
      "ps \<noteq> []" "GetTeamByCaptain (regroup_created d f ps now) (p_OpenId (hd ps)) = Some t"
      "d' = redis_SAdd (assign_loop (regroup_created d f ps now) (t_ID t) 0 ps) (Itoa 0)"
      "rs = out @ [ResponseSuccess 0]" "\<forall>n. ResponseSuccess n \<notin> set out"
proof (cases "RegroupForm_valid f \<and> rf_Secret f = server_secret e")
  case False
  with assms have "d' = d" "\<forall>n. ResponseSuccess n \<notin> set rs"
    by (auto simp: Regroup_def split: if_split_asm)
  then show ?thesis by (rule unchanged)
next
  case True
  then obtain js where js: "rf_Jwts f = Some js" by (auto simp: RegroupForm_valid_def)
  obtain out r where sc: "scan_loop e d [] [] [] js = (out, r)" by fastforce
  have out: "\<forall>n. ResponseSuccess n \<notin> set out"
    using scan_loop_no_success [OF sc] by simp
  have R: "Regroup e d f now =
     (case r of None \<Rightarrow> (d, out)
      | Some ps \<Rightarrow> (case ps of [] \<Rightarrow> (dissolve_loop d ps, out @ [Panic])
          | p0 # _ \<Rightarrow> (case GetTeamByCaptain (regroup_created d f ps now) (p_OpenId p0) of
               None \<Rightarrow> (regroup_created d f ps now, out @ [ResponseError ServiceError])
             | Some t \<Rightarrow> (redis_SAdd (assign_loop (regroup_created d f ps now) (t_ID t) 0 ps) (Itoa 0),
                          out @ [ResponseSuccess 0]))))"
    using True js sc by (simp add: Regroup_def new_team_def Let_def split: option.splits list.splits)
  show ?thesis
  proof (cases r)
    case None
    with assms R out show ?thesis by (intro unchanged) auto
  next
    case (Some ps)
    show ?thesis
    proof (cases ps)
      case Nil
      with assms R out Some show ?thesis by (intro unchanged) auto
    next
      case (Cons p0 ps')
      show ?thesis
      proof (cases "GetTeamByCaptain (regroup_created d f ps now) (p_OpenId p0)")
        case None
        with assms R out Some Cons show ?thesis by (intro created [OF js]) (auto simp: sc)
      next
        case (Some t)
        with assms R out \<open>r = Some ps\<close> Cons show ?thesis by (intro ok [OF js]) (auto simp: sc)
      qed
    qed
  qed
qed

text \<open>A scanned person is not a member of a started team.\<close>

lemma joinable_not_started:
  assumes "db_wf d" and "joinable d q" and "t \<in> set (teams d)" and "t_Status t \<noteq> 1"
  shows "p_TeamId q \<noteq> int (t_ID t)"
proof
  assume eq: "p_TeamId q = int (t_ID t)"
  with assms(1,3) have "team_of_person d q = Some t"
    by (simp add: team_of_person_def GetTeamByID_in)
  with assms(2,4) eq show False by (simp add: joinable_def)
qed

text \<open>C11: Regroup never deletes or changes a team that has started, nor any row of its members.\<close>

theorem Regroup_keeps_started_teams:
  assumes "db_wf d" and "t \<in> set (teams d)" and "t_Status t \<noteq> 1"
  shows "t \<in> set (teams (fst (Regroup e d f now))) \<and>
    (\<forall>p\<in>set (people d). p_TeamId p = int (t_ID t) \<longrightarrow> p \<in> set (people (fst (Regroup e d f now))))"
proof -
  have dist: "distinct (map p_OpenId (people d))" using assms(1) by (simp add: db_wf_def)
  have keep: "t \<in> set (teams (regroup_created d f ps now)) \<and>
      (\<forall>p\<in>set (people d). p_TeamId p = int (t_ID t) \<longrightarrow> p \<in> set (people (regroup_created d f ps now)))"
    if scanned: "\<forall>q\<in>set ps. q \<in> set (people d) \<and> joinable d q" for ps
  proof -
    have other: "\<forall>q\<in>set ps. p_TeamId q \<noteq> int (t_ID t)"
      using scanned assms joinable_not_started by blast
    then show ?thesis
      using assms(2) dist by (simp add: team_Create_def dissolve_loop_teams_keep dissolve_loop_people_keep)
  qed
  obtain d' rs where R: "Regroup e d f now = (d', rs)" by fastforce
  then show ?thesis
  proof (cases rule: Regroup_cases)
    case unchanged
    with R assms(2) show ?thesis by simp
  next
    case (created js out ps)
    from scan_loop_Some [OF created(2)]
    have "\<forall>q\<in>set ps. q \<in> set (people d) \<and> joinable d q" by auto
    with R created keep show ?thesis by simp
  next
    case (ok js out ps t')
    from scan_loop_Some [OF ok(2)]
    have scanned: "\<forall>q\<in>set ps. q \<in> set (people d) \<and> joinable d q" by auto
    have "p_OpenId q \<noteq> p_OpenId p"
      if "q \<in> set ps" "p \<in> set (people d)" "p_TeamId p = int (t_ID t)" for p q
      using that scanned assms joinable_not_started distinct_key_eq [OF dist] by metis
    with R ok keep [OF scanned] show ?thesis
      by (auto simp: redis_SAdd_def intro!: assign_loop_people_keep)
  qed
qed

text \<open>
  C12: when Regroup reports success, the team id it reports is 0 and the id
  added to Redis is "0"; the JWT list is not empty, a team of the table has the
  person of the first JWT as captain, and the person of every JWT was, before
  the call, a row with no team or with a team that had not started, and now has
  that team's id and role 1 or 2, with every other field as read before the old
  teams were dissolved: in particular its walk status is the old one, not the
  reset 1.
\<close>

theorem Regroup_success:
  assumes "db_wf d" and "Regroup e d f now = (d', rs)" and "ResponseSuccess n \<in> set rs"
  shows "n = 0 \<and> ''0'' \<in> set (redis_teams d') \<and>
    (\<exists>js t. rf_Jwts f = Some js \<and> js \<noteq> [] \<and> t \<in> set (teams d') \<and>
       t_Captain t = p_OpenId (scanned_person e d (hd js)) \<and>
       (\<forall>j\<in>set js. scanned_person e d j \<in> set (people d) \<and> joinable d (scanned_person e d j) \<and>
          (\<exists>st. (st = 1 \<or> st = 2) \<and>
             GetPerson d' (p_OpenId (scanned_person e d j)) =
               Some ((scanned_person e d j)\<lparr>p_TeamId := int (t_ID t), p_Status := st\<rparr>))))"
  using assms(2)
proof (cases rule: Regroup_cases)
  case unchanged
  with assms(3) show ?thesis by simp
next
  case (created js out ps)
  with assms(3) show ?thesis by simp
next
  case (ok js out ps t)
  from scan_loop_Some [OF ok(2)]
  have ps: "ps = map (scanned_person e d) js" and scanned: "\<forall>q\<in>set ps. q \<in> set (people d) \<and> joinable d q"
    by auto
  have js: "js \<noteq> []" using ok(3) ps by auto
  have dist: "distinct (map p_OpenId (people d))" using assms(1) by (simp add: db_wf_def)
  have "inj_on p_OpenId (set ps)"
  proof (rule inj_onI)
    fix x y assume "x \<in> set ps" "y \<in> set ps" "p_OpenId x = p_OpenId y"
    with scanned show "x = y" using distinct_key_eq [OF dist] by blast
  qed
  then have rows: "\<exists>st. (st = 1 \<or> st = 2) \<and>
      GetPerson d' (p_OpenId q) = Some (q\<lparr>p_TeamId := int (t_ID t), p_Status := st\<rparr>)" if "q \<in> set ps" for q
    using assign_loop_row [OF _ that] ok(5) by (simp add: redis_SAdd_def GetPerson_def)
  have "t \<in> set (teams d') \<and> t_Captain t = p_OpenId (hd ps)"
    using ok(4,5) by (auto simp: GetTeamByCaptain_def redis_SAdd_def find_Some_iff nth_mem)
  moreover have "hd ps = scanned_person e d (hd js)" using ps js by (simp add: hd_map)
  moreover have "n = 0" using ok(6,7) assms(3) by auto
  moreover have "''0'' \<in> set (redis_teams d')" using ok(5) by (simp add: redis_SAdd_def Itoa_0)
  moreover have "\<forall>j\<in>set js. scanned_person e d j \<in> set ps" using ps by simp
  ultimately show ?thesis using ok(1) js scanned rows by fastforce
qed

text \<open>
  C13: the missing return after a duplicate scan. When the first JWT is scanned
  again later in the list and Regroup succeeds, the duplicate-scan error is
  written, yet the person is saved a second time, as an ordinary member: the
  captain of the new team ends with role 1, not the captain's 2.
\<close>

theorem Regroup_duplicate_captain:
  assumes "db_wf d" and "rf_Jwts f = Some (j # js)" and "j \<in> set js"
    and "Regroup e d f now = (d', rs)" and "ResponseSuccess n \<in> set rs"
  shows "ResponseError DuplicateScan \<in> set rs \<and>
    map_option p_Status (GetPerson d' (p_OpenId (scanned_person e d j))) = Some 1"
  using assms(4)
proof (cases rule: Regroup_cases)
  case unchanged
  with assms(5) show ?thesis by simp
next
  case (created js' out ps)
  with assms(5) show ?thesis by simp
next
  case (ok js' out ps t)
  from ok(1) assms(2) have js': "js' = j # js" by simp
  from ok(2) obtain p where pd: "p \<in> set (people d)" and p: "p = scanned_person e d j"
    and sc: "scan_loop e d [j] [] [p] js = (out, Some ps)"
    unfolding js' by (rule scan_loop_Cons_Some) simp
  have "ResponseError DuplicateScan \<in> set out" using scan_loop_duplicate [OF sc _ assms(3)] by simp
  then have dup: "ResponseError DuplicateScan \<in> set rs" using ok(6) by simp
  from scan_loop_Some [OF sc] pd have ps: "ps = p # map (scanned_person e d) js"
    and scanned: "\<forall>q\<in>set ps. q \<in> set (people d)" by auto
  have dist: "distinct (map p_OpenId (people d))" using assms(1) by (simp add: db_wf_def)
  have uniq: "\<forall>x\<in>set (map (scanned_person e d) js). p_OpenId x = p_OpenId p \<longrightarrow> x = p"
    using scanned distinct_key_eq [OF dist] unfolding ps by auto
  have "p \<in> set (map (scanned_person e d) js)" using assms(3) p by simp
  from assign_loop_later [OF _ this uniq, of 1 "user_Update (regroup_created d f ps now)
      (p\<lparr>p_TeamId := int (t_ID t), p_Status := 2\<rparr>)" "t_ID t"]
  have "GetPerson d' (p_OpenId p) = Some (p\<lparr>p_TeamId := int (t_ID t), p_Status := 1\<rparr>)"
    using ok(5) unfolding ps by (simp add: redis_SAdd_def GetPerson_def)
  with dup p show ?thesis by simp
qed

text \<open>
  C14: with an empty (but present) list of JWTs the handler indexes
  \<open>persons[0]\<close> of an empty slice: it panics, with the database unchanged.
\<close>

theorem Regroup_empty_panics:
  assumes "RegroupForm_valid f" and "rf_Secret f = server_secret e" and "rf_Jwts f = Some []"
  shows "Regroup e d f now = (d, [Panic])"
  using assms by (simp add: Regroup_def)

text \<open>
  C15: a successful submission marks the team submitted and adds to Redis a
  string that \<open>strconv.ParseUint(s, 10, 32)\<close> reads back as the team's id, for
  every id below \<open>2^32\<close>.
\<close>

theorem SubmitTeam_success:
  assumes "SubmitTeam e d f = (d', ResponseSuccess ())" and "sbf_TeamID f < 2 ^ 32"
  shows "\<exists>t. GetTeamByID d (sbf_TeamID f) = Some t \<and>
    GetTeamByID d' (sbf_TeamID f) = Some (t\<lparr>t_Submit := True\<rparr>) \<and>
    (\<exists>s\<in>set (redis_teams d'). ParseUint32 s = Some (sbf_TeamID f))"
proof -
  from assms(1) obtain t where t: "GetTeamByID d (sbf_TeamID f) = Some t"
    and d': "d' = redis_SAdd (team_Update d (t\<lparr>t_Submit := True\<rparr>)) (Itoa (t_ID t))"
    by (auto simp: SubmitTeam_def split: if_splits option.splits)
  from t have "t_ID t = sbf_TeamID f" by (simp add: GetTeamByID_Some)
  with t d' assms(2) show ?thesis
    by (auto simp: redis_SAdd_def ParseUint32_Itoa GetTeamByID_def team_Update_def lookup_key_upsert)
qed

subsection \<open>Witnesses\<close>

theorem Regroup_keeps_started_teams_witness:
  "sample_team 2 2 3 2 \<in> set (teams (fst (Regroup sample_env demo_db
     \<lparr>rf_Jwts = Some [''Bearer e'', ''Bearer f''], rf_Secret = ''secret'', rf_Route = 5\<rparr> 0)))"
proof -
  have "sample_team 2 2 3 2 \<in> set (teams demo_db)" "t_Status (sample_team 2 2 3 2) \<noteq> 1"
    by (simp_all add: eval_simps)
  from Regroup_keeps_started_teams [OF demo_db_wf this] show ?thesis by simp
qed

theorem Regroup_success_witness:
  "ResponseSuccess 0 \<in> set (snd (Regroup sample_env demo_db
      \<lparr>rf_Jwts = Some [''Bearer e'', ''Bearer f''], rf_Secret = ''secret'', rf_Route = 5\<rparr> 0)) \<and>
   ''0'' \<in> set (redis_teams (fst (Regroup sample_env demo_db
      \<lparr>rf_Jwts = Some [''Bearer e'', ''Bearer f''], rf_Secret = ''secret'', rf_Route = 5\<rparr> 0)))"
proof -
  have h: "ResponseSuccess 0 \<in> set (snd (Regroup sample_env demo_db
      \<lparr>rf_Jwts = Some [''Bearer e'', ''Bearer f''], rf_Secret = ''secret'', rf_Route = 5\<rparr> 0))"
    by (simp add: eval_simps)
  from Regroup_success [OF demo_db_wf surjective_pairing h] h show ?thesis by blast
qed

theorem Regroup_duplicate_captain_witness:
  "ResponseError DuplicateScan \<in> set (snd (Regroup sample_env demo_db
      \<lparr>rf_Jwts = Some [''Bearer f'', ''Bearer f''], rf_Secret = ''secret'', rf_Route = 5\<rparr> 0)) \<and>
   map_option p_Status (GetPerson (fst (Regroup sample_env demo_db
      \<lparr>rf_Jwts = Some [''Bearer f'', ''Bearer f''], rf_Secret = ''secret'', rf_Route = 5\<rparr> 0)) ''f'') = Some 1"
proof -
  have h: "ResponseSuccess 0 \<in> set (snd (Regroup sample_env demo_db
      \<lparr>rf_Jwts = Some [''Bearer f'', ''Bearer f''], rf_Secret = ''secret'', rf_Route = 5\<rparr> 0))"
    by (simp add: eval_simps)
  have k: "p_OpenId (scanned_person sample_env demo_db ''Bearer f'') = ''f''"
    by (simp add: scanned_person_def eval_simps)
  from Regroup_duplicate_captain [OF demo_db_wf _ _ surjective_pairing h, of "''Bearer f''" "[''Bearer f'']"]
  show ?thesis unfolding k by simp
qed

theorem Regroup_empty_panics_witness:
  "Regroup sample_env demo_db \<lparr>rf_Jwts = Some [], rf_Secret = ''secret'', rf_Route = 5\<rparr> 0 = (demo_db, [Panic])"
  by (rule Regroup_empty_panics) (simp_all add: eval_simps)

theorem SubmitTeam_success_witness:
  "\<exists>s\<in>set (redis_teams (fst (SubmitTeam sample_env demo_db \<lparr>sbf_TeamID = 3, sbf_Secret = ''secret''\<rparr>))).
     ParseUint32 s = Some 3"
proof -
  have "snd (SubmitTeam sample_env demo_db \<lparr>sbf_TeamID = 3, sbf_Secret = ''secret''\<rparr>) = ResponseSuccess ()"
    by (simp add: eval_simps)
  then have eq: "SubmitTeam sample_env demo_db \<lparr>sbf_TeamID = 3, sbf_Secret = ''secret''\<rparr> =
      (fst (SubmitTeam sample_env demo_db \<lparr>sbf_TeamID = 3, sbf_Secret = ''secret''\<rparr>), ResponseSuccess ())"
    by (metis surjective_pairing)
  have "sbf_TeamID \<lparr>sbf_TeamID = 3, sbf_Secret = ''secret''\<rparr> < 2 ^ 32" by simp
  from SubmitTeam_success [OF eq this] show ?thesis by auto
qed

end
