(* ===== verification/Register.thy ===== *)
theory Register
  imports Model
begin

text \<open>
  Student registration (src/controller/register/student_register.go). The
  identity service (\<open>oauth.GetUserInfo\<close> of the WeJH SDK) is outside the
  repository: its answer is an input of the handler, the user's information or
  one of its errors. \<open>Authorization\<close> is the request header.
\<close>

record Contact =
  ct_QQ :: string
  ct_Wechat :: string
  ct_Tel :: string

record StudentRegisterData =
  sr_Name :: string
  sr_StuID :: string
  sr_Password :: string
  sr_ID :: string
  sr_Campus :: uint8
  sr_Contact :: Contact

text \<open>The \<open>binding:"required"\<close> tags (on a struct, \<open>required\<close> always holds).\<close>

definition StudentRegisterData_valid :: "StudentRegisterData \<Rightarrow> bool" where
  "StudentRegisterData_valid f \<longleftrightarrow>
     sr_Name f \<noteq> [] \<and> sr_StuID f \<noteq> [] \<and> sr_Password f \<noteq> [] \<and> sr_ID f \<noteq> [] \<and> sr_Campus f \<noteq> 0 \<and>
     ct_Tel (sr_Contact f) \<noteq> []"

text \<open>The errors of \<open>oauthException\<close>, and the answers of the identity service.\<close>

datatype oauth_error = WrongAccount | WrongPassword | ClosedError | NotActivatedError | OtherOauthError

datatype oauth_result =
    OauthInfo (info_Gender: string) (info_College: string)
  | OauthError oauth_error
  | OauthFailure   \<comment> \<open>an error that is not an \<open>oauthException.Error\<close>\<close>

text \<open>The error chain of lines 50 to 63, with its repeated test of \<open>WrongAccount\<close>.\<close>

definition oauth_msg :: "oauth_error \<Rightarrow> msg" where
  "oauth_msg err =
     (if err = WrongAccount \<or> err = WrongAccount then WrongAccountMsg
      else if err = ClosedError then ClosedAtNight
      else if err = NotActivatedError then NotActivated
      else SystemError)"

text \<open>
  \<open>global.DB.Where("identity = ? Or tel = ?", ...).Take(&user)\<close> finds a row:
  the person is already registered.
\<close>

definition registered :: "db \<Rightarrow> StudentRegisterData \<Rightarrow> bool" where
  "registered d f \<longleftrightarrow>
     find (\<lambda>p. p_Identity p = sr_ID f \<or> p_Tel p = ct_Tel (sr_Contact f)) (people d) \<noteq> None"

definition new_person :: "openid \<Rightarrow> StudentRegisterData \<Rightarrow> string \<Rightarrow> string \<Rightarrow> person" where
  "new_person oid f gender college =
     \<lparr>p_OpenId = oid, p_Name = sr_Name f, p_Gender = (if gender = ''male'' then 1 else 2),
      p_StuId = sr_StuID f, p_Campus = sr_Campus f, p_Identity = sr_ID f, p_Status = 0,
      p_Qq = ct_QQ (sr_Contact f), p_Wechat = ct_Wechat (sr_Contact f), p_College = college,
      p_Tel = ct_Tel (sr_Contact f), p_CreatedOp = 2, p_JoinOp = 5, p_TeamId = -1, p_WalkStatus = 1,
      p_Type = 1\<rparr>"

text \<open>
  \<open>global.DB.Create(&person)\<close>: the row and the number of rows inserted; an
  insert whose primary key \<open>OpenId\<close> is taken fails and inserts nothing.
\<close>

definition person_Create :: "db \<Rightarrow> person \<Rightarrow> db \<times> nat" where
  "person_Create d p =
     (if GetPerson d (p_OpenId p) \<noteq> None then (d, 0) else (d\<lparr>people := people d @ [p]\<rparr>, 1))"

text \<open>
  The handler. \<open>GetHeader("Authorization")[7:]\<close> panics on a header shorter
  than 7 bytes; the error of \<open>ParseToken\<close> is discarded, so a token that does not
  parse leaves \<open>jwtData\<close> nil and the handler panics where it reads its
  \<open>OpenID\<close>, after the other checks.
\<close>

definition StudentRegister ::
  "env \<Rightarrow> db \<Rightarrow> string \<Rightarrow> StudentRegisterData \<Rightarrow> oauth_result \<Rightarrow> db \<times> unit response" where
  "StudentRegister e d auth f oauth =
     (if length auth < 7 then (d, Panic)
      else if \<not> StudentRegisterData_valid f then (d, ResponseError UploadDataError)
      else if registered d f then (d, ResponseError AlreadyRegistered)
      else
        (case oauth of
           OauthError err \<Rightarrow> (d, ResponseError (oauth_msg err))
         | OauthFailure \<Rightarrow> (d, ResponseError SystemError)
         | OauthInfo gender college \<Rightarrow>
             (case ParseToken e (drop 7 auth) of
                None \<Rightarrow> (d, Panic)
              | Some oid \<Rightarrow>
                  (case person_Create d (new_person oid f gender college) of
                     (d', n) \<Rightarrow> if n = 0 then (d', ResponseError RegisterFailed) else (d', ResponseSuccess ())))))"

text \<open>A complete form for the examples.\<close>

definition sample_register_form :: StudentRegisterData where
  "sample_register_form =
     \<lparr>sr_Name = ''n'', sr_StuID = ''s'', sr_Password = ''p'', sr_ID = ''id'', sr_Campus = 1,
      sr_Contact = \<lparr>ct_QQ = [], ct_Wechat = [], ct_Tel = ''t''\<rparr>\<rparr>"

declare sample_register_form_def [eval_simps] StudentRegisterData_valid_def [eval_simps] oauth_msg_def [eval_simps] registered_def [eval_simps]
  new_person_def [eval_simps] person_Create_def [eval_simps] StudentRegister_def [eval_simps]

subsection \<open>Lemmas\<close>

lemma new_person_key [simp]: "p_OpenId (new_person oid f g c) = oid"
  by (simp add: new_person_def)

text \<open>The database after a registration: unchanged, or one new row under a free open id.\<close>

lemma StudentRegister_outcome:
  "fst (StudentRegister e d auth f oauth) = d \<or>
   (\<exists>oid g c. GetPerson d oid = None \<and>
      fst (StudentRegister e d auth f oauth) = d\<lparr>people := people d @ [new_person oid f g c]\<rparr>)"
  by (auto simp: StudentRegister_def person_Create_def split: oauth_result.splits option.splits)

lemma new_person_wf:
  "db_wf d \<Longrightarrow> GetPerson d oid = None \<Longrightarrow> db_wf (d\<lparr>people := people d @ [new_person oid f g c]\<rparr>)"
  by (auto simp: db_wf_def new_person_def GetPerson_def lookup_key_None)

subsection \<open>Properties\<close>

text \<open>
  C23: the identity service's \<open>WrongPassword\<close> error is never reported as a wrong
  account or password: the chain tests \<open>WrongAccount\<close> twice, so a wrong
  password falls through to "system error". Of the service's errors, exactly
  \<open>WrongAccount\<close> gives the wrong-account message.
\<close>

theorem StudentRegister_wrong_password:
  assumes "7 \<le> length auth" and "StudentRegisterData_valid f" and "\<not> registered d f"
  shows "StudentRegister e d auth f (OauthError err) = (d, ResponseError (oauth_msg err)) \<and>
    (oauth_msg err = WrongAccountMsg \<longleftrightarrow> err = WrongAccount) \<and> oauth_msg WrongPassword = SystemError"
  using assms by (cases err) (simp_all add: StudentRegister_def oauth_msg_def)

text \<open>
  C24: registration keeps the database well formed: the new row has no team and
  an open id not in the table.
\<close>

theorem StudentRegister_wf:
  assumes "db_wf d"
  shows "db_wf (fst (StudentRegister e d auth f oauth))"
  using StudentRegister_outcome [of e d auth f oauth] assms new_person_wf by metis

text \<open>
  C25: registration succeeds exactly when the header is long enough, the form
  is complete, no person has the identity number or the phone number, the
  identity service returns the user's information, the token parses and its
  open id is not registered; it then adds one row, with no team and walk status
  1. An open id registered under another identity and phone number is not caught
  by the duplicate check and gets "registration failed".
\<close>

theorem StudentRegister_success:
  "snd (StudentRegister e d auth f oauth) = ResponseSuccess () \<longleftrightarrow>
     7 \<le> length auth \<and> StudentRegisterData_valid f \<and> \<not> registered d f \<and>
     (\<exists>g c oid. oauth = OauthInfo g c \<and> ParseToken e (drop 7 auth) = Some oid \<and> GetPerson d oid = None \<and>
        fst (StudentRegister e d auth f oauth) = d\<lparr>people := people d @ [new_person oid f g c]\<rparr>)"
  by (auto simp: StudentRegister_def person_Create_def split: oauth_result.splits option.splits)

subsection \<open>Witnesses\<close>

theorem StudentRegister_wrong_password_witness:
  "StudentRegister sample_env (sample_db [] []) ''Bearer g'' sample_register_form (OauthError WrongPassword) =
   (sample_db [] [], ResponseError SystemError)"
proof -
  have "7 \<le> length ''Bearer g''" "StudentRegisterData_valid sample_register_form"
    "\<not> registered (sample_db [] []) sample_register_form"
    by (simp_all add: eval_simps)
  from StudentRegister_wrong_password [OF this, of sample_env WrongPassword] show ?thesis
    by (simp add: oauth_msg_def)
qed

theorem StudentRegister_wf_witness:
  "db_wf (fst (StudentRegister sample_env (sample_db [] []) ''Bearer g'' sample_register_form
     (OauthInfo ''male'' ''cs'')))"
proof -
  have "db_wf (sample_db [] [])" by (simp add: db_wf_def sample_db_def)
  then show ?thesis by (rule StudentRegister_wf)
qed

theorem StudentRegister_success_witness:
  "snd (StudentRegister sample_env (sample_db [] []) ''Bearer g'' sample_register_form (OauthInfo ''male'' ''cs'')) =
   ResponseSuccess ()"
  by (rule StudentRegister_success [THEN iffD2]) (simp add: eval_simps)

end
