(* ===== verification/Admin.thy ===== *)
theory Admin
  imports Model
begin

text \<open>
  The bulk creation of route admins (src/controller/admin/admin.go): the handler
  \<open>CreateRouteAdmin\<close>, its closure \<open>processData\<close> and the password generator
  \<open>generateRandomString\<close>. The bytes \<open>crypto/rand.Read\<close> returns are an input: a
  source that gives, for the \<open>k\<close>-th call, either a read error or the bytes read.
\<close>

record Data =
  dt_Name :: string
  dt_Account :: string

record CreateRouteAdminData =
  cr_ZH :: "Data list list"
  cr_PFHalf :: "Data list list"
  cr_PFAll :: "Data list list"
  cr_MGSHalf :: "Data list list"
  cr_MGSAll :: "Data list list"
  cr_Secret :: string

definition letterBytes :: string where
  "letterBytes = ''abcdefghijklmnopqrstuvwxyzABCDEFGHIJKLMNOPQRSTUVWXYZ0123456789''"

text \<open>The random source: whether the \<open>k\<close>-th read fails, and byte \<open>j\<close> of the \<open>k\<close>-th read.\<close>

record rand_source =
  rand_fails :: "nat \<Rightarrow> bool"
  rand_bytes :: "nat \<Rightarrow> nat \<Rightarrow> uint8"

text \<open>
  \<open>generateRandomString n\<close> as the \<open>k\<close>-th read: each byte \<open>b\<close> becomes
  \<open>letterBytes[b % byte(len(letterBytes))]\<close>, with \<open>%\<close> on \<open>byte\<close>.
\<close>

definition byte_letter :: "uint8 \<Rightarrow> char" where
  "byte_letter b = letterBytes ! unat (b mod word_of_nat (length letterBytes))"

definition generateRandomString :: "rand_source \<Rightarrow> nat \<Rightarrow> nat \<Rightarrow> msg + string" where
  "generateRandomString r k n =
     (if rand_fails r k then Inl PasswordGenError else Inr (map (\<lambda>j. byte_letter (rand_bytes r k j)) [0..<n]))"

definition generateRandomPassword :: "rand_source \<Rightarrow> nat \<Rightarrow> msg + string" where
  "generateRandomPassword r k = generateRandomString r k 6"

text \<open>
  The inner loop of \<open>processData\<close> over \<open>data[i]\<close>, from column \<open>j\<close>, with the
  number \<open>k\<close> of reads made so far. It returns the reads made, the admins, and
  \<open>False\<close> when a read failed: the closure then writes an error and returns.
\<close>

fun process_row :: "rand_source \<Rightarrow> int8 \<Rightarrow> nat \<Rightarrow> Data list \<Rightarrow> nat \<Rightarrow> admin list \<Rightarrow>
    nat \<times> admin list \<times> bool" where
  "process_row r point j [] k acc = (k, acc, True)"
| "process_row r point j (x # xs) k acc =
     (case generateRandomPassword r k of
        Inl _ \<Rightarrow> (Suc k, acc, False)
      | Inr pwd \<Rightarrow>
          process_row r point (Suc j) xs (Suc k)
            (acc @ [\<lparr>a_ID = 0, a_Name = dt_Name x, a_Account = dt_Account x, a_Password = pwd,
                     a_Point = point, a_Route = word_of_nat j\<rparr>]))"

fun process_rows :: "rand_source \<Rightarrow> int8 \<Rightarrow> Data list list \<Rightarrow> nat \<Rightarrow> admin list \<Rightarrow>
    nat \<times> admin list \<times> bool" where
  "process_rows r point [] k acc = (k, acc, True)"
| "process_rows r point (row # rows) k acc =
     (case process_row r point 0 row k acc of
        (k', acc', True) \<Rightarrow> process_rows r point rows k' acc'
      | res \<Rightarrow> res)"

text \<open>
  The two loops of \<open>processData\<close> as the code writes them, over indices:
  \<open>for i := 0; i < len(data); i++ { for j := 0; j < len(data[i]); j++ { ... } }\<close>,
  the \<open>return\<close> after a failed read leaving both. The recursion is not on a
  list, so it is a partial function: \<open>None\<close> would be a loop that never ends.
\<close>

partial_function (option) processData_loop ::
  "rand_source \<Rightarrow> int8 \<Rightarrow> Data list list \<Rightarrow> nat \<Rightarrow> nat \<Rightarrow> nat \<Rightarrow> admin list \<Rightarrow>
   (nat \<times> admin list \<times> bool) option" where
  "processData_loop r point data i j k acc =
     (if i < length data then
        if j < length (data ! i) then
          (case generateRandomPassword r k of
             Inl _ \<Rightarrow> Some (Suc k, acc, False)
           | Inr pwd \<Rightarrow>
               processData_loop r point data i (Suc j) (Suc k)
                 (acc @ [\<lparr>a_ID = 0, a_Name = dt_Name (data ! i ! j), a_Account = dt_Account (data ! i ! j),
                          a_Password = pwd, a_Point = point, a_Route = word_of_nat j\<rparr>]))
        else processData_loop r point data (Suc i) 0 k acc
      else Some (k, acc, True))"

text \<open>\<open>processData(data, point)\<close> on the state: reads made, admins, responses written.\<close>

definition processData :: "rand_source \<Rightarrow> Data list list \<times> int8 \<Rightarrow>
    nat \<times> admin list \<times> admin list response list \<Rightarrow> nat \<times> admin list \<times> admin list response list" where
  "processData r dp st =
     (case st of (k, acc, out) \<Rightarrow>
        (case process_rows r (snd dp) (fst dp) k acc of
           (k', acc', ok) \<Rightarrow> (k', acc', if ok then out else out @ [ResponseError PasswordGenError])))"

text \<open>The five calls of \<open>processData\<close>, in order, with the route number as \<open>point\<close>.\<close>

definition route_lists :: "CreateRouteAdminData \<Rightarrow> (Data list list \<times> int8) list" where
  "route_lists f = [(cr_ZH f, 1), (cr_PFHalf f, 2), (cr_PFAll f, 3), (cr_MGSHalf f, 4), (cr_MGSAll f, 5)]"

text \<open>
  \<open>global.DB.Create(&admins)\<close>: the rows get consecutive auto-increment ids,
  written back into the slice. GORM refuses an empty slice.
\<close>

fun assign_admin_ids :: "nat \<Rightarrow> admin list \<Rightarrow> admin list" where
  "assign_admin_ids n [] = []"
| "assign_admin_ids n (a # adm) = a\<lparr>a_ID := n\<rparr> # assign_admin_ids (Suc n) adm"

definition CreateRouteAdmin ::
  "env \<Rightarrow> db \<Rightarrow> rand_source \<Rightarrow> CreateRouteAdminData \<Rightarrow> db \<times> admin list response list" where
  "CreateRouteAdmin e d r f =
     (if cr_Secret f = [] then (d, [ResponseError ParamError])
      else if cr_Secret f \<noteq> server_secret e then (d, [ResponseError WrongSecret])
      else
        (case fold (processData r) (route_lists f) (0, [], []) of
           (k, adm, out) \<Rightarrow>
             if adm = [] then (d, out @ [ResponseError DatabaseError])
             else
               let adm' = assign_admin_ids (next_admin_id d) adm in
               (d\<lparr>admins := admins d @ adm', next_admin_id := next_admin_id d + length adm\<rparr>,
                out @ [ResponseSuccess adm'])))"

text \<open>
  What the handler is meant to build, as a specification: for every entry of the
  five lists, in order, its name and account with the route number and the
  column of the entry (the values \<open>processData\<close> stores in \<open>Point\<close> and \<open>Route\<close>).
\<close>

fun admin_row :: "int8 \<Rightarrow> nat \<Rightarrow> Data list \<Rightarrow> (string \<times> string \<times> int8 \<times> uint8) list" where
  "admin_row point j [] = []"
| "admin_row point j (x # xs) = (dt_Name x, dt_Account x, point, word_of_nat j) # admin_row point (Suc j) xs"

definition admin_layout :: "CreateRouteAdminData \<Rightarrow> (string \<times> string \<times> int8 \<times> uint8) list" where
  "admin_layout f = concat (map (\<lambda>(data, point). concat (map (admin_row point 0) data)) (route_lists f))"

definition admin_fields :: "admin \<Rightarrow> string \<times> string \<times> int8 \<times> uint8" where
  "admin_fields a = (a_Name a, a_Account a, a_Point a, a_Route a)"

text \<open>A random source for the examples: the reads listed in \<open>fails\<close> fail.\<close>

definition sample_rand :: "nat list \<Rightarrow> rand_source" where
  "sample_rand fails = \<lparr>rand_fails = (\<lambda>k. k \<in> set fails), rand_bytes = (\<lambda>k j. word_of_nat (k * 7 + j * 61))\<rparr>"

definition sample_admin_form :: CreateRouteAdminData where
  "sample_admin_form =
     \<lparr>cr_ZH = [[\<lparr>dt_Name = ''x'', dt_Account = ''1''\<rparr>, \<lparr>dt_Name = ''y'', dt_Account = ''2''\<rparr>]],
      cr_PFHalf = [[\<lparr>dt_Name = ''z'', dt_Account = ''3''\<rparr>]], cr_PFAll = [], cr_MGSHalf = [], cr_MGSAll = [],
      cr_Secret = ''secret''\<rparr>"

declare letterBytes_def [eval_simps] byte_letter_def [eval_simps] generateRandomString_def [eval_simps]
  generateRandomPassword_def [eval_simps] processData_def [eval_simps] route_lists_def [eval_simps]
  CreateRouteAdmin_def [eval_simps]
  admin_layout_def [eval_simps] admin_fields_def [eval_simps] sample_rand_def [eval_simps]
  sample_admin_form_def [eval_simps]

subsection \<open>Lemmas\<close>

lemma length_letterBytes [simp]: "length letterBytes = 62"
  by (simp add: letterBytes_def)

text \<open>With a random source that never fails, the inner loop adds one admin per entry.\<close>

lemma process_row_ok:
  assumes "\<forall>k. \<not> rand_fails r k"
  shows "snd (snd (process_row r point j xs k acc)) \<and>
    map admin_fields (fst (snd (process_row r point j xs k acc))) = map admin_fields acc @ admin_row point j xs"
  using assms
  by (induction r point j xs k acc rule: process_row.induct)
    (simp_all add: generateRandomPassword_def generateRandomString_def admin_fields_def)

lemma process_rows_ok:
  assumes "\<forall>k. \<not> rand_fails r k"
  shows "snd (snd (process_rows r point rows k acc)) \<and>
    map admin_fields (fst (snd (process_rows r point rows k acc))) =
      map admin_fields acc @ concat (map (admin_row point 0) rows)"
proof (induction rows arbitrary: k acc)
  case Nil
  then show ?case by simp
next
  case (Cons row rows)
  obtain k' acc' b where pr: "process_row r point 0 row k acc = (k', acc', b)" by (metis prod.exhaust)
  with process_row_ok [OF assms, of point 0 row k acc]
  have "b" and "map admin_fields acc' = map admin_fields acc @ admin_row point 0 row" by simp_all
  with pr Cons.IH [of k' acc'] show ?case by simp
qed

lemma fold_processData_ok:
  assumes "\<forall>k. \<not> rand_fails r k"
  shows "snd (snd (fold (processData r) L (k, acc, []))) = [] \<and>
    map admin_fields (fst (snd (fold (processData r) L (k, acc, [])))) =
      map admin_fields acc @ concat (map (\<lambda>(data, point). concat (map (admin_row point 0) data)) L)"
proof (induction L arbitrary: k acc)
  case Nil
  then show ?case by simp
next
  case (Cons dp L)
  obtain k' acc' b where pr: "process_rows r (snd dp) (fst dp) k acc = (k', acc', b)" by (metis prod.exhaust)
  with process_rows_ok [OF assms, of "snd dp" "fst dp" k acc]
  have "b" and "map admin_fields acc' = map admin_fields acc @ concat (map (admin_row (snd dp) 0) (fst dp))"
    by simp_all
  with pr Cons.IH [of k' acc'] show ?case by (simp add: processData_def split_def)
qed

text \<open>The inner index loop from column \<open>j\<close> is \<open>process_row\<close> on the rest of the row.\<close>

lemma processData_loop_row:
  assumes i: "i < length data"
  shows "drop j (data ! i) = xs \<Longrightarrow> processData_loop r point data i j k acc =
     (case process_row r point j xs k acc of
        (k', acc', True) \<Rightarrow> processData_loop r point data (Suc i) 0 k' acc'
      | res \<Rightarrow> Some res)"
proof (induction xs arbitrary: j k acc)
  case Nil
  then have "\<not> j < length (data ! i)" by simp
  with i show ?case by (subst processData_loop.simps) simp
next
  case (Cons x xs)
  then have j: "j < length (data ! i)" by (metis drop_all list.distinct(1) not_le_imp_less)
  with Cons.prems have x: "data ! i ! j = x" and rest: "drop (Suc j) (data ! i) = xs"
    by (metis Cons_nth_drop_Suc list.inject)+
  show ?case
  proof (cases "generateRandomPassword r k")
    case (Inl m)
    with i j show ?thesis by (subst processData_loop.simps) simp
  next
    case (Inr pwd)
    with i j x Cons.IH [OF rest] show ?thesis by (subst processData_loop.simps) simp
  qed
qed

lemma processData_loop_rows:
  "drop i data = rows \<Longrightarrow> processData_loop r point data i 0 k acc = Some (process_rows r point rows k acc)"
proof (induction rows arbitrary: i k acc)
  case Nil
  then have "\<not> i < length data" by simp
  then show ?case using Nil by (subst processData_loop.simps) simp
next
  case (Cons row rows)
  then have i: "i < length data" by (metis drop_all list.distinct(1) not_le_imp_less)
  with Cons.prems have row: "data ! i = row" and rest: "drop (Suc i) data = rows"
    by (metis Cons_nth_drop_Suc list.inject)+
  have loop: "processData_loop r point data i 0 k acc =
     (case process_row r point 0 row k acc of
        (k', acc', True) \<Rightarrow> processData_loop r point data (Suc i) 0 k' acc'
      | res \<Rightarrow> Some res)"
    by (rule processData_loop_row [OF i]) (simp add: row)
  obtain k' acc' b where pr: "process_row r point 0 row k acc = (k', acc', b)" by (metis prod.exhaust)
  show ?case using loop pr Cons.IH [OF rest] by (cases b) simp_all
qed

lemma assign_admin_ids_fields [simp]: "map admin_fields (assign_admin_ids n adm) = map admin_fields adm"
  by (induction n adm rule: assign_admin_ids.induct) (simp_all add: admin_fields_def)

lemma assign_admin_ids_ids: "map a_ID (assign_admin_ids n adm) = [n..<n + length adm]"
  by (induction n adm rule: assign_admin_ids.induct) (simp_all del: upt_Suc add: upt_conv_Cons)

lemma distinct_letterBytes: "distinct letterBytes"
  by (simp add: letterBytes_def)

lemma length_assign_admin_ids [simp]: "length (assign_admin_ids n adm) = length adm"
  by (induction n adm rule: assign_admin_ids.induct) simp_all

lemma card_mod_eq:
  assumes "c < m"
  shows "card {n. n < N \<and> n mod m = c} = N div m + (if c < N mod m then 1 else 0)"
proof (induction N)
  case 0
  then show ?case by simp
next
  case (Suc N)
  have "{n. n < Suc N \<and> n mod m = c} =
      (if N mod m = c then insert N {n. n < N \<and> n mod m = c} else {n. n < N \<and> n mod m = c})"
    by (auto simp: less_Suc_eq)
  then have "card {n. n < Suc N \<and> n mod m = c} =
      card {n. n < N \<and> n mod m = c} + (if N mod m = c then 1 else 0)" by simp
  with Suc.IH assms show ?case by (auto simp: mod_Suc div_Suc)
qed

lemma inj_unat: "inj (unat :: 'a::len word \<Rightarrow> nat)"
  by (rule injI) (simp add: word_unat_eq_iff)

lemma unat_uint8_less: "unat (b :: uint8) < 256"
  using unsigned_less [of b] by simp

lemma unat_mod_62: "unat ((b :: uint8) mod 62) = unat b mod 62"
  by (simp add: unat_mod)

lemma unat_word_of_nat_uint8: "n < 256 \<Longrightarrow> unat (word_of_nat n :: uint8) = n"
  by (simp add: unat_of_nat)

text \<open>The bytes that give the letter of index \<open>c\<close> are, through \<open>unat\<close>, the numbers below 256 congruent to \<open>c\<close>.\<close>

lemma unat_letter_bytes:
  "unat ` {b :: uint8. unat (b mod 62) = c} = {n. n < 256 \<and> n mod 62 = c}"
proof (intro equalityI subsetI)
  fix n assume "n \<in> unat ` {b :: uint8. unat (b mod 62) = c}"
  then obtain b :: uint8 where "n = unat b" "unat (b mod 62) = c" by blast
  with unat_uint8_less [of b] show "n \<in> {n. n < 256 \<and> n mod 62 = c}" by (simp add: unat_mod_62)
next
  fix n assume n: "n \<in> {n. n < 256 \<and> n mod 62 = c}"
  then have "unat (word_of_nat n :: uint8) = n" by (simp add: unat_word_of_nat_uint8)
  with n have "n = unat (word_of_nat n :: uint8)" "unat ((word_of_nat n :: uint8) mod 62) = c"
    by (simp_all only: unat_mod_62) simp_all
  then show "n \<in> unat ` {b :: uint8. unat (b mod 62) = c}" by blast
qed

text \<open>\<open>processData\<close> writes at most one error per call, and nothing else.\<close>

lemma fold_processData_errors:
  "\<exists>m. snd (snd (fold (processData r) ls (k, acc, out))) = out @ replicate m (ResponseError PasswordGenError) \<and>
     m \<le> length ls"
proof (induction ls arbitrary: k acc out)
  case Nil
  then show ?case by simp
next
  case (Cons dp ls)
  obtain k' acc' ok where pr: "process_rows r (snd dp) (fst dp) k acc = (k', acc', ok)"
    by (metis prod.exhaust)
  let ?out = "if ok then out else out @ [ResponseError PasswordGenError]"
  have step: "fold (processData r) (dp # ls) (k, acc, out) = fold (processData r) ls (k', acc', ?out)"
    using pr by (simp add: processData_def)
  from Cons.IH [of k' acc' ?out] obtain m where
    m: "snd (snd (fold (processData r) ls (k', acc', ?out))) = ?out @ replicate m (ResponseError PasswordGenError)"
    and ml: "m \<le> length ls" by blast
  show ?case
  proof (cases ok)
    case True
    with m ml show ?thesis unfolding step by (intro exI [of _ m]) simp
  next
    case False
    with m ml show ?thesis unfolding step
      by (intro exI [of _ "Suc m"]) (simp add: replicate_app_Cons_same)
  qed
qed

subsection \<open>Properties\<close>

text \<open>
  C19: a generated password has the length asked for and only characters of
  \<open>letterBytes\<close>: the index \<open>b % 62\<close> is always in range.
\<close>

theorem generateRandomString_alphabet:
  assumes "generateRandomString r k n = Inr s"
  shows "length s = n \<and> set s \<subseteq> set letterBytes"
proof -
  have "byte_letter (rand_bytes r k j) \<in> set letterBytes" for j
    unfolding byte_letter_def by (rule nth_mem) (simp add: unat_mod_62)
  with assms show ?thesis by (auto simp: generateRandomString_def split: if_splits)
qed

text \<open>
  C20: the modulo bias of \<open>generateRandomString\<close>. Of the 256 values of a random
  byte, 5 give each of the first 8 letters (a to h) and 4 each of the other 54,
  so the first letters are more likely by a quarter.
\<close>

theorem letter_bias:
  assumes "c < 62"
  shows "card {b. byte_letter b = letterBytes ! c} = (if c < 8 then 5 else 4)"
proof -
  have "byte_letter b = letterBytes ! c \<longleftrightarrow> unat (b mod 62) = c" for b
    unfolding byte_letter_def using assms distinct_letterBytes unat_mod_62 [of b]
    by (simp add: nth_eq_iff_index_eq)
  then have "card {b. byte_letter b = letterBytes ! c} = card {b :: uint8. unat (b mod 62) = c}" by simp
  also have "\<dots> = card (unat ` {b :: uint8. unat (b mod 62) = c})"
    by (rule card_image [symmetric]) (rule inj_on_subset [OF inj_unat], simp)
  also have "\<dots> = card {n. n < 256 \<and> n mod 62 = c}" by (simp only: unat_letter_bytes)
  also have "\<dots> = (if c < 8 then 5 else 4)" using card_mod_eq [OF assms, of 256] by simp
  finally show ?thesis .
qed

text \<open>
  C21: with a random source that never fails and at least one entry,
  \<open>CreateRouteAdmin\<close> saves one admin per entry, in order, with consecutive ids,
  and writes one success. Each admin's \<open>Point\<close> is the number of the route list
  it comes from and its \<open>Route\<close> the column of the entry in its row (modulo 256).
\<close>

theorem CreateRouteAdmin_layout:
  assumes "cr_Secret f = server_secret e" and "cr_Secret f \<noteq> []" and "\<forall>k. \<not> rand_fails r k"
    and "admin_layout f \<noteq> []"
  shows "\<exists>adm. CreateRouteAdmin e d r f =
      (d\<lparr>admins := admins d @ adm, next_admin_id := next_admin_id d + length adm\<rparr>, [ResponseSuccess adm]) \<and>
    map admin_fields adm = admin_layout f \<and> map a_ID adm = [next_admin_id d..<next_admin_id d + length adm]"
proof -
  obtain k adm out where fd: "fold (processData r) (route_lists f) (0, [], []) = (k, adm, out)"
    by (metis prod.exhaust)
  from fold_processData_ok [OF assms(3), of "route_lists f" 0 "[]"] fd
  have out: "out = []" and lay: "map admin_fields adm = admin_layout f"
    by (simp_all add: admin_layout_def)
  with assms(4) have "adm \<noteq> []" by auto
  with assms(1,2) fd out lay show ?thesis
    by (intro exI [of _ "assign_admin_ids (next_admin_id d) adm"])
      (simp add: CreateRouteAdmin_def Let_def assign_admin_ids_ids)
qed

text \<open>
  C22: a failed read writes an error but does not stop the handler. With the
  right secret, every call writes some password errors, at most one per route
  list, and then always one more response: a database error when no admin was
  collected, or a success; an error is never the last thing written.
\<close>

theorem CreateRouteAdmin_error_continues:
  assumes "cr_Secret f = server_secret e" and "cr_Secret f \<noteq> []"
  shows "\<exists>errs res. snd (CreateRouteAdmin e d r f) = errs @ [res] \<and>
    set errs \<subseteq> {ResponseError PasswordGenError} \<and> length errs \<le> 5 \<and>
    (res = ResponseError DatabaseError \<or> (\<exists>adm. res = ResponseSuccess adm))"
proof -
  obtain k adm out where fd: "fold (processData r) (route_lists f) (0, [], []) = (k, adm, out)"
    by (metis prod.exhaust)
  from fold_processData_errors [of r "route_lists f" 0 "[]" "[]"] fd
  obtain m where out: "out = replicate m (ResponseError PasswordGenError)" and m: "m \<le> 5"
    by (auto simp: route_lists_def)
  have "set out \<subseteq> {ResponseError PasswordGenError}" "length out \<le> 5" using out m by auto
  with assms fd show ?thesis by (auto simp: CreateRouteAdmin_def Let_def)
qed

subsection \<open>Witnesses\<close>

theorem generateRandomString_alphabet_witness:
  "generateRandomString (sample_rand []) 1 6 = Inr ''hgfed4'' \<and> set ''hgfed4'' \<subseteq> set letterBytes"
proof -
  have eq: "generateRandomString (sample_rand []) 1 6 = Inr ''hgfed4''" by (simp add: eval_simps)
  from generateRandomString_alphabet [OF eq] eq show ?thesis by simp
qed

theorem letter_bias_witness:
  "card {b. byte_letter b = CHR ''a''} = 5 \<and> card {b. byte_letter b = CHR ''i''} = 4"
  using letter_bias [of 0] letter_bias [of 8] by (simp add: letterBytes_def)

theorem CreateRouteAdmin_error_continues_witness:
  "hd (snd (CreateRouteAdmin sample_env (sample_db [] []) (sample_rand [0]) sample_admin_form)) =
     ResponseError PasswordGenError \<and>
   (\<exists>errs res. snd (CreateRouteAdmin sample_env (sample_db [] []) (sample_rand [0]) sample_admin_form) = errs @ [res] \<and>
      set errs \<subseteq> {ResponseError PasswordGenError} \<and> length errs \<le> 5 \<and>
      (res = ResponseError DatabaseError \<or> (\<exists>adm. res = ResponseSuccess adm)))"
proof -
  have h: "cr_Secret sample_admin_form = server_secret sample_env" "cr_Secret sample_admin_form \<noteq> []"
    by (simp_all add: eval_simps)
  have "hd (snd (CreateRouteAdmin sample_env (sample_db [] []) (sample_rand [0]) sample_admin_form)) =
     ResponseError PasswordGenError" by (simp add: eval_simps Let_def)
  with CreateRouteAdmin_error_continues [OF h, of "sample_db [] []" "sample_rand [0]"] show ?thesis by blast
qed

theorem CreateRouteAdmin_layout_witness:
  "map admin_fields (admins (fst (CreateRouteAdmin sample_env (sample_db [] []) (sample_rand []) sample_admin_form))) =
   [(''x'', ''1'', 1, 0), (''y'', ''2'', 1, 1), (''z'', ''3'', 2, 0)]"
proof -
  have h: "cr_Secret sample_admin_form = server_secret sample_env" "cr_Secret sample_admin_form \<noteq> []"
    "\<forall>k. \<not> rand_fails (sample_rand []) k" "admin_layout sample_admin_form \<noteq> []"
    by (simp_all add: eval_simps)
  from CreateRouteAdmin_layout [OF h, of "sample_db [] []"] obtain adm where
    "CreateRouteAdmin sample_env (sample_db [] []) (sample_rand []) sample_admin_form =
      ((sample_db [] [])\<lparr>admins := admins (sample_db [] []) @ adm,
         next_admin_id := next_admin_id (sample_db [] []) + length adm\<rparr>, [ResponseSuccess adm])"
    and "map admin_fields adm = admin_layout sample_admin_form" by blast
  then show ?thesis by (simp add: eval_simps)
qed

end
