(* ===== verification/Invariant.thy ===== *)
theory Invariant
  imports Regroup Register Admin
begin

text \<open>
  The invariant of the database that every handler keeps: \<open>db_wf\<close> (unique
  keys, fresh counter, team references valid), at most one captain (\<open>Status 2\<close>)
  per team, every team's captain a member of it, and every status within its
  enumeration. The second and third parts are what \<open>Regroup\<close> needs: the
  dissolution resets only one captain per team, and \<open>GetTeamByCaptain\<close> must find
  the team just created.
\<close>

definition one_captain :: "db \<Rightarrow> bool" where
  "one_captain d \<longleftrightarrow>
     (\<forall>p\<in>set (people d). \<forall>q\<in>set (people d).
        p_Status p = 2 \<longrightarrow> p_Status q = 2 \<longrightarrow> p_TeamId p = p_TeamId q \<longrightarrow> p_OpenId p = p_OpenId q)"

definition captain_member :: "db \<Rightarrow> bool" where
  "captain_member d \<longleftrightarrow>
     (\<forall>t\<in>set (teams d). \<exists>p\<in>set (people d). p_OpenId p = t_Captain t \<and> p_TeamId p = int (t_ID t))"

definition statuses_ok :: "db \<Rightarrow> bool" where
  "statuses_ok d \<longleftrightarrow>
     (\<forall>p\<in>set (people d). p_WalkStatus p \<in> {1, 2, 3, 4, 5} \<and> p_Status p \<in> {0, 1, 2}) \<and>
     (\<forall>t\<in>set (teams d). t_Status t \<in> {1, 2, 3, 4, 5})"

definition db_inv :: "db \<Rightarrow> bool" where
  "db_inv d \<longleftrightarrow> db_wf d \<and> one_captain d \<and> captain_member d \<and> statuses_ok d"

text \<open>The columns of a person the structural parts of the invariant read.\<close>

definition person_key :: "person \<Rightarrow> openid \<times> int \<times> uint8" where
  "person_key p = (p_OpenId p, p_TeamId p, p_Status p)"

text \<open>A change of a walk status to a value of \<open>S\<close>, and nothing else.\<close>

definition walk_rel :: "uint8 set \<Rightarrow> person \<Rightarrow> person \<Rightarrow> bool" where
  "walk_rel S p q \<longleftrightarrow> q = p \<or> (q = p\<lparr>p_WalkStatus := p_WalkStatus q\<rparr> \<and> p_WalkStatus q \<in> S)"

text \<open>The old teams \<open>Regroup\<close> dissolves: those of the scanned persons that have one.\<close>

definition dissolved_ids :: "person list \<Rightarrow> int set" where
  "dissolved_ids ps = p_TeamId ` set ps - {-1}"

text \<open>
  The rows a dissolution may add to a table \<open>xs\<close>: none, or the reset zero
  captain when no row of \<open>xs\<close> has the empty open id.
\<close>

definition zero_rows :: "person list \<Rightarrow> person list \<Rightarrow> bool" where
  "zero_rows xs zs \<longleftrightarrow> zs = [] \<or> (zs = [reset_person zero_person] \<and> [] \<notin> p_OpenId ` set xs)"

subsection \<open>Generic lemmas\<close>

lemma list_all2_right: "list_all2 P xs ys \<Longrightarrow> y \<in> set ys \<Longrightarrow> \<exists>x\<in>set xs. P x y"
  by (induction rule: list_all2_induct) auto

lemma person_key_walk [simp]: "person_key (p\<lparr>p_WalkStatus := w\<rparr>) = person_key p"
  by (simp add: person_key_def)

lemma walk_rel_key: "walk_rel S p q \<Longrightarrow> person_key q = person_key p"
  unfolding walk_rel_def by (metis person_key_walk)

lemma walk_rel_list_keys:
  "list_all2 (walk_rel S) ps qs \<Longrightarrow> map person_key qs = map person_key ps"
  by (induction rule: list_all2_induct) (auto dest: walk_rel_key)

lemma person_key_maps:
  assumes "map person_key qs = map person_key ps"
  shows "map p_OpenId qs = map p_OpenId ps" "p_TeamId ` set qs = p_TeamId ` set ps"
proof -
  have f: "fst \<circ> person_key = p_OpenId" and g: "fst \<circ> snd \<circ> person_key = p_TeamId"
    by (auto simp: person_key_def fun_eq_iff)
  from assms have "map (fst \<circ> person_key) qs = map (fst \<circ> person_key) ps" by (metis map_map)
  with f show "map p_OpenId qs = map p_OpenId ps" by simp
  from assms have "map (fst \<circ> snd \<circ> person_key) qs = map (fst \<circ> snd \<circ> person_key) ps" by (metis map_map)
  with g have "map p_TeamId qs = map p_TeamId ps" by simp
  then show "p_TeamId ` set qs = p_TeamId ` set ps" by (metis list.set_map)
qed

lemma one_captain_keys:
  "one_captain d \<longleftrightarrow>
     (\<forall>x\<in>person_key ` set (people d). \<forall>y\<in>person_key ` set (people d).
        snd (snd x) = 2 \<longrightarrow> snd (snd y) = 2 \<longrightarrow> fst (snd x) = fst (snd y) \<longrightarrow> fst x = fst y)"
  by (simp add: one_captain_def person_key_def)

lemma captain_member_keys:
  "captain_member d \<longleftrightarrow>
     (\<forall>t\<in>set (teams d). \<exists>x\<in>person_key ` set (people d). fst x = t_Captain t \<and> fst (snd x) = int (t_ID t))"
  by (simp add: captain_member_def person_key_def)

text \<open>The structural parts of the invariant read the people only through \<open>person_key\<close>.\<close>

lemma structure_cong:
  assumes "map person_key (people d') = map person_key (people d)" and "teams d' = teams d"
  shows "one_captain d' = one_captain d" "captain_member d' = captain_member d"
proof -
  from assms(1) have "person_key ` set (people d') = person_key ` set (people d)" by (metis list.set_map)
  with assms(2) show "one_captain d' = one_captain d" "captain_member d' = captain_member d"
    by (simp_all only: one_captain_keys captain_member_keys)
qed

text \<open>A handler that only changes walk statuses, to values of the enumeration, keeps the invariant.\<close>

lemma inv_walk:
  assumes inv: "db_inv d" and tm: "teams d' = teams d" and nx: "next_team_id d' = next_team_id d"
    and rel: "list_all2 (walk_rel {1, 2, 3, 4, 5}) (people d) (people d')"
  shows "db_inv d'"
proof -
  have keys: "map person_key (people d') = map person_key (people d)" using rel by (rule walk_rel_list_keys)
  have wf0: "db_wf d" using inv by (simp add: db_inv_def)
  have wf: "db_wf d'"
    using db_wf_people_cong [OF wf0 tm nx person_key_maps [OF keys]] .
  have ps: "p_WalkStatus q \<in> {1, 2, 3, 4, 5} \<and> p_Status q \<in> {0, 1, 2}" if "q \<in> set (people d')" for q
  proof -
    from list_all2_right [OF rel that] obtain p where p: "p \<in> set (people d)" and w: "walk_rel {1, 2, 3, 4, 5} p q"
      by blast
    from inv p have "p_WalkStatus p \<in> {1, 2, 3, 4, 5}" "p_Status p \<in> {0, 1, 2}"
      by (simp_all add: db_inv_def statuses_ok_def)
    moreover have "p_Status q = p_Status p" using walk_rel_key [OF w] by (simp add: person_key_def)
    moreover have "p_WalkStatus q = p_WalkStatus p \<or> p_WalkStatus q \<in> {1, 2, 3, 4, 5}"
      using w unfolding walk_rel_def by blast
    ultimately show ?thesis by auto
  qed
  have ts: "\<forall>t\<in>set (teams d'). t_Status t \<in> {1, 2, 3, 4, 5}"
    using inv tm by (simp add: db_inv_def statuses_ok_def)
  have "statuses_ok d'" using ps ts by (simp add: statuses_ok_def)
  moreover have "one_captain d'" "captain_member d'"
    using inv structure_cong [OF keys tm] by (simp_all add: db_inv_def)
  ultimately show ?thesis using wf by (simp add: db_inv_def)
qed

text \<open>Saving a found team with the same id and captain and a status of the enumeration keeps the invariant.\<close>

lemma inv_team_Update:
  assumes inv: "db_inv d" and t: "t \<in> set (teams d)" and id: "t_ID t' = t_ID t"
    and cap: "t_Captain t' = t_Captain t" and st': "t_Status t' \<in> {1, 2, 3, 4, 5}"
  shows "db_inv (team_Update d t')"
proof -
  have wf0: "db_wf d" and oc: "one_captain d" and cm: "captain_member d" and so: "statuses_ok d"
    using inv by (simp_all add: db_inv_def)
  have "t_ID t' \<in> t_ID ` set (teams d)" using t id by simp
  with wf0 have wf: "db_wf (team_Update d t')" by (rule team_Update_wf)
  have sub: "u = t' \<or> u \<in> set (teams d)" if "u \<in> set (teams (team_Update d t'))" for u
    using that by (auto simp: team_Update_def dest: set_upsert_subset)
  have "\<exists>p\<in>set (people d). p_OpenId p = t_Captain u \<and> p_TeamId p = int (t_ID u)"
    if "u \<in> set (teams (team_Update d t'))" for u
    using sub [OF that]
  proof
    assume "u = t'"
    with cm t id cap show ?thesis unfolding captain_member_def by auto
  next
    assume "u \<in> set (teams d)"
    with cm show ?thesis unfolding captain_member_def by blast
  qed
  then have "captain_member (team_Update d t')" unfolding captain_member_def team_Update_frame by blast
  moreover have "\<forall>u\<in>set (teams (team_Update d t')). t_Status u \<in> {1, 2, 3, 4, 5}"
  proof
    fix u assume "u \<in> set (teams (team_Update d t'))"
    from sub [OF this] show "t_Status u \<in> {1, 2, 3, 4, 5}"
    proof
      assume "u = t'"
      with st' show ?thesis by (simp only:)
    next
      assume "u \<in> set (teams d)"
      with so show ?thesis unfolding statuses_ok_def by (elim conjE bspec)
    qed
  qed
  then have "statuses_ok (team_Update d t')"
    using so unfolding statuses_ok_def team_Update_frame by (elim conjE) (intro conjI)
  moreover have "one_captain (team_Update d t')" using oc by (simp only: one_captain_def team_Update_frame)
  ultimately show ?thesis using wf unfolding db_inv_def by blast
qed

lemma list_all2_map_walk:
  "(\<And>q. walk_rel S q (g q)) \<Longrightarrow> list_all2 (walk_rel S) xs (map g xs)"
  by (induction xs) auto

lemma walk_rel_set:
  "s \<in> S \<Longrightarrow> walk_rel S q (if c then q\<lparr>p_WalkStatus := s\<rparr> else q)"
  by (simp add: walk_rel_def)

lemma walk_rel_status_after:
  "walk_rel {1, 2, 3, 4, 5} q (case status_after fs k of None \<Rightarrow> q | Some s \<Rightarrow> q\<lparr>p_WalkStatus := s\<rparr>)"
proof (cases "status_after fs k")
  case None
  then show ?thesis by (simp add: walk_rel_def)
next
  case (Some s)
  have "s = 3 \<or> s = 4" using Some by (induction fs) (auto split: option.splits if_splits)
  with Some show ?thesis by (auto simp: walk_rel_def)
qed

subsection \<open>The check-in handlers and UserStatus keep the invariant\<close>

lemma start_walking_inv: "db_inv d \<Longrightarrow> db_inv (start_walking d (team_members d k))"
proof -
  assume inv: "db_inv d"
  then have "distinct (map p_OpenId (people d))" by (simp add: db_inv_def db_wf_def)
  then have rel: "list_all2 (walk_rel {1, 2, 3, 4, 5}) (people d) (people (start_walking d (team_members d k)))"
    by (simp only: people_start_walking) (rule list_all2_map_walk, rule walk_rel_set, simp)
  show ?thesis by (rule inv_walk [OF inv _ _ rel]) (simp_all add: start_walking_def)
qed

lemma finish_members_inv: "db_inv d \<Longrightarrow> db_inv (finish_members d (team_members d k))"
proof -
  assume inv: "db_inv d"
  then have "distinct (map p_OpenId (people d))" by (simp add: db_inv_def db_wf_def)
  then have rel: "list_all2 (walk_rel {1, 2, 3, 4, 5}) (people d) (people (finish_members d (team_members d k)))"
    by (simp only: people_finish_members) (rule list_all2_map_walk, rule walk_rel_set, simp)
  show ?thesis by (rule inv_walk [OF inv _ _ rel]) (simp_all add: finish_members_def)
qed

lemma checkin_team_inv:
  assumes inv: "db_inv d" and t: "team \<in> set (teams d)" and run: "checkin_team e d user team now = (d', r)"
  shows "db_inv d'"
  using run
proof (cases rule: checkin_team_cases)
  case unchanged
  with inv show ?thesis by simp
next
  case ended
  show ?thesis unfolding ended(4) by (rule inv_team_Update [OF inv t]) simp_all
next
  case (checked p)
  show ?thesis unfolding checked(5)
    by (rule inv_team_Update [OF start_walking_inv [OF inv]]) (simp_all add: t)
qed

lemma arrive_team_inv:
  assumes inv: "db_inv d" and t: "team \<in> set (teams d)" and run: "arrive_team e d user team s now = (d', r)"
  shows "db_inv d'"
  using run
proof (cases rule: arrive_team_cases)
  case unchanged
  with inv show ?thesis by simp
next
  case ended
  show ?thesis unfolding ended(4) by (rule inv_team_Update [OF inv t]) simp_all
next
  case arrived
  show ?thesis unfolding arrived(5)
    by (rule inv_team_Update [OF finish_members_inv [OF inv]]) (simp_all add: t)
qed

lemma bind_team_inv:
  assumes inv: "db_inv d" and t: "team \<in> set (teams d)" and run: "bind_team e d user team c now = (d', r)"
  shows "db_inv d'"
  using run
proof (cases rule: bind_team_cases)
  case unchanged
  with inv show ?thesis by simp
next
  case bound
  show ?thesis unfolding bound(5) by (rule inv_team_Update [OF inv t]) simp_all
qed

lemma UserStatus_inv:
  assumes inv: "db_inv d" and run: "UserStatus e d user lst = (d', r)"
  shows "db_inv d'"
proof -
  have "db_wf d" using inv by (simp add: db_inv_def)
  from UserStatus_people [OF this run] obtain forms where
    fr: "teams d' = teams d" "next_team_id d' = next_team_id d" and
    eq: "people d' = map (\<lambda>q. case status_after forms (p_OpenId q) of
                              None \<Rightarrow> q | Some s \<Rightarrow> q\<lparr>p_WalkStatus := s\<rparr>) (people d)" by blast
  have "list_all2 (walk_rel {1, 2, 3, 4, 5}) (people d) (people d')"
    unfolding eq by (rule list_all2_map_walk, rule walk_rel_status_after)
  then show ?thesis by (rule inv_walk [OF inv fr])
qed

lemma UpdateTeamStatus_inv:
  assumes inv: "db_inv d" and run: "UpdateTeamStatus e d user f now = (d', r)"
  shows "db_inv d'"
  using run
proof (cases rule: UpdateTeamStatus_dispatch)
  case unchanged
  with inv show ?thesis by simp
next
  case (found team)
  from found(2) have "team \<in> set (teams d)" by (rule team_of_status_form_Some)
  from checkin_team_inv [OF inv this found(3)] show ?thesis .
qed

lemma PostDestination_inv:
  assumes inv: "db_inv d" and run: "PostDestination e d user f now = (d', r)"
  shows "db_inv d'"
  using run
proof (cases rule: PostDestination_dispatch)
  case unchanged
  with inv show ?thesis by simp
next
  case (found team)
  from found(2) have "team \<in> set (teams d)" by (simp add: GetTeamByID_Some)
  from arrive_team_inv [OF inv this found(3)] show ?thesis .
qed

lemma BindTeam_inv:
  assumes inv: "db_inv d" and run: "BindTeam e d user f now = (d', r)"
  shows "db_inv d'"
  using run
proof (cases rule: BindTeam_dispatch)
  case unchanged
  with inv show ?thesis by simp
next
  case (found team)
  from found(2) have "team \<in> set (teams d)" by (simp add: GetTeamByID_Some)
  from bind_team_inv [OF inv this found(3)] show ?thesis .
qed

subsection \<open>SubmitTeam, CreateRouteAdmin and StudentRegister keep the invariant\<close>

text \<open>The invariant reads the people, the teams and the team counter only.\<close>

lemma inv_frame:
  assumes "people d' = people d" and "teams d' = teams d" and "next_team_id d' = next_team_id d"
  shows "db_inv d' = db_inv d"
  unfolding db_inv_def db_wf_def one_captain_def captain_member_def statuses_ok_def by (simp only: assms)

lemma SubmitTeam_inv:
  assumes inv: "db_inv d" and run: "SubmitTeam e d f = (d', r)"
  shows "db_inv d'"
proof (cases "\<exists>t k. GetTeamByID d (sbf_TeamID f) = Some t \<and>
                     d' = redis_SAdd (team_Update d (t\<lparr>t_Submit := True\<rparr>)) k")
  case True
  then obtain t k where t: "GetTeamByID d (sbf_TeamID f) = Some t"
    and d': "d' = redis_SAdd (team_Update d (t\<lparr>t_Submit := True\<rparr>)) k" by blast
  from t have tin: "t \<in> set (teams d)" by (simp add: GetTeamByID_Some)
  with inv have "t_Status t \<in> {1, 2, 3, 4, 5}" unfolding db_inv_def statuses_ok_def by blast
  then have "db_inv (team_Update d (t\<lparr>t_Submit := True\<rparr>))" by (intro inv_team_Update [OF inv tin]) simp_all
  then show ?thesis unfolding d' by (subst inv_frame) (simp_all add: redis_SAdd_def)
next
  case False
  with run have "d' = d" by (auto simp: SubmitTeam_def split: if_splits option.splits)
  with inv show ?thesis by simp
qed

lemma CreateRouteAdmin_inv:
  assumes inv: "db_inv d"
  shows "db_inv (fst (CreateRouteAdmin e d r f))"
proof -
  have "people (fst (CreateRouteAdmin e d r f)) = people d \<and> teams (fst (CreateRouteAdmin e d r f)) = teams d \<and>
        next_team_id (fst (CreateRouteAdmin e d r f)) = next_team_id d"
    by (simp add: CreateRouteAdmin_def Let_def split: prod.split)
  with inv show ?thesis by (subst inv_frame) simp_all
qed

lemma StudentRegister_inv:
  assumes inv: "db_inv d"
  shows "db_inv (fst (StudentRegister e d auth f oauth))"
  using StudentRegister_outcome [of e d auth f oauth]
proof
  assume "fst (StudentRegister e d auth f oauth) = d"
  with inv show ?thesis by simp
next
  assume "\<exists>oid g c. GetPerson d oid = None \<and>
      fst (StudentRegister e d auth f oauth) = d\<lparr>people := people d @ [new_person oid f g c]\<rparr>"
  then obtain oid g c where free: "GetPerson d oid = None"
    and d': "fst (StudentRegister e d auth f oauth) = d\<lparr>people := people d @ [new_person oid f g c]\<rparr>" by blast
  let ?d = "d\<lparr>people := people d @ [new_person oid f g c]\<rparr>"
  have wf0: "db_wf d" and oc: "one_captain d" and cm: "captain_member d" and so: "statuses_ok d"
    using inv by (simp_all add: db_inv_def)
  have np: "p_Status (new_person oid f g c) = 0" "p_WalkStatus (new_person oid f g c) = 1"
    by (simp_all add: new_person_def)
  have "db_wf ?d" using new_person_wf [OF wf0 free] .
  moreover have old: "p \<in> set (people d)" if "p \<in> set (people ?d)" "p_Status p = 2" for p
    using that np by auto
  have "one_captain ?d" unfolding one_captain_def
  proof (intro ballI impI)
    fix p q assume "p \<in> set (people ?d)" "q \<in> set (people ?d)" "p_Status p = 2" "p_Status q = 2"
      and "p_TeamId p = p_TeamId q"
    with old [of p] old [of q] oc show "p_OpenId p = p_OpenId q" unfolding one_captain_def by blast
  qed
  moreover have "captain_member ?d" unfolding captain_member_def
  proof
    fix t assume "t \<in> set (teams ?d)"
    then have "t \<in> set (teams d)" by simp
    with cm obtain p where "p \<in> set (people d)" "p_OpenId p = t_Captain t" "p_TeamId p = int (t_ID t)"
      unfolding captain_member_def by blast
    then show "\<exists>p\<in>set (people ?d). p_OpenId p = t_Captain t \<and> p_TeamId p = int (t_ID t)" by auto
  qed
  moreover have "p_WalkStatus p \<in> {1, 2, 3, 4, 5} \<and> p_Status p \<in> {0, 1, 2}" if "p \<in> set (people ?d)" for p
  proof -
    from that have "p \<in> set (people d) \<or> p = new_person oid f g c" by auto
    then show ?thesis
    proof
      assume "p \<in> set (people d)"
      with so show ?thesis unfolding statuses_ok_def by blast
    next
      assume "p = new_person oid f g c"
      with np show ?thesis by (simp only:) simp
    qed
  qed
  then have "statuses_ok ?d" using so unfolding statuses_ok_def by simp
  ultimately show ?thesis unfolding d' db_inv_def by blast
qed

end
