(* ===== verification/RegroupInvariant.thy ===== *)
theory RegroupInvariant
  imports Invariant
begin

text \<open>
  The proof that \<open>Regroup\<close> (team.go lines 346 to 462) keeps \<open>db_inv\<close>. With
  one captain per team, \<open>dissolve\<close> resets exactly the members of the team and
  deletes it; the dissolution loop resets the members of every old team of a
  scanned person (\<open>dissolved_ids\<close>); afterwards no team has the first scanned
  person as captain, so \<open>GetTeamByCaptain\<close> finds the team just created, with id
  \<open>next_team_id\<close>, and the last loop makes its captain and the scanned persons
  members of it.
\<close>

subsection \<open>Dissolving a team\<close>

lemma fold_user_Update_save_matching:
  "fold (\<lambda>p d. user_Update d (g p)) ms d = save_matching (\<lambda>_. True) g d ms"
  by (induction ms arbitrary: d) simp_all

lemma reset_person_simps [simp]:
  "p_TeamId (reset_person p) = -1" "p_Status (reset_person p) = 0" "p_WalkStatus (reset_person p) = 1"
  by (simp_all add: reset_person_def)

text \<open>With one captain per team, dissolving a team resets exactly its members.\<close>

lemma people_dissolve:
  assumes dist: "distinct (map p_OpenId (people d))" and oc: "one_captain d"
  shows "\<exists>zs. people (dissolve d tid) = map (\<lambda>q. if p_TeamId q = tid then reset_person q else q) (people d) @ zs \<and>
    zero_rows (people d) zs"
proof -
  let ?ms = "filter (\<lambda>p. p_TeamId p = tid \<and> p_Status p \<noteq> 2) (people d)"
  let ?cap = "find (\<lambda>p. p_TeamId p = tid \<and> p_Status p = 2) (people d)"
  let ?d1 = "fold (\<lambda>p d. user_Update d (reset_person p)) ?ms d"
  have p1: "people ?d1 = map (\<lambda>q. if q \<in> set ?ms then reset_person q else q) (people d)"
    unfolding fold_user_Update_save_matching using dist
    by (subst people_save_matching) (auto simp: distinct_map_filter)
  have d2: "people (dissolve d tid) = (case ?cap of None \<Rightarrow> people (save_zero_captain ?d1)
                                      | Some c \<Rightarrow> people (user_Update ?d1 (reset_person c)))"
    by (simp add: dissolve_def GetPersonsInTeam_def Let_def team_Delete_def split: option.split)
  have "p_OpenId (if b then reset_person q else q) = p_OpenId q" for b q by simp
  then have k1: "map p_OpenId (people ?d1) = map p_OpenId (people d)"
    unfolding p1 map_map comp_def by simp
  show ?thesis
  proof (cases ?cap)
    case None
    then have "\<forall>q\<in>set (people d). p_TeamId q = tid \<longrightarrow> p_Status q \<noteq> 2" by (simp add: find_None_iff)
    then have m: "people ?d1 = map (\<lambda>q. if p_TeamId q = tid then reset_person q else q) (people d)"
      unfolding p1 by (auto intro!: map_cong)
    have k: "p_OpenId ` set (people ?d1) = p_OpenId ` set (people d)"
      using arg_cong [OF k1, of set] by simp
    let ?zs = "if [] \<in> p_OpenId ` set (people d) then [] else [reset_person zero_person]"
    have "people (dissolve d tid) = map (\<lambda>q. if p_TeamId q = tid then reset_person q else q) (people d) @ ?zs"
    proof -
      have "people (save_zero_captain ?d1) = people ?d1 @ ?zs"
        by (simp only: save_zero_captain_people k)
      then show ?thesis unfolding d2 None option.case m .
    qed
    moreover have "zero_rows (people d) ?zs" by (simp add: zero_rows_def)
    ultimately show ?thesis by blast
  next
    case (Some c)
    then have c: "c \<in> set (people d)" "p_TeamId c = tid" "p_Status c = 2"
      by (auto simp: find_Some_iff nth_mem)
    have dist1: "distinct (map p_OpenId (people ?d1))" using dist by (simp only: k1)
    have "p_OpenId (reset_person c) \<in> set (map p_OpenId (people ?d1))"
      using c(1) unfolding k1 set_map reset_person_key by (rule imageI)
    then have up: "people (user_Update ?d1 (reset_person c)) =
        map (\<lambda>y. if p_OpenId y = p_OpenId c then reset_person c else y) (people ?d1)"
      using dist1 by (simp add: user_Update_people upsert_existing)
    have same: "q = c" if "q \<in> set (people d)" "p_OpenId q = p_OpenId c" for q
      using that c distinct_key_eq [OF dist] by blast
    have cap2: "p_OpenId q = p_OpenId c" if "q \<in> set (people d)" "p_TeamId q = tid" "p_Status q = 2" for q
      using oc that c unfolding one_captain_def by metis
    have "people (dissolve d tid) = map (\<lambda>q. if p_TeamId q = tid then reset_person q else q) (people d)"
      unfolding d2 Some option.case up p1 map_map
    proof (rule map_cong [OF refl])
      fix q assume q: "q \<in> set (people d)"
      show "((\<lambda>y. if p_OpenId y = p_OpenId c then reset_person c else y) \<circ>
             (\<lambda>q. if q \<in> set ?ms then reset_person q else q)) q =
            (if p_TeamId q = tid then reset_person q else q)"
        using q same [OF q] cap2 [OF q] c by auto
    qed
    then show ?thesis by (intro exI [of _ "[]"]) (simp add: zero_rows_def)
  qed
qed

lemma teams_dissolve: "teams (dissolve d tid) = filter (\<lambda>t. int (t_ID t) \<noteq> tid) (teams d)"
proof -
  have eq: "teams (dissolve d tid) =
      (if tid < 0 then teams d
       else case lookup_key t_ID (nat tid) (teams d) of
              None \<Rightarrow> teams d | Some t \<Rightarrow> delete_key t_ID (t_ID t) (teams d))"
  proof -
    obtain cap ms where gp: "GetPersonsInTeam d tid = (cap, ms)" by (cases "GetPersonsInTeam d tid")
    define d2 where "d2 = (case cap of None \<Rightarrow> save_zero_captain (fold (\<lambda>p d. user_Update d (reset_person p)) ms d)
                         | Some c \<Rightarrow> user_Update (fold (\<lambda>p d. user_Update d (reset_person p)) ms d) (reset_person c))"
    have t2: "teams d2 = teams d" unfolding d2_def by (simp split: option.split)
    have "dissolve d tid = (case (if tid < 0 then None else GetTeamByID d2 (nat tid)) of
                              None \<Rightarrow> d2 | Some t \<Rightarrow> team_Delete d2 t)"
      unfolding dissolve_def gp d2_def Let_def by simp
    then show ?thesis unfolding GetTeamByID_def t2
      by (simp add: team_Delete_def t2 split: option.split)
  qed
  show ?thesis
  proof (cases "tid < 0")
    case True
    then show ?thesis unfolding eq by simp
  next
    case False
    then have tid: "tid = int (nat tid)" by simp
    show ?thesis
    proof (cases "lookup_key t_ID (nat tid) (teams d)")
      case None
      then have "nat tid \<notin> t_ID ` set (teams d)" unfolding lookup_key_None by simp
      then have "\<forall>t\<in>set (teams d). int (t_ID t) \<noteq> tid" using tid by (metis image_eqI of_nat_eq_iff)
      with False None show ?thesis unfolding eq by simp
    next
      case (Some t)
      then have "t_ID t = nat tid" by (blast dest: lookup_key_Some)
      with False Some show ?thesis unfolding eq delete_key_def by (auto intro!: filter_cong)
    qed
  qed
qed

lemma zero_row_fields [simp]:
  "p_OpenId (reset_person zero_person) = []" "p_TeamId (reset_person zero_person) = -1"
  "p_Status (reset_person zero_person) = 0" "p_WalkStatus (reset_person zero_person) = 1"
  "p_OpenId zero_person = []"
  by (simp_all add: reset_person_def zero_person_def)

lemma zero_rows_rows:
  "zero_rows xs zs \<Longrightarrow> r \<in> set zs \<Longrightarrow> r = reset_person zero_person"
  by (auto simp: zero_rows_def)

lemma zero_rows_distinct:
  "zero_rows xs zs \<Longrightarrow> distinct (map p_OpenId xs) \<Longrightarrow> distinct (map p_OpenId xs @ map p_OpenId zs)"
  by (force simp: zero_rows_def)

text \<open>
  Resetting the members of a set of teams, deleting those teams and perhaps
  adding the reset zero captain keeps the invariant.
\<close>

lemma inv_reset:
  assumes inv: "db_inv d"
    and ppl: "people d' = map (\<lambda>q. if p_TeamId q \<in> A then reset_person q else q) (people d) @ zs"
    and zr: "zero_rows (people d) zs"
    and tms: "teams d' = filter (\<lambda>t. int (t_ID t) \<notin> A) (teams d)"
    and nx: "next_team_id d' = next_team_id d"
  shows "db_inv d'"
proof -
  let ?f = "\<lambda>q. if p_TeamId q \<in> A then reset_person q else q"
  let ?z = "reset_person zero_person"
  from inv have wf: "db_wf d" and oc: "one_captain d" and cm: "captain_member d" and st: "statuses_ok d"
    unfolding db_inv_def by blast+
  have key: "p_OpenId (?f q) = p_OpenId q" for q by simp
  have keys: "map p_OpenId (people d') = map p_OpenId (people d) @ map p_OpenId zs"
    unfolding ppl map_append map_map comp_def key by simp
  have row: "(\<exists>q\<in>set (people d). r = ?f q) \<or> r = ?z" if "r \<in> set (people d')" for r
    using that zero_rows_rows [OF zr] unfolding ppl by auto
  have wf': "db_wf d'"
    unfolding db_wf_def
  proof (intro conjI ballI)
    show "distinct (map p_OpenId (people d'))"
      using wf zero_rows_distinct [OF zr] unfolding keys db_wf_def by blast
    show "distinct (map t_ID (teams d'))" using wf unfolding tms db_wf_def by (simp add: distinct_map_filter)
  next
    fix t assume "t \<in> set (teams d')"
    then show "t_ID t < next_team_id d'" using wf unfolding tms nx db_wf_def by simp
  next
    fix r assume "r \<in> set (people d')"
    then consider q where "q \<in> set (people d)" "r = ?f q" | "r = ?z" using row by blast
    then show "p_TeamId r = -1 \<or> p_TeamId r \<in> int ` t_ID ` set (teams d')"
    proof cases
      case (1 q)
      show ?thesis
      proof (cases "p_TeamId q \<in> A")
        case True
        then show ?thesis using 1 by simp
      next
        case False
        from 1 wf have "p_TeamId q = -1 \<or> p_TeamId q \<in> int ` t_ID ` set (teams d)" unfolding db_wf_def by blast
        then show ?thesis using 1 False unfolding tms by auto
      qed
    qed simp
  qed
  have cap: "\<exists>q\<in>set (people d). r = q \<and> p_TeamId q \<notin> A" if "r \<in> set (people d')" "p_Status r = 2" for r
  proof -
    from row [OF that(1)] that(2) obtain q where q: "q \<in> set (people d)" "r = ?f q" by auto
    have "p_TeamId q \<notin> A"
    proof
      assume "p_TeamId q \<in> A"
      then have "p_Status r = 0" using q(2) by (simp add: reset_person_def)
      with that(2) show False by simp
    qed
    with q show ?thesis by auto
  qed
  have oc': "one_captain d'"
    unfolding one_captain_def
  proof (intro ballI impI)
    fix r1 r2 assume r1: "r1 \<in> set (people d')" and r2: "r2 \<in> set (people d')"
      and s1: "p_Status r1 = 2" and s2: "p_Status r2 = 2" and tm: "p_TeamId r1 = p_TeamId r2"
    have "r1 \<in> set (people d)" "r2 \<in> set (people d)" using cap [OF r1 s1] cap [OF r2 s2] by blast+
    then show "p_OpenId r1 = p_OpenId r2" using oc s1 s2 tm unfolding one_captain_def by blast
  qed
  have cm': "captain_member d'"
    unfolding captain_member_def
  proof
    fix t assume "t \<in> set (teams d')"
    then have t: "t \<in> set (teams d)" and nA: "int (t_ID t) \<notin> A" unfolding tms by simp_all
    then obtain p where p: "p \<in> set (people d)" "p_OpenId p = t_Captain t" "p_TeamId p = int (t_ID t)"
      using cm unfolding captain_member_def by blast
    then have "?f p = p" using nA by simp
    then have "p \<in> ?f ` set (people d)" by (rule image_eqI [OF sym p(1)])
    then have "p \<in> set (people d')" unfolding ppl by simp
    with p show "\<exists>p\<in>set (people d'). p_OpenId p = t_Captain t \<and> p_TeamId p = int (t_ID t)" by blast
  qed
  have sp: "\<forall>r\<in>set (people d'). p_WalkStatus r \<in> {1, 2, 3, 4, 5} \<and> p_Status r \<in> {0, 1, 2}"
  proof
    fix r assume "r \<in> set (people d')"
    then consider q where "q \<in> set (people d)" "r = ?f q" | "r = ?z" using row by blast
    then show "p_WalkStatus r \<in> {1, 2, 3, 4, 5} \<and> p_Status r \<in> {0, 1, 2}"
    proof cases
      case (1 q)
      from 1 st have "p_WalkStatus q \<in> {1, 2, 3, 4, 5} \<and> p_Status q \<in> {0, 1, 2}" unfolding statuses_ok_def by blast
      then show ?thesis using 1 by simp
    qed simp
  qed
  have stt: "\<forall>t\<in>set (teams d'). t_Status t \<in> {1, 2, 3, 4, 5}"
    using st unfolding tms statuses_ok_def by simp
  have st': "statuses_ok d'" unfolding statuses_ok_def using sp stt by blast
  show ?thesis unfolding db_inv_def using wf' oc' cm' st' by blast
qed

lemma dissolve_inv:
  assumes inv: "db_inv d"
  shows "db_inv (dissolve d tid)"
proof -
  have "distinct (map p_OpenId (people d))" "one_captain d" using inv unfolding db_inv_def db_wf_def by blast+
  then obtain zs where
    "people (dissolve d tid) = map (\<lambda>q. if p_TeamId q \<in> {tid} then reset_person q else q) (people d) @ zs"
    "zero_rows (people d) zs"
    using people_dissolve by auto
  then show ?thesis
    by (rule inv_reset [OF inv]) (simp_all add: teams_dissolve)
qed

subsection \<open>The dissolution loop\<close>

lemma dissolved_ids_simps:
  "dissolved_ids [] = {}"
  "dissolved_ids (p # ps) = (if p_TeamId p = -1 then dissolved_ids ps else insert (p_TeamId p) (dissolved_ids ps))"
  by (auto simp: dissolved_ids_def)

text \<open>Two dissolutions add the zero captain at most once.\<close>

lemma zero_rows_append:
  assumes z1: "zero_rows xs zs1" and z2: "zero_rows ys zs2"
    and ys: "p_OpenId ` set ys = p_OpenId ` set xs \<union> p_OpenId ` set zs1"
  shows "zero_rows xs (zs1 @ zs2)"
  using z1 z2 ys by (auto simp: zero_rows_def)

lemma dissolve_loop_shape:
  assumes "db_inv d"
  shows "(\<exists>zs. people (dissolve_loop d ps) =
           map (\<lambda>q. if p_TeamId q \<in> dissolved_ids ps then reset_person q else q) (people d) @ zs \<and>
           zero_rows (people d) zs) \<and>
         teams (dissolve_loop d ps) = filter (\<lambda>t. int (t_ID t) \<notin> dissolved_ids ps) (teams d)"
  using assms
proof (induction ps arbitrary: d)
  case Nil
  then show ?case by (simp add: dissolved_ids_simps zero_rows_def)
next
  case (Cons p ps)
  show ?case
  proof (cases "p_TeamId p = -1")
    case True
    with Cons show ?thesis by (simp add: dissolved_ids_simps)
  next
    case False
    let ?a = "p_TeamId p" and ?D = "dissolved_ids ps"
    let ?d' = "dissolve d ?a"
    let ?g = "\<lambda>q. if p_TeamId q \<in> ?D then reset_person q else q"
    have inv': "db_inv ?d'" using Cons.prems by (rule dissolve_inv)
    have wf: "distinct (map p_OpenId (people d))" and oc: "one_captain d"
      using Cons.prems unfolding db_inv_def db_wf_def by blast+
    obtain zs1 where p1: "people ?d' = map (\<lambda>q. if p_TeamId q = ?a then reset_person q else q) (people d) @ zs1"
      and z1: "zero_rows (people d) zs1"
      using people_dissolve [OF wf oc] by blast
    obtain zs2 where p2: "people (dissolve_loop ?d' ps) = map ?g (people ?d') @ zs2"
      and z2: "zero_rows (people ?d') zs2"
      using Cons.IH [OF inv'] by blast
    have m1: "-1 \<notin> ?D" by (simp add: dissolved_ids_def)
    then have comp: "(if p_TeamId (if p_TeamId q = ?a then reset_person q else q) \<in> ?D
                       then reset_person (if p_TeamId q = ?a then reset_person q else q)
                       else (if p_TeamId q = ?a then reset_person q else q)) =
                     (if p_TeamId q \<in> insert ?a ?D then reset_person q else q)" for q
      by auto
    have g1: "map ?g zs1 = zs1"
    proof (rule map_idI)
      fix r assume "r \<in> set zs1"
      then have "r = reset_person zero_person" by (rule zero_rows_rows [OF z1])
      then show "?g r = r" using m1 by simp
    qed
    have key: "p_OpenId (if b then reset_person q else q) = p_OpenId q" for b q by simp
    have "map p_OpenId (people ?d') = map p_OpenId (people d) @ map p_OpenId zs1"
      unfolding p1 map_append map_map comp_def key by simp
    from arg_cong [OF this, of set]
    have "p_OpenId ` set (people ?d') = p_OpenId ` set (people d) \<union> p_OpenId ` set zs1" by simp
    then have z: "zero_rows (people d) (zs1 @ zs2)" by (rule zero_rows_append [OF z1 z2])
    have "people (dissolve_loop d (p # ps)) = map ?g (people ?d') @ zs2"
      using p2 False by simp
    also have "\<dots> = map (\<lambda>q. if p_TeamId q \<in> insert ?a ?D then reset_person q else q) (people d) @ zs1 @ zs2"
      unfolding p1 map_append g1 map_map comp_def comp by simp
    finally have pp: "people (dissolve_loop d (p # ps)) =
      map (\<lambda>q. if p_TeamId q \<in> insert ?a ?D then reset_person q else q) (people d) @ zs1 @ zs2" .
    have tt: "teams (dissolve_loop d (p # ps)) = filter (\<lambda>t. int (t_ID t) \<notin> insert ?a ?D) (teams d)"
      using Cons.IH [OF inv'] False by (auto simp: teams_dissolve intro: filter_cong)
    show ?thesis using pp tt z False by (auto simp: dissolved_ids_simps)
  qed
qed

lemma dissolve_loop_inv:
  assumes inv: "db_inv d"
  shows "db_inv (dissolve_loop d ps)"
proof -
  obtain zs where
    "people (dissolve_loop d ps) =
       map (\<lambda>q. if p_TeamId q \<in> dissolved_ids ps then reset_person q else q) (people d) @ zs"
    "zero_rows (people d) zs"
    using dissolve_loop_shape [OF inv, of ps] by blast
  then show ?thesis
    by (rule inv_reset [OF inv]) (simp_all add: dissolve_loop_shape [OF inv])
qed

subsection \<open>The new team and its members\<close>

lemma assign_loop_distinct:
  "distinct (map p_OpenId (people d)) \<Longrightarrow> distinct (map p_OpenId (people (assign_loop d tid i ps)))"
  by (induction d tid i ps rule: assign_loop.induct) (simp_all add: user_Update_def distinct_upsert)

text \<open>
  A row after the last loop of \<open>Regroup\<close> is a row of before, not scanned; a
  scanned copy moved to the new team as a member; or, the first copy, as captain.
\<close>

lemma assign_loop_rows:
  "distinct (map p_OpenId (people d)) \<Longrightarrow> r \<in> set (people (assign_loop d tid i ps)) \<Longrightarrow>
   (r \<in> set (people d) \<and> p_OpenId r \<notin> p_OpenId ` set ps) \<or>
   (\<exists>q\<in>set ps. r = q\<lparr>p_TeamId := int tid, p_Status := 1\<rparr>) \<or>
   (i = 0 \<and> r = (hd ps)\<lparr>p_TeamId := int tid, p_Status := 2\<rparr>)"
proof (induction d tid i ps rule: assign_loop.induct)
  case (1 d tid i)
  then show ?case by simp
next
  case (2 d tid i p ps)
  let ?p' = "p\<lparr>p_TeamId := int tid, p_Status := if i = 0 then 2 else 1\<rparr>"
  have dist: "distinct (map p_OpenId (people (user_Update d ?p')))"
    using "2.prems"(1) by (simp add: user_Update_def distinct_upsert)
  from "2.IH" [OF dist] "2.prems"(2)
  have "(r \<in> set (people (user_Update d ?p')) \<and> p_OpenId r \<notin> p_OpenId ` set ps) \<or>
        (\<exists>q\<in>set ps. r = q\<lparr>p_TeamId := int tid, p_Status := 1\<rparr>)" by simp
  then show ?case
  proof
    assume "r \<in> set (people (user_Update d ?p')) \<and> p_OpenId r \<notin> p_OpenId ` set ps"
    then have r: "r \<in> set (upsert p_OpenId ?p' (people d))" and nk: "p_OpenId r \<notin> p_OpenId ` set ps"
      by (simp_all add: user_Update_def)
    from upsert_in_distinct [OF "2.prems"(1) r]
    show ?case
    proof
      assume "r = ?p'"
      then show ?case by (cases "i = 0") auto
    next
      assume "r \<in> set (people d) \<and> p_OpenId r \<noteq> p_OpenId ?p'"
      with nk show ?case by simp
    qed
  next
    assume "\<exists>q\<in>set ps. r = q\<lparr>p_TeamId := int tid, p_Status := 1\<rparr>"
    then show ?case by auto
  qed
qed

lemma team_Create_captain: "GetTeamByCaptain (team_Create d t) (t_Captain t) \<noteq> None"
proof -
  have "\<exists>x\<in>set (teams (team_Create d t)). t_Captain x = t_Captain t"
    by (intro bexI [of _ "t\<lparr>t_ID := next_team_id d\<rparr>"]) (simp_all add: team_Create_def)
  then show ?thesis unfolding GetTeamByCaptain_def find_None_iff by blast
qed

text \<open>So the branch of \<open>Regroup\<close> that finds no team by the captain is dead code.\<close>

lemma regroup_created_captain: "GetTeamByCaptain (regroup_created d f ps now) (p_OpenId (hd ps)) \<noteq> None"
proof -
  have "t_Captain (new_team f (hd ps) (length ps) now) = p_OpenId (hd ps)" by (simp add: new_team_def)
  with team_Create_captain [of "dissolve_loop d ps" "new_team f (hd ps) (length ps) now"] show ?thesis by simp
qed

text \<open>The rows of the last loop of \<open>Regroup\<close>, after the new team is created.\<close>

lemma assign_loop_rows_created:
  assumes "db_inv d1" and "r \<in> set (people (assign_loop (team_Create d1 nt) (next_team_id d1) 0 ps))"
  shows "(r \<in> set (people d1) \<and> p_OpenId r \<notin> p_OpenId ` set ps \<and> p_TeamId r \<noteq> int (next_team_id d1)) \<or>
         (\<exists>q\<in>set ps. r = q\<lparr>p_TeamId := int (next_team_id d1), p_Status := 1\<rparr>) \<or>
         r = (hd ps)\<lparr>p_TeamId := int (next_team_id d1), p_Status := 2\<rparr>"
proof -
  have wf: "db_wf d1" using assms(1) by (simp add: db_inv_def)
  then have dist: "distinct (map p_OpenId (people (team_Create d1 nt)))"
    by (simp add: db_wf_def team_Create_def)
  have notN: "p_TeamId r \<noteq> int (next_team_id d1)" if "r \<in> set (people d1)" for r
  proof -
    from that wf have "p_TeamId r = -1 \<or> p_TeamId r \<in> int ` t_ID ` set (teams d1)" by (simp add: db_wf_def)
    moreover have "\<forall>t\<in>set (teams d1). t_ID t < next_team_id d1" using wf by (simp add: db_wf_def)
    ultimately show ?thesis by auto
  qed
  have "(r \<in> set (people d1) \<and> p_OpenId r \<notin> p_OpenId ` set ps) \<or>
        (\<exists>q\<in>set ps. r = q\<lparr>p_TeamId := int (next_team_id d1), p_Status := 1\<rparr>) \<or>
        r = (hd ps)\<lparr>p_TeamId := int (next_team_id d1), p_Status := 2\<rparr>"
    using assign_loop_rows [OF dist assms(2)] by (simp add: team_Create_def)
  then show ?thesis using notN by blast
qed

lemma assign_loop_inv:
  assumes inv1: "db_inv d1" and ne: "ps \<noteq> []"
    and inj: "inj_on p_OpenId (set ps)"
    and walk: "\<forall>q\<in>set ps. p_WalkStatus q \<in> {1, 2, 3, 4, 5}"
    and free: "\<forall>q\<in>set ps. \<exists>r\<in>set (people d1). p_OpenId r = p_OpenId q \<and> p_TeamId r = -1"
    and cap: "t_Captain nt = p_OpenId (hd ps)" and st: "t_Status nt = 1"
  shows "db_inv (assign_loop (team_Create d1 nt) (next_team_id d1) 0 ps)"
proof -
  let ?N = "next_team_id d1" and ?d3 = "assign_loop (team_Create d1 nt) (next_team_id d1) 0 ps"
  let ?nt = "nt\<lparr>t_ID := ?N\<rparr>"
  from inv1 have wf: "db_wf d1" and oc: "one_captain d1" and cm: "captain_member d1" and so: "statuses_ok d1"
    unfolding db_inv_def by blast+
  have t3: "teams ?d3 = teams d1 @ [?nt]" and n3: "next_team_id ?d3 = Suc ?N"
    by (simp_all add: team_Create_def)
  note rows = assign_loop_rows_created [OF inv1]
  have wf3: "db_wf ?d3"
    unfolding db_wf_def
  proof (intro conjI ballI)
    show "distinct (map p_OpenId (people ?d3))"
      using wf by (intro assign_loop_distinct) (simp add: db_wf_def team_Create_def)
    show "distinct (map t_ID (teams ?d3))" using wf unfolding t3 db_wf_def by auto
  next
    fix t assume "t \<in> set (teams ?d3)"
    then show "t_ID t < next_team_id ?d3" using wf unfolding t3 n3 db_wf_def by auto
  next
    fix r assume "r \<in> set (people ?d3)"
    from rows [OF this] show "p_TeamId r = -1 \<or> p_TeamId r \<in> int ` t_ID ` set (teams ?d3)"
      using wf unfolding t3 db_wf_def by auto
  qed
  have cap2: "(r \<in> set (people d1) \<and> p_TeamId r \<noteq> int ?N) \<or> (p_OpenId r = p_OpenId (hd ps) \<and> p_TeamId r = int ?N)"
    if "r \<in> set (people ?d3)" "p_Status r = 2" for r
    using rows [OF that(1)] that(2) by auto
  have oc3: "one_captain ?d3"
    unfolding one_captain_def
  proof (intro ballI impI)
    fix r1 r2 assume r: "r1 \<in> set (people ?d3)" "r2 \<in> set (people ?d3)"
      and s: "p_Status r1 = 2" "p_Status r2 = 2" and tm: "p_TeamId r1 = p_TeamId r2"
    from cap2 [OF r(1) s(1)] cap2 [OF r(2) s(2)] tm oc s
    show "p_OpenId r1 = p_OpenId r2" unfolding one_captain_def by metis
  qed
  have cm3: "captain_member ?d3"
    unfolding captain_member_def
  proof
    fix t assume "t \<in> set (teams ?d3)"
    then consider "t \<in> set (teams d1)" | "t = ?nt" unfolding t3 by auto
    then show "\<exists>p\<in>set (people ?d3). p_OpenId p = t_Captain t \<and> p_TeamId p = int (t_ID t)"
    proof cases
      case 1
      then obtain p where p: "p \<in> set (people d1)" "p_OpenId p = t_Captain t" "p_TeamId p = int (t_ID t)"
        using cm unfolding captain_member_def by blast
      have "p_OpenId q \<noteq> p_OpenId p" if q: "q \<in> set ps" for q
      proof
        assume eq: "p_OpenId q = p_OpenId p"
        obtain r where "r \<in> set (people d1)" "p_OpenId r = p_OpenId q" "p_TeamId r = -1" using bspec [OF free q] by blast
        with p eq wf show False unfolding db_wf_def by (metis distinct_key_eq of_nat_0_le_iff neg_0_le_iff_le zero_le_one not_one_le_zero)
      qed
      then have "p \<in> set (people ?d3)" using p(1) by (intro assign_loop_people_keep) (simp_all add: team_Create_def)
      with p show ?thesis by blast
    next
      case 2
      have "hd ps \<in> set ps" using ne by simp
      from assign_loop_row [OF inj this] obtain s where
        "GetPerson ?d3 (p_OpenId (hd ps)) = Some ((hd ps)\<lparr>p_TeamId := int ?N, p_Status := s\<rparr>)" by blast
      from GetPerson_Some [OF this] have "(hd ps)\<lparr>p_TeamId := int ?N, p_Status := s\<rparr> \<in> set (people ?d3)" ..
      then show ?thesis using 2 cap by (intro bexI [of _ "(hd ps)\<lparr>p_TeamId := int ?N, p_Status := s\<rparr>"]) simp_all
    qed
  qed
  have so3: "statuses_ok ?d3"
    unfolding statuses_ok_def
  proof (intro conjI)
    show "\<forall>r\<in>set (people ?d3). p_WalkStatus r \<in> {1, 2, 3, 4, 5} \<and> p_Status r \<in> {0, 1, 2}"
    proof
      fix r assume "r \<in> set (people ?d3)"
      from rows [OF this] walk so show "p_WalkStatus r \<in> {1, 2, 3, 4, 5} \<and> p_Status r \<in> {0, 1, 2}"
        unfolding statuses_ok_def using ne by auto
    qed
    show "\<forall>t\<in>set (teams ?d3). t_Status t \<in> {1, 2, 3, 4, 5}"
      using so st unfolding t3 statuses_ok_def by auto
  qed
  show ?thesis unfolding db_inv_def using wf3 oc3 cm3 so3 by blast
qed

text \<open>After the dissolutions every scanned person has a row with no team.\<close>

lemma dissolve_loop_scanned:
  assumes inv: "db_inv d" and q: "q \<in> set ps" "q \<in> set (people d)"
  shows "\<exists>r\<in>set (people (dissolve_loop d ps)). p_OpenId r = p_OpenId q \<and> p_TeamId r = -1"
proof -
  let ?h = "\<lambda>q. if p_TeamId q \<in> dissolved_ids ps then reset_person q else q"
  obtain zs where "people (dissolve_loop d ps) = map ?h (people d) @ zs"
    using dissolve_loop_shape [OF inv, of ps] by blast
  then have "?h q \<in> set (people (dissolve_loop d ps))" using q(2) by simp
  moreover have "p_TeamId (?h q) = -1" using q(1) by (auto simp: dissolved_ids_def)
  ultimately show ?thesis by (intro bexI [of _ "?h q"]) simp_all
qed

text \<open>On an invariant state, the team \<open>GetTeamByCaptain\<close> finds is the one just created.\<close>

lemma regroup_new_team_id:
  assumes inv: "db_inv d" and ne: "ps \<noteq> []" and sc: "\<forall>q\<in>set ps. q \<in> set (people d)"
    and t: "GetTeamByCaptain (regroup_created d f ps now) (p_OpenId (hd ps)) = Some t"
  shows "t_ID t = next_team_id d"
proof -
  let ?d1 = "dissolve_loop d ps"
  have inv1: "db_inv ?d1" using inv by (rule dissolve_loop_inv)
  then have cm: "captain_member ?d1" and dist: "distinct (map p_OpenId (people ?d1))"
    unfolding db_inv_def db_wf_def by blast+
  obtain r where r: "r \<in> set (people ?d1)" "p_OpenId r = p_OpenId (hd ps)" "p_TeamId r = -1"
    using dissolve_loop_scanned [OF inv, of "hd ps" ps] ne sc by auto
  have "\<forall>u\<in>set (teams ?d1). t_Captain u \<noteq> p_OpenId (hd ps)"
  proof (intro ballI notI)
    fix u assume u: "u \<in> set (teams ?d1)" and c: "t_Captain u = p_OpenId (hd ps)"
    then obtain p where p: "p \<in> set (people ?d1)" "p_OpenId p = t_Captain u" "p_TeamId p = int (t_ID u)"
      using cm unfolding captain_member_def by blast
    with r c have "p = r" using distinct_key_eq [OF dist] by metis
    with p r show False by simp
  qed
  then have "GetTeamByCaptain (regroup_created d f ps now) (p_OpenId (hd ps)) =
               Some ((new_team f (hd ps) (length ps) now)\<lparr>t_ID := next_team_id ?d1\<rparr>)"
    unfolding GetTeamByCaptain_def team_Create_def by (simp add: find_append_skip new_team_def)
  with t have "t = (new_team f (hd ps) (length ps) now)\<lparr>t_ID := next_team_id d\<rparr>" by simp
  then show ?thesis by simp
qed

subsection \<open>Regroup keeps the invariant\<close>

lemma redis_SAdd_inv: "db_inv (redis_SAdd d k) = db_inv d"
  by (rule inv_frame) (simp_all add: redis_SAdd_def)

lemma scanned_inj:
  assumes "distinct (map p_OpenId (people d))" and "\<forall>q\<in>set ps. q \<in> set (people d)"
  shows "inj_on p_OpenId (set ps)"
proof (rule inj_onI)
  fix x y assume "x \<in> set ps" "y \<in> set ps" "p_OpenId x = p_OpenId y"
  with assms show "x = y" using distinct_key_eq [OF assms(1)] by blast
qed

lemma Regroup_inv:
  assumes inv: "db_inv d"
  shows "db_inv (fst (Regroup e d f now))"
proof -
  obtain d' rs where R: "Regroup e d f now = (d', rs)" by fastforce
  then show ?thesis
  proof (cases rule: Regroup_cases)
    case unchanged
    with inv R show ?thesis by simp
  next
    case (created js out ps)
    with regroup_created_captain show ?thesis by blast
  next
    case (ok js out ps t)
    let ?d1 = "dissolve_loop d ps"
    from scan_loop_Some [OF ok(2)] have sc: "\<forall>q\<in>set ps. q \<in> set (people d)" by auto
    have dist: "distinct (map p_OpenId (people d))" and so: "statuses_ok d"
      using inv unfolding db_inv_def db_wf_def by blast+
    have tid: "t_ID t = next_team_id ?d1"
      using regroup_new_team_id [OF inv ok(3) sc ok(4)] by simp
    have "db_inv (assign_loop (team_Create ?d1 (new_team f (hd ps) (length ps) now)) (next_team_id ?d1) 0 ps)"
    proof (rule assign_loop_inv)
      show "db_inv ?d1" using inv by (rule dissolve_loop_inv)
      show "ps \<noteq> []" by (rule ok(3))
      show "inj_on p_OpenId (set ps)" using dist sc by (rule scanned_inj)
      show "\<forall>q\<in>set ps. p_WalkStatus q \<in> {1, 2, 3, 4, 5}" using sc so unfolding statuses_ok_def by blast
      show "\<forall>q\<in>set ps. \<exists>r\<in>set (people ?d1). p_OpenId r = p_OpenId q \<and> p_TeamId r = -1"
        using sc dissolve_loop_scanned [OF inv] by blast
    qed (simp_all add: new_team_def)
    with ok(5) tid R show ?thesis by (simp add: redis_SAdd_inv)
  qed
qed

end
