(* ===== verification/Lifecycle.thy ===== *)
theory Lifecycle
  imports RegroupInvariant
begin

text \<open>
  The handlers that change the database, composed into one state machine: an
  operation is a request to one of them, \<open>step\<close> runs it, and the reachable
  databases are those a sequence of requests produces from the empty database.
  On this machine: every reachable database satisfies \<open>db_inv\<close>; every request
  moves each team only along the edges its handler allows (\<open>op_edge\<close>): a
  check-in, an arrival or a binding along its own edges, every other request not
  at all; these edges refine the phases of the specification (\<open>phase_of\<close>), in
  which only \<open>BindTeam\<close> moves a team back; and a team that has not finished can
  always be finished by one \<open>PostDestination\<close> request.
\<close>

subsection \<open>The state machine of the handlers\<close>

datatype op =
    OpBindTeam admin BindTeamForm unix_time
  | OpUpdateTeamStatus admin TeamStatusForm unix_time
  | OpPostDestination admin PostDestinationForm unix_time
  | OpUserStatus admin "UserStatusForm list option"
  | OpRegroup RegroupForm unix_time
  | OpSubmitTeam SubmitTeamForm
  | OpStudentRegister string StudentRegisterData oauth_result
  | OpCreateRouteAdmin rand_source CreateRouteAdminData

fun step :: "env \<Rightarrow> db \<Rightarrow> op \<Rightarrow> db" where
  "step e d (OpBindTeam u f now) = fst (BindTeam e d u f now)"
| "step e d (OpUpdateTeamStatus u f now) = fst (UpdateTeamStatus e d u f now)"
| "step e d (OpPostDestination u f now) = fst (PostDestination e d u f now)"
| "step e d (OpUserStatus u l) = fst (UserStatus e d u l)"
| "step e d (OpRegroup f now) = fst (Regroup e d f now)"
| "step e d (OpSubmitTeam f) = fst (SubmitTeam e d f)"
| "step e d (OpStudentRegister auth f oauth) = fst (StudentRegister e d auth f oauth)"
| "step e d (OpCreateRouteAdmin r f) = fst (CreateRouteAdmin e d r f)"

fun is_bind :: "op \<Rightarrow> bool" where
  "is_bind (OpBindTeam u f now) = True"
| "is_bind _ = False"

text \<open>The empty database: MySQL's auto-increment counters start at 1.\<close>

definition init_db :: db where
  "init_db = \<lparr>people = [], teams = [], admins = [], next_team_id = 1, next_admin_id = 1, redis_teams = []\<rparr>"

inductive reachable :: "env \<Rightarrow> db \<Rightarrow> bool" for e where
  init: "reachable e init_db"
| step: "reachable e d \<Longrightarrow> reachable e (step e d op)"

subsection \<open>The team-status machine\<close>

text \<open>
  The moves of a team's status the check-in handlers make, read off their
  guards: a check-in (\<open>UpdateTeamStatus\<close>) from a status other than 1, 3 and 4
  to walking (2) or ended (3); an arrival (\<open>PostDestination\<close>) from a status
  other than 3 and 4 to ended (3) or arrived (4). \<open>BindTeam\<close> sets 5 from any
  status.
\<close>

inductive progress_edge :: "uint8 \<Rightarrow> uint8 \<Rightarrow> bool" where
  stay: "progress_edge s s"
| checked: "s \<notin> {1, 3, 4} \<Longrightarrow> s' = 2 \<or> s' = 3 \<Longrightarrow> progress_edge s s'"
| arrived: "s \<notin> {3, 4} \<Longrightarrow> s' = 3 \<or> s' = 4 \<Longrightarrow> progress_edge s s'"

code_pred progress_edge .

text \<open>
  The same moves, per handler, with the status kept: a check-in, an arrival, a
  binding (\<open>bind_team\<close> sets 5 whatever the status); the other handlers keep
  the status of every team they keep.
\<close>

definition checkin_edge :: "uint8 \<Rightarrow> uint8 \<Rightarrow> bool" where
  "checkin_edge s s' \<longleftrightarrow> s' = s \<or> (s \<notin> {1, 3, 4} \<and> (s' = 2 \<or> s' = 3))"

definition arrive_edge :: "uint8 \<Rightarrow> uint8 \<Rightarrow> bool" where
  "arrive_edge s s' \<longleftrightarrow> s' = s \<or> (s \<notin> {3, 4} \<and> (s' = 3 \<or> s' = 4))"

definition bind_edge :: "uint8 \<Rightarrow> uint8 \<Rightarrow> bool" where
  "bind_edge s s' \<longleftrightarrow> s' = s \<or> s' = 5"

fun op_edge :: "op \<Rightarrow> uint8 \<Rightarrow> uint8 \<Rightarrow> bool" where
  "op_edge (OpBindTeam u f now) = bind_edge"
| "op_edge (OpUpdateTeamStatus u f now) = checkin_edge"
| "op_edge (OpPostDestination u f now) = arrive_edge"
| "op_edge _ = (\<lambda>s s'. s' = s)"

text \<open>
  A step moves the teams along edges of \<open>R\<close>: every team after it is an old
  team, by id, moved along an edge, or a new team with the next id and status
  1; an old team that disappears had status 1; the counter does not decrease.
\<close>

definition teams_evolve :: "(uint8 \<Rightarrow> uint8 \<Rightarrow> bool) \<Rightarrow> db \<Rightarrow> db \<Rightarrow> bool" where
  "teams_evolve R d d' \<longleftrightarrow>
     (\<forall>t'\<in>set (teams d'). (\<exists>t\<in>set (teams d). t_ID t' = t_ID t \<and> R (t_Status t) (t_Status t')) \<or>
                          (t_ID t' = next_team_id d \<and> t_Status t' = 1)) \<and>
     (\<forall>t\<in>set (teams d). t_ID t \<notin> t_ID ` set (teams d') \<longrightarrow> t_Status t = 1) \<and>
     next_team_id d \<le> next_team_id d'"

text \<open>Team ids are positive: the counter starts at 1 and only grows.\<close>

definition ids_pos :: "db \<Rightarrow> bool" where
  "ids_pos d \<longleftrightarrow> 0 < next_team_id d \<and> (\<forall>t\<in>set (teams d). 0 < t_ID t)"

subsection \<open>The phases of the specification\<close>

text \<open>
  The specification's team lifecycle: registered, checked in at the start, on
  the route, finished. The phases are ordered as the walk goes.
\<close>

datatype phase = Registered | AtStart | OnRoute | Finished

fun phase_rank :: "phase \<Rightarrow> nat" where
  "phase_rank Registered = 0"
| "phase_rank AtStart = 1"
| "phase_rank OnRoute = 2"
| "phase_rank Finished = 3"

instantiation phase :: linorder
begin

definition less_eq_phase :: "phase \<Rightarrow> phase \<Rightarrow> bool" where
  "less_eq_phase p q \<longleftrightarrow> phase_rank p \<le> phase_rank q"

definition less_phase :: "phase \<Rightarrow> phase \<Rightarrow> bool" where
  "less_phase p q \<longleftrightarrow> phase_rank p < phase_rank q"

instance
proof
  have inj: "phase_rank p = phase_rank q \<Longrightarrow> p = q" for p q
    by (cases p; cases q) simp_all
  fix x y z :: phase
  show "(x < y) = (x \<le> y \<and> \<not> y \<le> x)" by (auto simp: less_eq_phase_def less_phase_def)
  show "x \<le> x" by (simp add: less_eq_phase_def)
  show "x \<le> y \<Longrightarrow> y \<le> z \<Longrightarrow> x \<le> z" by (simp add: less_eq_phase_def)
  show "x \<le> y \<Longrightarrow> y \<le> x \<Longrightarrow> x = y" by (simp add: less_eq_phase_def inj)
  show "x \<le> y \<or> y \<le> x" by (auto simp: less_eq_phase_def)
qed

end

text \<open>The phase of a team status (\<open>model.Team.Status\<close>, see \<open>team\<close>).\<close>

definition phase_of :: "uint8 \<Rightarrow> phase" where
  "phase_of s =
     (if s = 5 then AtStart else if s = 2 then OnRoute else if s = 3 \<or> s = 4 then Finished else Registered)"

subsection \<open>A run\<close>

text \<open>
  A student registers with open id \<open>g\<close>, then an admin regroups \<open>g\<close> alone into a
  new team on route 5; the team gets id 1.
\<close>

definition demo_route :: RegroupForm where
  "demo_route = \<lparr>rf_Jwts = Some [''Bearer g''], rf_Secret = ''secret'', rf_Route = 5\<rparr>"

definition demo_registered :: db where
  "demo_registered =
     step sample_env init_db (OpStudentRegister ''Bearer g'' sample_register_form (OauthInfo ''male'' ''cs''))"

definition demo_life :: db where
  "demo_life = step sample_env demo_registered (OpRegroup demo_route 0)"

text \<open>Then an admin of Moganshan (route 5) reports the team arrived.\<close>

definition demo_arrive :: op where
  "demo_arrive = OpPostDestination (sample_admin 5 0) \<lparr>pf_TeamID = 1, pf_Status = 2\<rparr> 0"

subsection \<open>Lemmas on the team-status machine\<close>

lemma progress_edge_phase: "progress_edge s s' \<Longrightarrow> phase_of s \<le> phase_of s'"
  by (induction rule: progress_edge.induct) (auto simp: phase_of_def less_eq_phase_def)

lemma edges_refl [simp]: "checkin_edge s s" "arrive_edge s s" "bind_edge s s"
  by (simp_all add: checkin_edge_def arrive_edge_def bind_edge_def)

lemma teams_evolve_frame:
  "teams d' = teams d \<Longrightarrow> next_team_id d' = next_team_id d \<Longrightarrow> (\<And>s. R s s) \<Longrightarrow> teams_evolve R d d'"
  unfolding teams_evolve_def by auto

lemma op_edge_progress: "\<not> is_bind op \<Longrightarrow> op_edge op s s' \<Longrightarrow> progress_edge s s'"
  by (cases op) (auto simp: checkin_edge_def arrive_edge_def intro: progress_edge.intros)

lemma teams_evolve_mono:
  "teams_evolve R d d' \<Longrightarrow> (\<And>s s'. R s s' \<Longrightarrow> R' s s') \<Longrightarrow> teams_evolve R' d d'"
  unfolding teams_evolve_def by blast

text \<open>Saving a found team along an edge.\<close>

lemma teams_evolve_team_Update:
  assumes "teams d0 = teams d" and "next_team_id d0 = next_team_id d" and "t \<in> set (teams d)"
    and "t_ID t' = t_ID t" and "R (t_Status t) (t_Status t')" and refl: "\<And>s. R s s"
  shows "teams_evolve R d (team_Update d0 t')"
  unfolding teams_evolve_def
proof (intro conjI ballI impI)
  fix u assume "u \<in> set (teams (team_Update d0 t'))"
  then have "u = t' \<or> u \<in> set (teams d)" using assms(1) by (simp add: team_Update_def set_upsert_subset)
  then show "(\<exists>t\<in>set (teams d). t_ID u = t_ID t \<and> R (t_Status t) (t_Status u)) \<or>
             (t_ID u = next_team_id d \<and> t_Status u = 1)"
    using assms(3,4,5) refl by blast
next
  fix u assume "u \<in> set (teams d)" and "t_ID u \<notin> t_ID ` set (teams (team_Update d0 t'))"
  then show "t_Status u = 1" using assms(1) by (simp add: team_Update_def set_map_upsert)
qed (simp add: assms(2) team_Update_def)

subsection \<open>Each handler moves the teams along the machine\<close>

lemma checkin_team_evolve:
  assumes t: "team \<in> set (teams d)" and run: "checkin_team e d user team now = (d', r)"
  shows "teams_evolve checkin_edge d d'"
  using run
proof (cases rule: checkin_team_cases)
  case unchanged
  then show ?thesis by (simp add: teams_evolve_frame)
next
  case ended
  show ?thesis unfolding ended(4) using ended(2)
    by (intro teams_evolve_team_Update [OF refl refl t]) (auto simp: checkin_edge_def)
next
  case (checked p)
  show ?thesis unfolding checked(5) using checked(2)
    by (intro teams_evolve_team_Update [OF _ _ t]) (auto simp: start_walking_def checkin_edge_def)
qed

lemma arrive_team_evolve:
  assumes t: "team \<in> set (teams d)" and run: "arrive_team e d user team s now = (d', r)"
  shows "teams_evolve arrive_edge d d'"
  using run
proof (cases rule: arrive_team_cases)
  case unchanged
  then show ?thesis by (simp add: teams_evolve_frame)
next
  case ended
  show ?thesis unfolding ended(4) using ended(2)
    by (intro teams_evolve_team_Update [OF refl refl t]) (auto simp: arrive_edge_def)
next
  case arrived
  show ?thesis unfolding arrived(5) using arrived(2)
    by (intro teams_evolve_team_Update [OF _ _ t]) (auto simp: finish_members_def arrive_edge_def)
qed

lemma bind_team_evolve:
  assumes t: "team \<in> set (teams d)" and run: "bind_team e d user team c now = (d', r)"
  shows "teams_evolve bind_edge d d'"
  using run
proof (cases rule: bind_team_cases)
  case unchanged
  then show ?thesis by (simp add: teams_evolve_frame)
next
  case bound
  show ?thesis unfolding bound(5)
    by (rule teams_evolve_team_Update [OF refl refl t]) (simp_all add: bind_edge_def)
qed

lemma UpdateTeamStatus_evolve:
  assumes run: "UpdateTeamStatus e d user f now = (d', r)"
  shows "teams_evolve checkin_edge d d'"
  using run
proof (cases rule: UpdateTeamStatus_dispatch)
  case unchanged
  then show ?thesis by (simp add: teams_evolve_frame)
next
  case (found team)
  from team_of_status_form_Some [OF found(2)] found(3) show ?thesis by (rule checkin_team_evolve)
qed

lemma PostDestination_evolve:
  assumes run: "PostDestination e d user f now = (d', r)"
  shows "teams_evolve arrive_edge d d'"
  using run
proof (cases rule: PostDestination_dispatch)
  case unchanged
  then show ?thesis by (simp add: teams_evolve_frame)
next
  case (found team)
  from found(2) have "team \<in> set (teams d)" by (simp add: GetTeamByID_Some)
  from this found(3) show ?thesis by (rule arrive_team_evolve)
qed

lemma BindTeam_evolve:
  assumes run: "BindTeam e d user f now = (d', r)"
  shows "teams_evolve bind_edge d d'"
  using run
proof (cases rule: BindTeam_dispatch)
  case unchanged
  then show ?thesis by (simp add: teams_evolve_frame)
next
  case (found team)
  from found(2) have "team \<in> set (teams d)" by (simp add: GetTeamByID_Some)
  from this found(3) show ?thesis by (rule bind_team_evolve)
qed

lemma SubmitTeam_evolve:
  assumes run: "SubmitTeam e d f = (d', r)"
  shows "teams_evolve (\<lambda>s s'. s' = s) d d'"
proof (cases "\<exists>t k. GetTeamByID d (sbf_TeamID f) = Some t \<and>
                     d' = redis_SAdd (team_Update d (t\<lparr>t_Submit := True\<rparr>)) k")
  case True
  then obtain t k where t: "GetTeamByID d (sbf_TeamID f) = Some t"
    and d': "d' = redis_SAdd (team_Update d (t\<lparr>t_Submit := True\<rparr>)) k" by blast
  from t have tin: "t \<in> set (teams d)" by (simp add: GetTeamByID_Some)
  have "teams_evolve (\<lambda>s s'. s' = s) d (team_Update d (t\<lparr>t_Submit := True\<rparr>))"
    by (rule teams_evolve_team_Update [OF refl refl tin]) simp_all
  then show ?thesis unfolding d' teams_evolve_def by (simp add: redis_SAdd_def)
next
  case False
  with run have "d' = d" by (auto simp: SubmitTeam_def split: if_splits option.splits)
  then show ?thesis by (simp add: teams_evolve_frame)
qed

lemma UserStatus_evolve:
  "db_wf d \<Longrightarrow> UserStatus e d user l = (d', r) \<Longrightarrow> teams_evolve (\<lambda>s s'. s' = s) d d'"
  by (drule (1) UserStatus_people) (simp add: teams_evolve_frame)

lemma StudentRegister_evolve: "teams_evolve (\<lambda>s s'. s' = s) d (fst (StudentRegister e d auth f oauth))"
  using StudentRegister_outcome [of e d auth f oauth] by (auto simp: teams_evolve_frame)

lemma CreateRouteAdmin_evolve: "teams_evolve (\<lambda>s s'. s' = s) d (fst (CreateRouteAdmin e d r f))"
  by (rule teams_evolve_frame) (simp_all add: CreateRouteAdmin_def Let_def split: prod.split)

text \<open>
  \<open>Regroup\<close> deletes only teams with status 1 (the old teams of scanned persons,
  who may only leave a team that has not started) and creates one with status 1.
\<close>

lemma Regroup_evolve:
  assumes inv: "db_inv d"
  shows "teams_evolve (\<lambda>s s'. s' = s) d (fst (Regroup e d f now))"
proof -
  obtain d' rs where R: "Regroup e d f now = (d', rs)" by fastforce
  then show ?thesis
  proof (cases rule: Regroup_cases)
    case unchanged
    with R show ?thesis by (simp add: teams_evolve_frame)
  next
    case (created js out ps)
    with regroup_created_captain show ?thesis by blast
  next
    case (ok js out ps t)
    let ?D = "dissolved_ids ps" and ?nt = "new_team f (hd ps) (length ps) now"
    from scan_loop_Some [OF ok(2)] have sc: "\<forall>q\<in>set ps. q \<in> set (people d) \<and> joinable d q" by auto
    have wf: "db_wf d" using inv by (simp add: db_inv_def)
    have tm: "teams d' = filter (\<lambda>u. int (t_ID u) \<notin> ?D) (teams d) @ [?nt\<lparr>t_ID := next_team_id d\<rparr>]"
      using ok(5) conjunct2 [OF dissolve_loop_shape [OF inv, of ps]]
      by (simp add: team_Create_def redis_SAdd_def)
    have nx: "next_team_id d' = Suc (next_team_id d)"
      using ok(5) by (simp add: team_Create_def redis_SAdd_def)
    have "teams_evolve (\<lambda>s s'. s' = s) d d'"
      unfolding teams_evolve_def
    proof (intro conjI ballI impI)
      fix u assume "u \<in> set (teams d')"
      then have "u \<in> set (teams d) \<or> u = ?nt\<lparr>t_ID := next_team_id d\<rparr>" unfolding tm by auto
      then show "(\<exists>t\<in>set (teams d). t_ID u = t_ID t \<and> t_Status u = t_Status t) \<or>
                 (t_ID u = next_team_id d \<and> t_Status u = 1)"
        by (auto simp: new_team_def)
    next
      fix u assume u: "u \<in> set (teams d)" and gone: "t_ID u \<notin> t_ID ` set (teams d')"
      then have "int (t_ID u) \<in> ?D" unfolding tm by auto
      then obtain q where q: "q \<in> set ps" "p_TeamId q = int (t_ID u)" by (auto simp: dissolved_ids_def)
      show "t_Status u = 1"
      proof (rule ccontr)
        assume "t_Status u \<noteq> 1"
        with joinable_not_started [OF wf _ u] q sc show False by blast
      qed
    qed (simp add: nx)
    with R show ?thesis by simp
  qed
qed

subsection \<open>The state machine keeps the invariant and follows the team machine\<close>

lemma step_inv: "db_inv d \<Longrightarrow> db_inv (step e d op)"
proof (cases op)
  case (OpBindTeam u f now)
  assume inv: "db_inv d"
  with OpBindTeam show ?thesis using BindTeam_inv [OF inv surjective_pairing] by simp
next
  case (OpUpdateTeamStatus u f now)
  assume inv: "db_inv d"
  with OpUpdateTeamStatus show ?thesis using UpdateTeamStatus_inv [OF inv surjective_pairing] by simp
next
  case (OpPostDestination u f now)
  assume inv: "db_inv d"
  with OpPostDestination show ?thesis using PostDestination_inv [OF inv surjective_pairing] by simp
next
  case (OpUserStatus u l)
  assume inv: "db_inv d"
  with OpUserStatus show ?thesis using UserStatus_inv [OF inv surjective_pairing] by simp
next
  case (OpSubmitTeam f)
  assume inv: "db_inv d"
  with OpSubmitTeam show ?thesis using SubmitTeam_inv [OF inv surjective_pairing] by simp
qed (simp_all add: Regroup_inv StudentRegister_inv CreateRouteAdmin_inv)

lemma step_evolve:
  assumes inv: "db_inv d"
  shows "teams_evolve (op_edge op) d (step e d op)"
proof (cases op)
  case (OpBindTeam u f now)
  then show ?thesis using BindTeam_evolve [OF surjective_pairing] by simp
next
  case (OpUpdateTeamStatus u f now)
  then show ?thesis using UpdateTeamStatus_evolve [OF surjective_pairing] by simp
next
  case (OpPostDestination u f now)
  then show ?thesis using PostDestination_evolve [OF surjective_pairing] by simp
next
  case (OpUserStatus u l)
  have "db_wf d" using inv by (simp add: db_inv_def)
  with OpUserStatus show ?thesis using UserStatus_evolve [OF _ surjective_pairing] by simp
next
  case (OpSubmitTeam f)
  then show ?thesis using SubmitTeam_evolve [OF surjective_pairing] by simp
qed (simp_all add: Regroup_evolve [OF inv] StudentRegister_evolve CreateRouteAdmin_evolve)

lemma teams_evolve_ids_pos: "teams_evolve R d d' \<Longrightarrow> ids_pos d \<Longrightarrow> ids_pos d'"
  unfolding teams_evolve_def ids_pos_def by fastforce

lemma reachable_inv_ids: "reachable e d \<Longrightarrow> db_inv d \<and> ids_pos d"
proof (induction rule: reachable.induct)
  case init
  show ?case by (simp add: init_db_def db_inv_def db_wf_def one_captain_def captain_member_def
      statuses_ok_def ids_pos_def)
next
  case (step d op)
  then show ?case using step_inv step_evolve teams_evolve_ids_pos by blast
qed

lemma demo_reachable: "reachable sample_env demo_registered" "reachable sample_env demo_life"
  unfolding demo_life_def demo_registered_def by (intro reachable.step reachable.init)+

lemma demo_life_team:
  "teams demo_life = [(new_team demo_route (hd (people demo_life)) 1 0)\<lparr>t_ID := 1\<rparr>]"
  by (simp add: demo_life_def demo_registered_def demo_route_def init_db_def eval_simps)

lemma demo_arrived_team:
  "teams (step sample_env demo_life demo_arrive) =
     [(hd (teams demo_life))\<lparr>t_Status := 3, t_Point := end_point sample_env (hd (teams demo_life))\<rparr>]"
  by (simp add: demo_arrive_def demo_life_team demo_life_def demo_registered_def demo_route_def init_db_def
      eval_simps PostDestinationForm_valid_def progress_num_def active_def)

subsection \<open>Properties of the state machine\<close>

text \<open>
  C28: Every database the handlers can produce from the empty database satisfies
  the invariant: unique keys, team references valid, at most one captain per
  team, every team's captain a member of it, and every status in its enumeration.
\<close>

theorem reachable_inv:
  assumes "reachable e d"
  shows "db_inv d"
  using assms
proof (induction rule: reachable.induct)
  case init
  show ?case by (simp add: init_db_def db_inv_def db_wf_def one_captain_def captain_member_def statuses_ok_def)
next
  case (step d op)
  from step.IH show ?case by (rule step_inv)
qed

text \<open>
  C29: From a reachable database, every request moves the teams only along the
  edges its handler allows: \<open>UpdateTeamStatus\<close> from a started team (2 or 5) to
  walking or ended, \<open>PostDestination\<close> from a team that has not ended to ended
  or arrived, \<open>BindTeam\<close> to 5, and every other request keeps each status; a
  team that appears is new, with the next id and status 1, and a team that
  disappears had status 1.
\<close>

theorem step_refines_op_edge:
  assumes "reachable e d"
  shows "teams_evolve (op_edge op) d (step e d op)"
  using reachable_inv_ids [OF assms] step_evolve by blast

text \<open>
  C30: Apart from \<open>BindTeam\<close>, no request moves a team back in the
  specification's lifecycle (registered, at the start, on the route, finished).
\<close>

theorem phase_monotone:
  assumes "reachable e d" and "\<not> is_bind op" and "t \<in> set (teams d)"
    and "t' \<in> set (teams (step e d op))" and "t_ID t' = t_ID t"
  shows "phase_of (t_Status t) \<le> phase_of (t_Status t')"
proof -
  have inv: "db_inv d" using reachable_inv_ids [OF assms(1)] by blast
  then have wf: "db_wf d" by (simp add: db_inv_def)
  from step_evolve [OF inv, of op e] have "teams_evolve progress_edge d (step e d op)"
    by (rule teams_evolve_mono) (rule op_edge_progress [OF assms(2)])
  with assms(4) have "(\<exists>u\<in>set (teams d). t_ID t' = t_ID u \<and> progress_edge (t_Status u) (t_Status t')) \<or>
                      t_ID t' = next_team_id d"
    unfolding teams_evolve_def by blast
  moreover have "t_ID t < next_team_id d" using wf assms(3) by (simp add: db_wf_def)
  ultimately obtain u where u: "u \<in> set (teams d)" "t_ID u = t_ID t" "progress_edge (t_Status u) (t_Status t')"
    using assms(5) by auto
  have "u = t" using distinct_key_eq [of t_ID "teams d"] wf u(1,2) assms(3) by (simp add: db_wf_def)
  with u(3) show ?thesis by (simp add: progress_edge_phase)
qed

text \<open>
  C31: A team of a reachable database that has not finished can always be
  finished: one \<open>PostDestination\<close> request for it, by an admin the route check
  accepts, with either arrival status, ends it.
\<close>

theorem PostDestination_finishes:
  assumes "reachable e d" and "t \<in> set (teams d)" and "phase_of (t_Status t) \<noteq> Finished"
    and "CheckRoute e user t" and "s = 1 \<or> s = 2"
  shows "\<exists>t'\<in>set (teams (step e d (OpPostDestination user \<lparr>pf_TeamID = t_ID t, pf_Status = s\<rparr> now))).
           t_ID t' = t_ID t \<and> phase_of (t_Status t') = Finished"
proof -
  have "db_inv d \<and> ids_pos d" using reachable_inv_ids [OF assms(1)] .
  then have wf: "db_wf d" and pos: "0 < t_ID t" using assms(2) by (auto simp: db_inv_def ids_pos_def)
  have g: "GetTeamByID d (t_ID t) = Some t" by (rule GetTeamByID_in [OF wf assms(2)])
  have st: "t_Status t \<noteq> 3" "t_Status t \<noteq> 4" using assms(3) by (auto simp: phase_of_def)
  have "PostDestinationForm_valid \<lparr>pf_TeamID = t_ID t, pf_Status = s\<rparr>"
    using pos assms(5) by (auto simp: PostDestinationForm_valid_def)
  then have run: "step e d (OpPostDestination user \<lparr>pf_TeamID = t_ID t, pf_Status = s\<rparr> now) =
                  fst (arrive_team e d user t s now)"
    using g by (simp add: PostDestination_def)
  have "\<exists>t''. GetTeamByID (fst (arrive_team e d user t s now)) (t_ID t) = Some t'' \<and>
              (t_Status t'' = 3 \<or> t_Status t'' = 4)"
    using assms(4) st by (simp add: arrive_team_def Let_def)
  then obtain t'' where t'': "GetTeamByID (fst (arrive_team e d user t s now)) (t_ID t) = Some t''"
    "t_Status t'' = 3 \<or> t_Status t'' = 4" by blast
  from GetTeamByID_Some [OF t''(1)] t''(2) show ?thesis
    unfolding run by (intro bexI [of _ t'']) (auto simp: phase_of_def)
qed

text \<open>
  C32: When \<open>Regroup\<close> succeeds on a reachable database, it has created a team
  with the next id of the counter, but the id it reports (and adds to the Redis
  set) is 0, which names no team.
\<close>

theorem Regroup_reports_unsaved_id:
  assumes "reachable e d" and "Regroup e d f now = (d', rs)" and "ResponseSuccess n \<in> set rs"
  shows "n = 0 \<and> GetTeamByID d' n = None \<and> (\<exists>t\<in>set (teams d'). t_ID t = next_team_id d)"
  using assms(2)
proof (cases rule: Regroup_cases)
  case unchanged
  with assms(3) show ?thesis by simp
next
  case (created js out ps)
  with assms(3) show ?thesis by simp
next
  case (ok js out ps t)
  have inv: "db_inv d" using reachable_inv_ids [OF assms(1)] by blast
  from scan_loop_Some [OF ok(2)] have sc: "\<forall>q\<in>set ps. q \<in> set (people d)" by auto
  have tid: "t_ID t = next_team_id d" by (rule regroup_new_team_id [OF inv ok(3) sc ok(4)])
  have "t \<in> set (teams (regroup_created d f ps now))"
    using ok(4) by (auto simp: GetTeamByCaptain_def find_Some_iff nth_mem)
  then have t: "t \<in> set (teams d')" using ok(5) by (simp add: redis_SAdd_def)
  have "reachable e (step e d (OpRegroup f now))" using assms(1) by (rule reachable.step)
  then have "ids_pos d'" using reachable_inv_ids assms(2) by fastforce
  then have "GetTeamByID d' 0 = None"
    by (auto simp: ids_pos_def GetTeamByID_def lookup_key_None)
  moreover have "n = 0" using ok(6,7) assms(3) by auto
  ultimately show ?thesis using t tid by blast
qed

subsection \<open>Witnesses\<close>

theorem reachable_inv_witness: "reachable sample_env demo_life \<and> db_inv demo_life"
  using reachable_inv [OF demo_reachable(2)] demo_reachable(2) by blast

theorem step_refines_op_edge_witness:
  "reachable sample_env demo_life \<and> teams_evolve (op_edge demo_arrive) demo_life (step sample_env demo_life demo_arrive)"
  using step_refines_op_edge [OF demo_reachable(2)] demo_reachable(2) by blast

theorem phase_monotone_witness:
  "reachable sample_env demo_life \<and> \<not> is_bind demo_arrive \<and>
   hd (teams demo_life) \<in> set (teams demo_life) \<and>
   hd (teams (step sample_env demo_life demo_arrive)) \<in> set (teams (step sample_env demo_life demo_arrive)) \<and>
   t_ID (hd (teams (step sample_env demo_life demo_arrive))) = t_ID (hd (teams demo_life)) \<and>
   phase_of (t_Status (hd (teams demo_life))) \<le> phase_of (t_Status (hd (teams (step sample_env demo_life demo_arrive))))"
proof -
  have h: "\<not> is_bind demo_arrive" "hd (teams demo_life) \<in> set (teams demo_life)"
    "hd (teams (step sample_env demo_life demo_arrive)) \<in> set (teams (step sample_env demo_life demo_arrive))"
    "t_ID (hd (teams (step sample_env demo_life demo_arrive))) = t_ID (hd (teams demo_life))"
    by (simp_all only: demo_life_team demo_arrived_team) (simp_all add: demo_arrive_def)
  from phase_monotone [OF demo_reachable(2) h] h demo_reachable(2) show ?thesis by blast
qed

theorem PostDestination_finishes_witness:
  "reachable sample_env demo_life \<and> hd (teams demo_life) \<in> set (teams demo_life) \<and>
   phase_of (t_Status (hd (teams demo_life))) \<noteq> Finished \<and>
   CheckRoute sample_env (sample_admin 5 0) (hd (teams demo_life)) \<and> ((2::nat) = 1 \<or> (2::nat) = 2) \<and>
   (\<exists>t'\<in>set (teams (step sample_env demo_life
        (OpPostDestination (sample_admin 5 0) \<lparr>pf_TeamID = t_ID (hd (teams demo_life)), pf_Status = 2\<rparr> 0))).
      t_ID t' = t_ID (hd (teams demo_life)) \<and> phase_of (t_Status t') = Finished)"
proof -
  have h: "hd (teams demo_life) \<in> set (teams demo_life)" "phase_of (t_Status (hd (teams demo_life))) \<noteq> Finished"
    "CheckRoute sample_env (sample_admin 5 0) (hd (teams demo_life))" "(2::nat) = 1 \<or> (2::nat) = 2"
    by (simp_all add: demo_life_team new_team_def phase_of_def demo_route_def eval_simps)
  from PostDestination_finishes [OF demo_reachable(2) h] h demo_reachable(2) show ?thesis by blast
qed

theorem Regroup_reports_unsaved_id_witness:
  "reachable sample_env demo_registered \<and> ResponseSuccess 0 \<in> set (snd (Regroup sample_env demo_registered demo_route 0)) \<and>
   GetTeamByID (fst (Regroup sample_env demo_registered demo_route 0)) 0 = None"
proof -
  have h: "ResponseSuccess 0 \<in> set (snd (Regroup sample_env demo_registered demo_route 0))"
    by (simp add: demo_registered_def demo_route_def init_db_def eval_simps)
  from Regroup_reports_unsaved_id [OF demo_reachable(1) surjective_pairing h] h demo_reachable(1) show ?thesis by blast
qed

end
