(* ===== verification/Reports.thy ===== *)
theory Reports
  imports Checkin
begin

text \<open>
  The reporting handlers of src/controller/admin/team.go: \<open>GetDetail\<close> (people per
  waypoint of every route), \<open>GetSubmitDetail\<close> with \<open>getTeamStats\<close> (submitted
  teams and people per route and team type) and \<open>GetTeamBySecret\<close>. They only read
  the database. The SQL queries are list comprehensions over the tables: a
  \<open>JOIN\<close> is a nested generator with the join condition, \<open>Count\<close> the length of
  the rows selected.
\<close>

subsection \<open>GetDetail\<close>

record GetDetailForm =
  gdf_Secret :: string

text \<open>The labels of the slots of a route's array.\<close>

datatype label = LabelNotStarted | LabelFinished | LabelWithdrawn | LabelPoint string

text \<open>\<open>Model(&model.Person{}).Joins("JOIN teams ON people.team_id = teams.id")\<close>.\<close>

definition people_join_teams :: "db \<Rightarrow> (person \<times> team) list" where
  "people_join_teams d = [(p, t). p \<leftarrow> people d, t \<leftarrow> teams d, p_TeamId p = int (t_ID t)]"

definition count_rows :: "(person \<times> team \<Rightarrow> bool) \<Rightarrow> db \<Rightarrow> nat" where
  "count_rows P d = length (filter P (people_join_teams d))"

text \<open>The rows \<open>getPointCounts\<close> selects: walking or confirmed members of teams in status 2 or 5.\<close>

definition in_progress :: "uint8 \<Rightarrow> person \<times> team \<Rightarrow> bool" where
  "in_progress route r \<longleftrightarrow>
     t_Route (snd r) = route \<and> p_WalkStatus (fst r) \<in> {2, 3} \<and> t_Status (snd r) \<in> {2, 5}"

text \<open>The query of \<open>getPointCounts\<close>: one group per waypoint, ordered by waypoint.\<close>

definition point_counts :: "db \<Rightarrow> uint8 \<Rightarrow> (int8 \<times> nat) list" where
  "point_counts d route =
     (let rows = filter (in_progress route) (people_join_teams d) in
      map (\<lambda>pt. (pt, length (filter (\<lambda>r. t_Point (snd r) = pt) rows)))
        (sort_key sint (remdups (map (\<lambda>r. t_Point (snd r)) rows))))"

text \<open>The loop of \<open>getPointCounts\<close>: waypoint \<open>p\<close> with \<open>0 \<le> p < n + 1\<close> goes to slot \<open>p + 1\<close>.\<close>

fun store_point_counts :: "int \<Rightarrow> (int8 \<times> nat) list \<Rightarrow> nat list \<Rightarrow> nat list" where
  "store_point_counts n [] xs = xs"
| "store_point_counts n ((pt, c) # pcs) xs =
     store_point_counts n pcs (if 0 \<le> sint pt \<and> sint pt < n + 1 then xs[nat (sint pt + 1) := c] else xs)"

definition start_count :: "db \<Rightarrow> uint8 \<Rightarrow> nat" where
  "start_count d route =
     count_rows (\<lambda>r. t_Route (snd r) = route \<and> p_WalkStatus (fst r) = 1 \<and> t_Submit (snd r)) d"

definition walk_count :: "db \<Rightarrow> uint8 \<Rightarrow> uint8 \<Rightarrow> nat" where
  "walk_count d route ws = count_rows (\<lambda>r. t_Route (snd r) = route \<and> p_WalkStatus (fst r) = ws) d"

text \<open>
  The array of one route: \<open>make([]int64, PointMap[route] + 3)\<close>, filled by
  \<open>getPointCounts\<close>, \<open>getStartCounts\<close> (slot 0) and \<open>appendEndCounts\<close> (the last
  two slots). With fewer than two slots (\<open>PointMap[route] < -1\<close>) \<open>make\<close> or an
  index panics: \<open>None\<close>.
\<close>

definition route_counts :: "env \<Rightarrow> db \<Rightarrow> uint8 \<Rightarrow> nat list option" where
  "route_counts e d route =
     (let n = PointMap e route in
      if n + 3 < 2 then None
      else
        let xs = store_point_counts n (point_counts d route) (replicate (nat (n + 3)) 0);
            xs = xs[0 := start_count d route];
            len = length xs in
        Some (xs[len - 2 := walk_count d route 5, len - 1 := walk_count d route 4]))"

text \<open>\<open>processRoute\<close>: the label of slot \<open>i\<close> of an array of length \<open>len\<close>.\<close>

definition route_label :: "env \<Rightarrow> uint8 \<Rightarrow> nat \<Rightarrow> nat \<Rightarrow> label" where
  "route_label e route len i =
     (if i = 0 then LabelNotStarted
      else if i = len - 2 then LabelFinished
      else if i = len - 1 then LabelWithdrawn
      else LabelPoint (GetPointName e route (word_of_int (int i - 1))))"

text \<open>\<open>RouteDetail\<close>: a slot's count (an \<open>int64\<close> of the array, a count) and its label.\<close>

record RouteDetail =
  rd_Count :: nat
  rd_Label :: label

definition processRoute :: "env \<Rightarrow> uint8 \<Rightarrow> nat list \<Rightarrow> RouteDetail list" where
  "processRoute e route xs =
     map (\<lambda>(i, c). \<lparr>rd_Count = c, rd_Label = route_label e route (length xs) i\<rparr>) (zip [0..<length xs] xs)"

text \<open>The \<open>gin.H\<close> of the response, one field per key.\<close>

record DetailResponse =
  dr_zh :: "RouteDetail list"
  dr_pfAll :: "RouteDetail list"
  dr_pfHalf :: "RouteDetail list"
  dr_mgsHalf :: "RouteDetail list"
  dr_mgsAll :: "RouteDetail list"

definition GetDetail :: "env \<Rightarrow> db \<Rightarrow> GetDetailForm \<Rightarrow> DetailResponse response" where
  "GetDetail e d f =
     (if gdf_Secret f = [] then ResponseError ParamError
      else if gdf_Secret f \<noteq> server_secret e then ResponseError WrongSecret
      else
        (case those (map (route_counts e d) [1, 2, 3, 4, 5]) of
           None \<Rightarrow> Panic
         | Some _ \<Rightarrow>
             ResponseSuccess
               \<lparr>dr_zh = processRoute e 1 (the (route_counts e d 1)),
                dr_pfAll = processRoute e 3 (the (route_counts e d 3)),
                dr_pfHalf = processRoute e 2 (the (route_counts e d 2)),
                dr_mgsHalf = processRoute e 4 (the (route_counts e d 4)),
                dr_mgsAll = processRoute e 5 (the (route_counts e d 5))\<rparr>))"

text \<open>The array of a route in the response, the key the route's details are written under.\<close>

definition detail_field :: "uint8 \<Rightarrow> DetailResponse \<Rightarrow> RouteDetail list" where
  "detail_field r resp =
     (if r = 1 then dr_zh resp else if r = 2 then dr_pfHalf resp else if r = 3 then dr_pfAll resp
      else if r = 4 then dr_mgsHalf resp else dr_mgsAll resp)"

subsection \<open>GetSubmitDetail and getTeamStats\<close>

definition has_student :: "db \<Rightarrow> team \<Rightarrow> bool" where
  "has_student d t \<longleftrightarrow> (\<exists>p\<in>set (people d). p_TeamId p = int (t_ID t) \<and> p_Type p = 1)"

text \<open>
  The conditions shared by the two queries of \<open>getTeamStats\<close> on a team and the
  row joined as its captain; the \<open>EXISTS\<close> filter only for teacher captains.
\<close>

definition stats_filter :: "db \<Rightarrow> uint8 \<Rightarrow> int \<Rightarrow> uint8 \<Rightarrow> bool \<Rightarrow> team \<Rightarrow> person \<Rightarrow> bool" where
  "stats_filter d route submit ctype mixed t c \<longleftrightarrow>
     t_Route t = route \<and> (if t_Submit t then 1 else 0) = submit \<and>
     p_OpenId c = t_Captain t \<and> p_Type c = ctype \<and>
     (if ctype = 2 then has_student d t = mixed else True)"

definition getTeamStats :: "db \<Rightarrow> uint8 \<Rightarrow> int \<Rightarrow> uint8 \<Rightarrow> bool \<Rightarrow> nat \<times> nat" where
  "getTeamStats d route submit ctype mixed =
     (length [(t, c). t \<leftarrow> teams d, c \<leftarrow> people d, stats_filter d route submit ctype mixed t c],
      length [(p, t, c). p \<leftarrow> people d, t \<leftarrow> teams d, p_TeamId p = int (t_ID t), c \<leftarrow> people d,
                         stats_filter d route submit ctype mixed t c])"

datatype route_name = Zhaohui | PingfengHalf | PingfengFull | MoganshanHalf | MoganshanFull

datatype team_type = StudentTeam | TeacherTeam | MixedTeam | AlumniTeam

record Result =
  res_Route :: route_name
  res_TeamType :: team_type
  res_TeamNum :: nat
  res_TotalNum :: nat

definition submit_routes :: "(route_name \<times> uint8) list" where
  "submit_routes = [(Zhaohui, 1), (PingfengHalf, 2), (PingfengFull, 3), (MoganshanHalf, 4), (MoganshanFull, 5)]"

text \<open>\<open>teamTypes\<close>: the captain's type and whether the team has a student member.\<close>

definition team_types :: "(uint8 \<times> team_type \<times> bool) list" where
  "team_types = [(1, StudentTeam, False), (2, TeacherTeam, False), (2, MixedTeam, True), (3, AlumniTeam, False)]"

text \<open>\<open>Results\<close>: one list per route; \<open>var results Results\<close> has them all empty.\<close>

record Results =
  rs_Zh :: "Result list"
  rs_PfHalf :: "Result list"
  rs_PfAll :: "Result list"
  rs_MgsHalf :: "Result list"
  rs_MgsAll :: "Result list"

definition empty_results :: Results where
  "empty_results = \<lparr>rs_Zh = [], rs_PfHalf = [], rs_PfAll = [], rs_MgsHalf = [], rs_MgsAll = []\<rparr>"

text \<open>The \<open>switch r.Name\<close> of the loop: the result goes to the list of its route.\<close>

definition append_result :: "route_name \<Rightarrow> Result \<Rightarrow> Results \<Rightarrow> Results" where
  "append_result n res rs =
     (case n of
        Zhaohui \<Rightarrow> rs\<lparr>rs_Zh := rs_Zh rs @ [res]\<rparr>
      | PingfengHalf \<Rightarrow> rs\<lparr>rs_PfHalf := rs_PfHalf rs @ [res]\<rparr>
      | PingfengFull \<Rightarrow> rs\<lparr>rs_PfAll := rs_PfAll rs @ [res]\<rparr>
      | MoganshanHalf \<Rightarrow> rs\<lparr>rs_MgsHalf := rs_MgsHalf rs @ [res]\<rparr>
      | MoganshanFull \<Rightarrow> rs\<lparr>rs_MgsAll := rs_MgsAll rs @ [res]\<rparr>)"

text \<open>The row of a route and a team type, from \<open>getTeamStats(r.Route, submit, t.Type, t.IsMixed)\<close>.\<close>

definition stats_result :: "db \<Rightarrow> route_name \<times> uint8 \<Rightarrow> uint8 \<times> team_type \<times> bool \<Rightarrow> Result" where
  "stats_result d r t =
     (case getTeamStats d (snd r) 1 (fst t) (snd (snd t)) of
        (tc, pc) \<Rightarrow> \<lparr>res_Route = fst r, res_TeamType = fst (snd t), res_TeamNum = tc, res_TotalNum = pc\<rparr>)"

text \<open>The two nested loops over the routes and the team types.\<close>

definition submit_results :: "db \<Rightarrow> Results" where
  "submit_results d =
     fold (\<lambda>r rs. fold (\<lambda>t. append_result (fst r) (stats_result d r t)) team_types rs) submit_routes empty_results"

definition GetSubmitDetail :: "env \<Rightarrow> db \<Rightarrow> GetDetailForm \<Rightarrow> Results response" where
  "GetSubmitDetail e d f =
     (if gdf_Secret f = [] then ResponseError ParamError
      else if gdf_Secret f \<noteq> server_secret e then ResponseError WrongSecret
      else ResponseSuccess (submit_results d))"

text \<open>The list of a route in \<open>Results\<close>, the field the \<open>switch\<close> selects.\<close>

definition results_field :: "route_name \<Rightarrow> Results \<Rightarrow> Result list" where
  "results_field n rs =
     (case n of Zhaohui \<Rightarrow> rs_Zh rs | PingfengHalf \<Rightarrow> rs_PfHalf rs | PingfengFull \<Rightarrow> rs_PfAll rs
      | MoganshanHalf \<Rightarrow> rs_MgsHalf rs | MoganshanFull \<Rightarrow> rs_MgsAll rs)"

subsection \<open>GetTeamBySecret\<close>

record allTeamForm =
  atf_Secret :: string
  atf_TeamID :: nat

text \<open>The team, its members, and the name of its waypoint.\<close>

definition GetTeamBySecret :: "env \<Rightarrow> db \<Rightarrow> allTeamForm \<Rightarrow> (team \<times> person list \<times> string) response" where
  "GetTeamBySecret e d f =
     (if atf_Secret f = [] \<or> atf_TeamID f = 0 then ResponseError ParamError
      else if atf_Secret f \<noteq> server_secret e then ResponseError WrongSecret
      else
        (case GetTeamByID d (atf_TeamID f) of
           None \<Rightarrow> ResponseError TeamIdWrong
         | Some team \<Rightarrow>
             ResponseSuccess (team, team_members d (t_ID team), GetPointName e (t_Route team) (t_Point team))))"

text \<open>
  A database for the reports: four submitted teams of route 1, captained by a
  student, a teacher with a student member, a teacher without one, and an
  alumnus.
\<close>

definition report_db :: db where
  "report_db = sample_db
     [(sample_person ''s1'' 1 2 1)\<lparr>p_Type := 1\<rparr>, (sample_person ''t1'' 2 2 1)\<lparr>p_Type := 2\<rparr>,
      (sample_person ''s2'' 2 1 1)\<lparr>p_Type := 1\<rparr>, (sample_person ''t2'' 3 2 1)\<lparr>p_Type := 2\<rparr>,
      (sample_person ''a1'' 4 2 1)\<lparr>p_Type := 3\<rparr>]
     [(sample_team 1 1 1 1)\<lparr>t_Captain := ''s1''\<rparr>, (sample_team 2 1 1 2)\<lparr>t_Captain := ''t1''\<rparr>,
      (sample_team 3 1 1 1)\<lparr>t_Captain := ''t2''\<rparr>, (sample_team 4 1 1 1)\<lparr>t_Captain := ''a1''\<rparr>]"

declare people_join_teams_def [eval_simps] count_rows_def [eval_simps] in_progress_def [eval_simps]
  point_counts_def [eval_simps] start_count_def [eval_simps] walk_count_def [eval_simps]
  route_counts_def [eval_simps] route_label_def [eval_simps] processRoute_def [eval_simps]
  GetDetail_def [eval_simps] has_student_def [eval_simps]
  stats_filter_def [eval_simps] getTeamStats_def [eval_simps] submit_routes_def [eval_simps]
  team_types_def [eval_simps] empty_results_def [eval_simps] append_result_def [eval_simps]
  stats_result_def [eval_simps] submit_results_def [eval_simps] GetSubmitDetail_def [eval_simps]
  results_field_def [eval_simps] detail_field_def [eval_simps]
  GetTeamBySecret_def [eval_simps] report_db_def [eval_simps]

subsection \<open>Lemmas on GetDetail\<close>

lemma store_point_counts_length [simp]: "length (store_point_counts n pcs xs) = length xs"
  by (induction n pcs xs rule: store_point_counts.induct) simp_all

text \<open>
  Slot \<open>i + 1\<close> of the array holds the count of the group of waypoint \<open>i\<close>, when
  there is one: the waypoints of the groups are distinct.
\<close>

lemma store_point_counts_nth:
  assumes "distinct pts" and "i + 1 < length xs" and "int i < n + 1"
  shows "store_point_counts n (map (\<lambda>pt. (pt, g pt)) pts) xs ! (i + 1) =
         (case find (\<lambda>pt. sint pt = int i) pts of Some pt \<Rightarrow> g pt | None \<Rightarrow> xs ! (i + 1))"
  using assms
proof (induction pts arbitrary: xs)
  case Nil
  then show ?case by simp
next
  case (Cons pt pts)
  let ?xs = "if 0 \<le> sint pt \<and> sint pt < n + 1 then xs[nat (sint pt + 1) := g pt] else xs"
  have IH: "store_point_counts n (map (\<lambda>pt. (pt, g pt)) pts) ?xs ! (i + 1) =
      (case find (\<lambda>pt. sint pt = int i) pts of Some pt \<Rightarrow> g pt | None \<Rightarrow> ?xs ! (i + 1))"
    using Cons.prems by (intro Cons.IH) simp_all
  show ?case
  proof (cases "sint pt = int i")
    case True
    with Cons.prems(1) have "find (\<lambda>p. sint p = int i) pts = None"
      by (auto simp: find_None_iff) (metis sint_eq_iff)
    with True IH Cons.prems show ?thesis by (simp add: nat_add_distrib)
  next
    case False
    then have eq: "?xs ! (i + 1) = xs ! (i + 1)" by (auto simp: nth_list_update)
    show ?thesis
      using False IH eq by (cases "find (\<lambda>p. sint p = int i) pts") (simp_all del: One_nat_def add_Suc_right)
  qed
qed

text \<open>The count of waypoint \<open>i\<close> read from the groups of \<open>point_counts\<close>.\<close>

lemma point_group_count:
  fixes rows :: "(person \<times> team) list"
  defines "pts \<equiv> sort_key sint (remdups (map (\<lambda>x. t_Point (snd x)) rows))"
  shows "(case find (\<lambda>pt. sint pt = int i) pts of
            Some pt \<Rightarrow> length (filter (\<lambda>x. t_Point (snd x) = pt) rows) | None \<Rightarrow> 0) =
         length (filter (\<lambda>x. sint (t_Point (snd x)) = int i) rows)"
proof (cases "find (\<lambda>pt. sint pt = int i) pts")
  case None
  then have "\<forall>x\<in>set rows. sint (t_Point (snd x)) \<noteq> int i"
    by (auto simp: pts_def find_None_iff)
  with None show ?thesis by (simp add: filter_empty_conv)
next
  case (Some pt)
  then have "sint pt = int i" by (auto simp: find_Some_iff)
  then have "filter (\<lambda>x. t_Point (snd x) = pt) rows = filter (\<lambda>x. sint (t_Point (snd x)) = int i) rows"
    by (metis sint_eq_iff)
  with Some show ?thesis by simp
qed

subsection \<open>Lemmas on getTeamStats\<close>

text \<open>A row joined as a captain is selected by exactly one of the four team types, when its type is 1, 2 or 3.\<close>

lemma stats_types_one:
  "(if stats_filter d r s 1 False t c then 1 else 0) + ((if stats_filter d r s 2 False t c then 1 else 0) +
   ((if stats_filter d r s 2 True t c then 1 else 0) + (if stats_filter d r s 3 False t c then 1 else 0))) =
   (if t_Route t = r \<and> (if t_Submit t then 1 else 0) = s \<and> p_OpenId c = t_Captain t \<and> p_Type c \<in> {1, 2, 3}
    then 1 else (0 :: nat))"
  by (simp add: stats_filter_def)

lemma team_types_sum:
  "(\<Sum>(ty, name, mixed) \<leftarrow> team_types. fst (getTeamStats d r s ty mixed)) =
   (\<Sum>t\<leftarrow>teams d. \<Sum>c\<leftarrow>people d.
      if t_Route t = r \<and> (if t_Submit t then 1 else 0) = s \<and> p_OpenId c = t_Captain t \<and> p_Type c \<in> {1, 2, 3}
      then 1 else 0)"
  by (simp add: team_types_def getTeamStats_def length_comprehension sum_list_addf [symmetric] stats_types_one)

subsection \<open>Lemmas on GetSubmitDetail\<close>

lemma results_field_append:
  "results_field n (append_result m res rs) = (if n = m then results_field n rs @ [res] else results_field n rs)"
  by (cases n; cases m) (simp_all add: results_field_def append_result_def)

lemma results_field_fold:
  "results_field n (fold (\<lambda>t. append_result m (g t)) ts rs) =
     (if n = m then results_field n rs @ map g ts else results_field n rs)"
  by (induction ts arbitrary: rs) (simp_all add: results_field_append)

lemma results_field_loop:
  "results_field n (fold (\<lambda>r rs. fold (\<lambda>t. append_result (fst r) (stats_result d r t)) team_types rs) R rs0) =
     results_field n rs0 @ concat (map (\<lambda>r. map (stats_result d r) team_types) (filter (\<lambda>r. fst r = n) R))"
  by (induction R arbitrary: rs0) (simp_all add: results_field_fold)

text \<open>The loop with the \<open>switch\<close> gives each route its four rows, one per team type, in order.\<close>

lemma results_field_submit:
  assumes "(n, r) \<in> set submit_routes"
  shows "results_field n (submit_results d) = map (stats_result d (n, r)) team_types"
proof -
  have "filter (\<lambda>r. fst r = n) submit_routes = [(n, r)]" using assms by (auto simp: submit_routes_def)
  moreover have "results_field n empty_results = []"
    by (cases n) (simp_all add: results_field_def empty_results_def)
  ultimately show ?thesis by (simp only: submit_results_def results_field_loop) simp
qed

lemma stats_result_fields:
  "res_TeamNum (stats_result d r t) = fst (getTeamStats d (snd r) 1 (fst t) (snd (snd t)))"
  "res_TeamType (stats_result d r t) = fst (snd t)"
  by (simp_all add: stats_result_def split: prod.split)

lemma team_types_count:
  assumes "distinct (map p_OpenId (people d))"
  shows "(\<Sum>(ty, name, mixed) \<leftarrow> team_types. fst (getTeamStats d r 1 ty mixed)) =
    length (filter (\<lambda>t. t_Route t = r \<and> t_Submit t \<and>
      (\<exists>c\<in>set (people d). p_OpenId c = t_Captain t \<and> p_Type c \<in> {1, 2, 3})) (teams d))"
proof -
  have inner: "(\<Sum>c\<leftarrow>people d.
      if t_Route t = r \<and> (if t_Submit t then 1 else 0) = (1 :: int) \<and> p_OpenId c = t_Captain t \<and>
         p_Type c \<in> {1, 2, 3} then 1 else 0) =
    (if t_Route t = r \<and> t_Submit t \<and>
        (\<exists>c\<in>set (people d). p_OpenId c = t_Captain t \<and> p_Type c \<in> {1, 2, 3}) then 1 else (0 :: nat))" for t
  proof (cases "t_Route t = r \<and> t_Submit t")
    case True
    then have "(\<Sum>c\<leftarrow>people d.
        if t_Route t = r \<and> (if t_Submit t then 1 else 0) = (1 :: int) \<and> p_OpenId c = t_Captain t \<and>
           p_Type c \<in> {1, 2, 3} then 1 else 0) =
      length (filter (\<lambda>c. p_OpenId c = t_Captain t \<and> p_Type c \<in> {1, 2, 3}) (people d))"
      by (simp add: length_filter_sum)
    with True length_filter_key [OF assms] show ?thesis by simp
  next
    case False
    then show ?thesis by auto
  qed
  have "(\<Sum>(ty, name, mixed) \<leftarrow> team_types. fst (getTeamStats d r 1 ty mixed)) =
    (\<Sum>t\<leftarrow>teams d. \<Sum>c\<leftarrow>people d.
      if t_Route t = r \<and> (if t_Submit t then 1 else 0) = (1 :: int) \<and> p_OpenId c = t_Captain t \<and>
         p_Type c \<in> {1, 2, 3} then 1 else 0)"
    by (rule team_types_sum)
  also have "\<dots> = (\<Sum>t\<leftarrow>teams d. if t_Route t = r \<and> t_Submit t \<and>
        (\<exists>c\<in>set (people d). p_OpenId c = t_Captain t \<and> p_Type c \<in> {1, 2, 3}) then 1 else 0)"
    by (simp only: inner)
  finally show ?thesis by (simp only: length_filter_sum)
qed


text \<open>
  The array of a route as \<open>getPointCounts\<close>, \<open>getStartCounts\<close> and
  \<open>appendEndCounts\<close> fill it, for a route with \<open>n \<ge> 0\<close> waypoints.
\<close>

lemma route_counts_layout:
  assumes "0 \<le> PointMap e r"
  shows "\<exists>xs. route_counts e d r = Some xs \<and> length xs = nat (PointMap e r) + 3 \<and>
     xs ! 0 = start_count d r \<and>
     (\<forall>i < nat (PointMap e r).
        xs ! (i + 1) = count_rows (\<lambda>x. in_progress r x \<and> sint (t_Point (snd x)) = int i) d) \<and>
     xs ! (nat (PointMap e r) + 1) = walk_count d r 5 \<and> xs ! (nat (PointMap e r) + 2) = walk_count d r 4"
proof -
  define n where "n = PointMap e r"
  define rows where "rows = filter (in_progress r) (people_join_teams d)"
  define pts where "pts = sort_key sint (remdups (map (\<lambda>x. t_Point (snd x)) rows))"
  define ys where "ys = store_point_counts n
      (map (\<lambda>pt. (pt, length (filter (\<lambda>x. t_Point (snd x) = pt) rows))) pts) (replicate (nat n + 3) 0)"
  have n0: "0 \<le> n" using assms by (simp add: n_def)
  have rc: "route_counts e d r =
      Some (ys[0 := start_count d r, nat n + 1 := walk_count d r 5, nat n + 2 := walk_count d r 4])"
    using n0 by (simp add: route_counts_def point_counts_def Let_def n_def [symmetric] ys_def pts_def
        rows_def nat_add_distrib)
  have len: "length ys = nat n + 3" by (simp add: ys_def)
  have mid: "ys ! (i + 1) = count_rows (\<lambda>x. in_progress r x \<and> sint (t_Point (snd x)) = int i) d"
    if "i < nat n" for i
  proof -
    have r0: "replicate (nat n + 3) 0 ! (i + 1) = (0 :: nat)" using that by simp
    have "ys ! (i + 1) = (case find (\<lambda>pt. sint pt = int i) pts of
          Some pt \<Rightarrow> length (filter (\<lambda>x. t_Point (snd x) = pt) rows)
        | None \<Rightarrow> replicate (nat n + 3) 0 ! (i + 1))"
      unfolding ys_def using that n0 by (intro store_point_counts_nth) (simp_all add: pts_def)
    also have "\<dots> = (case find (\<lambda>pt. sint pt = int i) pts of
          Some pt \<Rightarrow> length (filter (\<lambda>x. t_Point (snd x) = pt) rows) | None \<Rightarrow> 0)"
      unfolding r0 by (rule refl)
    also have "\<dots> = length (filter (\<lambda>x. sint (t_Point (snd x)) = int i) rows)"
      unfolding pts_def by (rule point_group_count)
    finally show ?thesis by (simp add: count_rows_def rows_def)
  qed
  show ?thesis using rc len mid by (auto simp: n_def nth_list_update)
qed

text \<open>
  Dropping people from the table changes no count whose rows never pair a
  dropped person with their team.
\<close>

lemma people_join_teams_filter:
  "people_join_teams (d\<lparr>people := filter Q (people d)\<rparr>) = filter (\<lambda>x. Q (fst x)) (people_join_teams d)"
proof -
  have "[(p, t). p \<leftarrow> filter Q ps, t \<leftarrow> ts, p_TeamId p = int (t_ID t)] =
        filter (\<lambda>x. Q (fst x)) [(p, t). p \<leftarrow> ps, t \<leftarrow> ts, p_TeamId p = int (t_ID t)]"
    for ps :: "person list" and ts :: "team list"
    by (induction ps) (simp_all add: filter_concat comp_def)
  then show ?thesis by (simp add: people_join_teams_def)
qed

lemma count_rows_filter_people:
  assumes "\<And>p t. p \<in> set (people d) \<Longrightarrow> t \<in> set (teams d) \<Longrightarrow> p_TeamId p = int (t_ID t) \<Longrightarrow>
      P (p, t) \<Longrightarrow> Q p"
  shows "count_rows P (d\<lparr>people := filter Q (people d)\<rparr>) = count_rows P d"
proof -
  have "filter P (filter (\<lambda>x. Q (fst x)) (people_join_teams d)) = filter P (people_join_teams d)"
    unfolding filter_filter using assms by (intro filter_cong) (auto simp: people_join_teams_def)
  then show ?thesis by (simp add: count_rows_def people_join_teams_filter)
qed

subsection \<open>Lemmas on the response of GetDetail\<close>

lemma processRoute_length [simp]: "length (processRoute e r xs) = length xs"
  by (simp add: processRoute_def)

lemma processRoute_nth:
  "i < length xs \<Longrightarrow> processRoute e r xs ! i = \<lparr>rd_Count = xs ! i, rd_Label = route_label e r (length xs) i\<rparr>"
  by (simp add: processRoute_def)

lemma GetDetail_success:
  assumes "gdf_Secret f = server_secret e" and "gdf_Secret f \<noteq> []"
    and "\<forall>r\<in>{1, 2, 3, 4, 5}. route_counts e d r \<noteq> None" and "r \<in> {1, 2, 3, 4, 5}"
  shows "\<exists>resp. GetDetail e d f = ResponseSuccess resp \<and>
           detail_field r resp = processRoute e r (the (route_counts e d r))"
proof -
  have "route_counts e d k \<noteq> None" if "k \<in> {1, 2, 3, 4, 5}" for k using assms(3) that by blast
  then obtain x1 x2 x3 x4 x5 where "route_counts e d 1 = Some x1" "route_counts e d 2 = Some x2"
    "route_counts e d 3 = Some x3" "route_counts e d 4 = Some x4" "route_counts e d 5 = Some x5"
    by (metis insertCI not_None_eq)
  then have "those (map (route_counts e d) [1, 2, 3, 4, 5]) \<noteq> None" by simp
  then obtain xss where "those (map (route_counts e d) [1, 2, 3, 4, 5]) = Some xss" by blast
  with assms(1,2,4) show ?thesis by (auto simp: GetDetail_def detail_field_def)
qed

subsection \<open>Properties\<close>

text \<open>
  C16: the layout of a route's array in the response of GetDetail. When every
  route has \<open>n \<ge> 0\<close> waypoints (\<open>PointMap\<close>) the handler does not panic, and the
  array written under the route's key has \<open>n + 3\<close> details: detail 0 counts the
  members not started of submitted teams, labelled not started; detail
  \<open>i + 1\<close> the walking or confirmed members of started teams at waypoint \<open>i\<close>,
  for every \<open>i < n\<close>, labelled with the name of waypoint \<open>i\<close>; detail \<open>n + 1\<close>
  the finished members and detail \<open>n + 2\<close> the withdrawn ones, labelled so.
  The count of waypoint \<open>n\<close> itself, written to slot \<open>n + 1\<close>, is overwritten.
\<close>

theorem GetDetail_layout:
  assumes "gdf_Secret f = server_secret e" and "gdf_Secret f \<noteq> []"
    and "\<forall>r\<in>{1, 2, 3, 4, 5}. 0 \<le> PointMap e r" and "r \<in> {1, 2, 3, 4, 5}"
  shows "\<exists>resp. GetDetail e d f = ResponseSuccess resp \<and>
     length (detail_field r resp) = nat (PointMap e r) + 3 \<and>
     detail_field r resp ! 0 = \<lparr>rd_Count = start_count d r, rd_Label = LabelNotStarted\<rparr> \<and>
     (\<forall>i < nat (PointMap e r). detail_field r resp ! (i + 1) =
        \<lparr>rd_Count = count_rows (\<lambda>x. in_progress r x \<and> sint (t_Point (snd x)) = int i) d,
         rd_Label = LabelPoint (GetPointName e r (word_of_int (int i)))\<rparr>) \<and>
     detail_field r resp ! (nat (PointMap e r) + 1) = \<lparr>rd_Count = walk_count d r 5, rd_Label = LabelFinished\<rparr> \<and>
     detail_field r resp ! (nat (PointMap e r) + 2) = \<lparr>rd_Count = walk_count d r 4, rd_Label = LabelWithdrawn\<rparr>"
proof -
  have some: "\<forall>r\<in>{1, 2, 3, 4, 5}. route_counts e d r \<noteq> None"
    using assms(3) route_counts_layout by blast
  obtain resp where resp: "GetDetail e d f = ResponseSuccess resp"
    and fld: "detail_field r resp = processRoute e r (the (route_counts e d r))"
    using GetDetail_success [OF assms(1,2) some assms(4)] by blast
  have "0 \<le> PointMap e r" using assms(3,4) by blast
  from route_counts_layout [OF this, of d] obtain xs where xs: "route_counts e d r = Some xs"
    and len: "length xs = nat (PointMap e r) + 3" and x0: "xs ! 0 = start_count d r"
    and mid: "\<forall>i < nat (PointMap e r).
        xs ! (i + 1) = count_rows (\<lambda>x. in_progress r x \<and> sint (t_Point (snd x)) = int i) d"
    and x1: "xs ! (nat (PointMap e r) + 1) = walk_count d r 5" and x2: "xs ! (nat (PointMap e r) + 2) = walk_count d r 4"
    by blast
  have f: "detail_field r resp = processRoute e r xs" using fld xs by simp
  have "\<forall>i < nat (PointMap e r). detail_field r resp ! (i + 1) =
        \<lparr>rd_Count = count_rows (\<lambda>x. in_progress r x \<and> sint (t_Point (snd x)) = int i) d,
         rd_Label = LabelPoint (GetPointName e r (word_of_int (int i)))\<rparr>"
    using mid len by (auto simp: f processRoute_nth route_label_def)
  moreover have "detail_field r resp ! 0 = \<lparr>rd_Count = start_count d r, rd_Label = LabelNotStarted\<rparr>"
    using len x0 by (simp add: f processRoute_nth route_label_def)
  moreover have "detail_field r resp ! (nat (PointMap e r) + 1) = \<lparr>rd_Count = walk_count d r 5, rd_Label = LabelFinished\<rparr>"
    using len x1 by (simp add: f processRoute_nth route_label_def)
  moreover have "detail_field r resp ! (nat (PointMap e r) + 2) = \<lparr>rd_Count = walk_count d r 4, rd_Label = LabelWithdrawn\<rparr>"
    using len x2 by (simp add: f processRoute_nth route_label_def)
  ultimately show ?thesis using resp len f by auto
qed

text \<open>
  C18: the four rows GetSubmitDetail writes in the list of a route (student,
  teacher, mixed and alumni teams, in this order) count every submitted team of
  the route whose captain is a student, a teacher or an alumnus exactly once,
  when open ids are unique.
\<close>

theorem submit_detail_partition:
  assumes "distinct (map p_OpenId (people d))" and "GetSubmitDetail e d f = ResponseSuccess res"
    and "(n, r) \<in> set submit_routes"
  shows "map res_TeamType (results_field n res) = [StudentTeam, TeacherTeam, MixedTeam, AlumniTeam] \<and>
    sum_list (map res_TeamNum (results_field n res)) =
    length (filter (\<lambda>t. t_Route t = r \<and> t_Submit t \<and>
      (\<exists>c\<in>set (people d). p_OpenId c = t_Captain t \<and> p_Type c \<in> {1, 2, 3})) (teams d))"
proof -
  from assms(2) have res: "res = submit_results d"
    by (simp add: GetSubmitDetail_def split: if_splits)
  have "map res_TeamNum (results_field n res) = map (\<lambda>(ty, name, mixed). fst (getTeamStats d r 1 ty mixed)) team_types"
    unfolding res results_field_submit [OF assms(3)] by (simp add: stats_result_fields split_def)
  then have num: "sum_list (map res_TeamNum (results_field n res)) =
    length (filter (\<lambda>t. t_Route t = r \<and> t_Submit t \<and>
      (\<exists>c\<in>set (people d). p_OpenId c = t_Captain t \<and> p_Type c \<in> {1, 2, 3})) (teams d))"
    by (simp only: team_types_count [OF assms(1)])
  have "map res_TeamType (results_field n res) = [StudentTeam, TeacherTeam, MixedTeam, AlumniTeam]"
    unfolding res results_field_submit [OF assms(3)] by (simp add: stats_result_fields team_types_def)
  with num show ?thesis by blast
qed

subsection \<open>Witnesses\<close>

theorem GetDetail_layout_witness:
  "(\<exists>resp. GetDetail sample_env demo_db \<lparr>gdf_Secret = ''secret''\<rparr> = ResponseSuccess resp \<and>
     length (detail_field 2 resp) = 7 \<and>
     detail_field 2 resp ! 6 = \<lparr>rd_Count = walk_count demo_db 2 4, rd_Label = LabelWithdrawn\<rparr>)"
proof -
  have h: "gdf_Secret \<lparr>gdf_Secret = ''secret''\<rparr> = server_secret sample_env"
    "gdf_Secret \<lparr>gdf_Secret = ''secret''\<rparr> \<noteq> []"
    "\<forall>r\<in>{1, 2, 3, 4, 5}. 0 \<le> PointMap sample_env r" "(2::uint8) \<in> {1, 2, 3, 4, 5}"
    by (simp_all add: sample_env_def)
  from GetDetail_layout [OF h, of demo_db] show ?thesis by (simp add: sample_env_def) blast
qed

theorem submit_detail_partition_witness:
  "GetSubmitDetail sample_env report_db \<lparr>gdf_Secret = ''secret''\<rparr> = ResponseSuccess (submit_results report_db) \<and>
   sum_list (map res_TeamNum (rs_Zh (submit_results report_db))) = 4"
proof -
  have h: "distinct (map p_OpenId (people report_db))"
    "GetSubmitDetail sample_env report_db \<lparr>gdf_Secret = ''secret''\<rparr> = ResponseSuccess (submit_results report_db)"
    "(Zhaohui, 1) \<in> set submit_routes"
    by (simp_all add: report_db_def sample_db_def sample_person_def GetSubmitDetail_def sample_env_def submit_routes_def)
  from submit_detail_partition [OF h] h(2) show ?thesis
    by (simp add: results_field_def eval_simps)
qed

end
