(* ===== verification/Date.thy ===== *)
theory Date
  imports Prelude "HOL-Library.Signed_Division"
begin

text \<open>
  The date helpers of src/utility/date.go. The configured start date is the
  result of \<open>time.Parse\<close> on the \<open>startDate\<close> setting (in UTC): \<open>Some t\<close>, its
  Unix time, or \<open>None\<close> on a parse error, which the code ignores and which leaves
  the zero \<open>time.Time\<close>. The current time is an input: its Unix time and the
  hour of the day in the server's local zone. Go's \<open>/\<close> on \<open>int64\<close> truncates
  toward zero: \<open>sdiv\<close>. The conversion \<open>uint8(...)\<close> keeps the value modulo 256.
\<close>

text \<open>\<open>time.Time{}.Unix()\<close>: 0001-01-01 00:00:00 UTC.\<close>

definition zero_time_unix :: unix_time where
  "zero_time_unix = -62135596800"

definition start_unix :: "unix_time option \<Rightarrow> unix_time" where
  "start_unix parsed = (case parsed of Some t \<Rightarrow> t | None \<Rightarrow> zero_time_unix)"

definition GetCurrentDate :: "unix_time option \<Rightarrow> unix_time \<Rightarrow> uint8" where
  "GetCurrentDate parsed now = word_of_int ((now - start_unix parsed) sdiv 3600 sdiv 24)"

definition CanOpenApi :: "unix_time option \<Rightarrow> unix_time \<Rightarrow> nat \<Rightarrow> bool" where
  "CanOpenApi parsed now hour = (if now \<le> start_unix parsed then False else 8 \<le> hour)"

definition CanSubmit :: "nat \<Rightarrow> bool" where
  "CanSubmit hour = (12 \<le> hour)"

declare zero_time_unix_def [eval_simps] start_unix_def [eval_simps] GetCurrentDate_def [eval_simps]
  CanOpenApi_def [eval_simps] CanSubmit_def [eval_simps]

subsection \<open>Lemmas\<close>

lemma sdiv_nonneg: "0 \<le> a \<Longrightarrow> 0 < b \<Longrightarrow> a sdiv b = a div (b :: int)"
  by (simp add: signed_divide_int_def sgn_if)

lemma sdiv_small: "\<bar>a\<bar> < b \<Longrightarrow> a sdiv b = (0 :: int)"
  by (auto simp: signed_divide_int_def abs_if sgn_if)

subsection \<open>Properties\<close>

text \<open>
  C26: after the start, \<open>GetCurrentDate\<close> is the number of whole days elapsed,
  modulo 256: on the 256th day it wraps to 0.
\<close>

theorem GetCurrentDate_days:
  assumes "start_unix parsed \<le> now"
  shows "unat (GetCurrentDate parsed now) = nat ((now - start_unix parsed) div 86400) mod 256"
proof -
  let ?x = "now - start_unix parsed"
  have "?x sdiv 3600 sdiv 24 = ?x div 86400"
    using assms by (simp add: sdiv_nonneg zdiv_zmult2_eq [symmetric])
  moreover have "0 \<le> ?x div 86400" using assms by simp
  ultimately show ?thesis
    by (simp add: GetCurrentDate_def unsigned_of_int take_bit_eq_mod nat_mod_distrib)
qed

text \<open>
  C27: because the division truncates toward zero, day 0 lasts two days: every
  instant less than a day before or after the start gives day 0.
\<close>

theorem GetCurrentDate_day_zero:
  assumes "\<bar>now - start_unix parsed\<bar> < 86400"
  shows "GetCurrentDate parsed now = 0"
proof -
  have "\<bar>(now - start_unix parsed) sdiv 3600\<bar> < 24"
    using assms by (auto simp: signed_divide_int_def abs_if sgn_if zdiv_zminus1_eq_if split: if_splits)
  then show ?thesis by (simp add: GetCurrentDate_def sdiv_small)
qed

subsection \<open>Witnesses\<close>

theorem GetCurrentDate_days_witness:
  "unat (GetCurrentDate (Some 0) (300 * 86400)) = 44"
  using GetCurrentDate_days [where parsed = "Some 0" and now = "300 * 86400"] by (simp add: start_unix_def)

theorem GetCurrentDate_day_zero_witness:
  "GetCurrentDate (Some 100000) 20000 = 0"
  using GetCurrentDate_day_zero [where parsed = "Some 100000" and now = 20000] by (simp add: start_unix_def)

end
