(* ===== verification/Wechat.thy ===== *)
theory Wechat
  imports Prelude
begin

text \<open>
  \<open>GetOpenID\<close> of src/utility/wechat.go: it asks the WeChat OAuth endpoint to
  exchange a login code for an open id and reads the field \<open>openid\<close> of the JSON
  body with gjson. The HTTP call (resty) is an input: a function from the URL and
  the query parameters to a transport error or the body, as JSON if it parses.
  gjson, a library, is modelled from its documentation: \<open>Get\<close> on a top-level
  key returns the first member with that key, and \<open>Result.String\<close> gives a
  string's contents, a number's or a container's raw text, \<open>true\<close>/\<open>false\<close>, and
  the empty string for null or a missing value.
\<close>

subsection \<open>JSON values and gjson\<close>

text \<open>Arrays and objects keep the raw text gjson returns for them.\<close>

datatype json =
    JNull
  | JBool bool
  | JNum string            \<comment> \<open>the raw number text\<close>
  | JStr string
  | JArr string "json list"
  | JObj string "(string \<times> json) list"

definition result_String :: "json option \<Rightarrow> string" where
  "result_String r =
     (case r of
        None \<Rightarrow> []
      | Some JNull \<Rightarrow> []
      | Some (JBool b) \<Rightarrow> (if b then ''true'' else ''false'')
      | Some (JNum raw) \<Rightarrow> raw
      | Some (JStr s) \<Rightarrow> s
      | Some (JArr raw _) \<Rightarrow> raw
      | Some (JObj raw _) \<Rightarrow> raw)"

text \<open>\<open>gjson.Get(json, key)\<close> for a key without path syntax; a body that is not JSON finds nothing.\<close>

definition gjson_Get :: "json option \<Rightarrow> string \<Rightarrow> json option" where
  "gjson_Get body k = (case body of Some (JObj _ members) \<Rightarrow> map_of members k | _ \<Rightarrow> None)"

subsection \<open>GetOpenID\<close>

record wechat_config =
  wc_AppID :: string
  wc_Secret :: string

definition getOpenIDURL :: string where
  "getOpenIDURL = ''https://api.weixin.qq.com/sns/oauth2/access_token''"

text \<open>The query parameters, a Go \<open>map[string]string\<close>.\<close>

definition oauth_query :: "wechat_config \<Rightarrow> string \<Rightarrow> string \<rightharpoonup> string" where
  "oauth_query cfg code =
     [''appid'' \<mapsto> wc_AppID cfg, ''secret'' \<mapsto> wc_Secret cfg, ''code'' \<mapsto> code,
      ''grant_type'' \<mapsto> ''authorization_code'']"

type_synonym http_get = "string \<Rightarrow> (string \<rightharpoonup> string) \<Rightarrow> string + json option"

text \<open>The result \<open>(string, error)\<close>: \<open>None\<close> is a nil error, \<open>Some m\<close> an error with message \<open>m\<close>.\<close>

definition GetOpenID :: "http_get \<Rightarrow> wechat_config \<Rightarrow> string \<Rightarrow> string \<times> string option" where
  "GetOpenID get cfg code =
     (case get getOpenIDURL (oauth_query cfg code) of
        Inl err \<Rightarrow> ([], Some err)
      | Inr body \<Rightarrow> (result_String (gjson_Get body ''openid''), None))"

text \<open>
  An endpoint that answers a known code with an access token and the open id
  \<open>o1\<close>, and every other code with WeChat's error object (\<open>errcode\<close> 40029,
  "invalid code"); and one whose connection fails.
\<close>

definition wechat_endpoint :: http_get where
  "wechat_endpoint url q =
     (if url = getOpenIDURL \<and> q ''code'' = Some ''c1'' then
        Inr (Some (JObj ''{...}'' [(''access_token'', JStr ''tok''), (''openid'', JStr ''o1'')]))
      else Inr (Some (JObj ''{...}'' [(''errcode'', JNum ''40029''), (''errmsg'', JStr ''invalid code'')])))"

definition wechat_down :: http_get where
  "wechat_down url q = Inl ''connection refused''"

definition sample_wechat :: wechat_config where
  "sample_wechat = \<lparr>wc_AppID = ''app'', wc_Secret = ''sec''\<rparr>"

subsection \<open>Properties\<close>

text \<open>
  C33: \<open>GetOpenID\<close> returns an error exactly when the HTTP call fails, and then
  the empty open id. Every body that arrives, WeChat's own error object
  included, is a success: a body without a string \<open>openid\<close> member yields the
  empty open id with a nil error, so a caller that checks only the error takes
  the empty string as the user's identity.
\<close>

theorem GetOpenID_errors:
  shows "(snd (GetOpenID get cfg code) \<noteq> None \<longleftrightarrow> (\<exists>m. get getOpenIDURL (oauth_query cfg code) = Inl m)) \<and>
    (snd (GetOpenID get cfg code) \<noteq> None \<longrightarrow> fst (GetOpenID get cfg code) = []) \<and>
    (get getOpenIDURL (oauth_query cfg code) = Inr (Some (JObj raw members)) \<longrightarrow>
       ''openid'' \<notin> fst ` set members \<longrightarrow> GetOpenID get cfg code = ([], None))"
proof -
  have "map_of members ''openid'' = None" if "''openid'' \<notin> fst ` set members"
    using that by (simp add: map_of_eq_None_iff)
  then show ?thesis by (auto simp: GetOpenID_def gjson_Get_def result_String_def split: sum.split)
qed

text \<open>
  C34: The request carries the code, the app id, the secret and the grant type,
  and when the body has a string member \<open>openid\<close> (the first one, if the key
  repeats) that string is the open id returned.
\<close>

theorem GetOpenID_success:
  assumes "get getOpenIDURL (oauth_query cfg code) = Inr (Some (JObj raw (pre @ (''openid'', JStr oid) # post)))"
    and "''openid'' \<notin> fst ` set pre"
  shows "GetOpenID get cfg code = (oid, None) \<and> oauth_query cfg code ''code'' = Some code \<and>
    oauth_query cfg code ''appid'' = Some (wc_AppID cfg) \<and> oauth_query cfg code ''secret'' = Some (wc_Secret cfg) \<and>
    oauth_query cfg code ''grant_type'' = Some ''authorization_code''"
proof -
  have "map_of pre ''openid'' = None" using assms(2) by (simp add: map_of_eq_None_iff)
  then have "map_of (pre @ (''openid'', JStr oid) # post) ''openid'' = Some (JStr oid)"
    by (simp add: map_of_append map_add_def)
  with assms(1) show ?thesis by (simp add: GetOpenID_def gjson_Get_def result_String_def oauth_query_def)
qed

subsection \<open>Witnesses\<close>

theorem GetOpenID_errors_witness:
  "GetOpenID wechat_endpoint sample_wechat ''c2'' = ([], None) \<and>
   GetOpenID wechat_down sample_wechat ''c1'' = ([], Some ''connection refused'')"
proof -
  have e: "wechat_endpoint getOpenIDURL (oauth_query sample_wechat ''c2'') =
    Inr (Some (JObj ''{...}'' [(''errcode'', JNum ''40029''), (''errmsg'', JStr ''invalid code'')]))"
    by (simp add: wechat_endpoint_def oauth_query_def)
  have "''openid'' \<notin> fst ` set [(''errcode'', JNum ''40029''), (''errmsg'', JStr ''invalid code'')]" by simp
  with GetOpenID_errors [of wechat_endpoint sample_wechat "''c2''"] e
  have "GetOpenID wechat_endpoint sample_wechat ''c2'' = ([], None)" by blast
  moreover have "GetOpenID wechat_down sample_wechat ''c1'' = ([], Some ''connection refused'')"
    by (simp add: GetOpenID_def wechat_down_def)
  ultimately show ?thesis by blast
qed

theorem GetOpenID_success_witness:
  "GetOpenID wechat_endpoint sample_wechat ''c1'' = (''o1'', None)"
proof -
  have "wechat_endpoint getOpenIDURL (oauth_query sample_wechat ''c1'') =
    Inr (Some (JObj ''{...}'' ([(''access_token'', JStr ''tok'')] @ (''openid'', JStr ''o1'') # [])))"
    by (simp add: wechat_endpoint_def oauth_query_def)
  moreover have "''openid'' \<notin> fst ` set [(''access_token'', JStr ''tok'')]" by simp
  ultimately show ?thesis using GetOpenID_success by blast
qed

end
