(* ===== verification/Spec2Isabelle.thy ===== *)
theory Spec2Isabelle
  imports Lifecycle Reports Date Wechat
begin

text \<open>
  \<^bold>\<open>A verification model of Walk-server\<close>, the backend of a campus hiking event
  (registration, teams, QR check-in at the waypoints of five routes, admin
  reports). The program is a set of gin HTTP handlers over a relational database
  reached through GORM, a Redis set, and configuration; its hard part is the team
  check-in state machine in src/controller/admin/team.go.

  \<^bold>\<open>Layout.\<close>
  \<^item> \<open>Prelude\<close>: the Go integer types (\<open>int8\<close>, \<open>uint8\<close> as 8-bit words), the
    error messages of \<open>utility.ResponseError\<close> as the datatype \<open>msg\<close>, the response a
    handler writes (error, success or panic), tables as lists of rows keyed by
    primary key with GORM's \<open>Save\<close> as \<open>upsert\<close>, and \<open>strconv.Itoa\<close> /
    \<open>strconv.ParseUint(s, 10, 32)\<close> with their round trip.
  \<^item> \<open>Model\<close>: \<open>model.Person\<close> (src/model/person.go) as the record \<open>person\<close>,
    \<open>model.Team\<close> and \<open>model.Admin\<close> (not under src/, fields taken from their uses)
    as \<open>team\<close> and \<open>admin\<close>, the database state \<open>db\<close>, the configuration \<open>env\<close>
    (\<open>constant.PointMap\<close>, \<open>constant.GetPointName\<close>, \<open>middleware.CheckRoute\<close>,
    the server secret, JWT parsing: code outside src/, so parameters of every
    handler), the services of src/service/teamService/update.go
    (\<open>team_Update\<close>, \<open>team_Delete\<close>, \<open>team_Create\<close>, \<open>team_UpdateCaptain\<close>), the
    queries the handlers make, \<open>userService.Update\<close> as \<open>user_Update\<close>, the generic
    member loop \<open>save_matching\<close> and its effect on the people table
    (\<open>people_save_matching\<close>), and the well-formedness invariant \<open>db_wf\<close>
    (unique keys, fresh auto-increment counter, every \<open>TeamId\<close> is -1 or an
    existing team, the invariant section 3 of the specification states).
  \<^item> \<open>Checkin\<close>: the handlers \<open>GetTeam\<close>, \<open>BindTeam\<close>, \<open>UpdateTeamStatus\<close> and
    \<open>PostDestination\<close> of team.go, each split as the code reads into the request
    part (form validation by the \<open>binding\<close> tags, team lookup) and the body on the
    team found (\<open>bind_team\<close>, \<open>checkin_team\<close>, \<open>arrive_team\<close>), with one case lemma
    per body listing its outcomes, and the properties: the functional behaviour
    of a check-in, an arrival and a binding; that check-ins and arrivals never
    touch a team that has not started or has ended; and the 8-bit threshold of
    binding, with and without wrap-around. The characterisations also cover two
    behaviours the specification leaves open: binding never reads the team's
    status, so a finished team can be bound again; an arrival is accepted for a
    team never started.
  \<^item> \<open>UserStatus\<close>: the handler \<open>UserStatus\<close> of src/controller/admin/user.go, which
    confirms or withdraws members before the start. Its two loops are modelled as
    the code has them: \<open>getUsersAndTeams\<close> reads every person and team into Go maps
    (HOL maps \<open>openid \<rightharpoonup> person\<close>), \<open>check_users\<close> validates them in the order
    Go's map iteration visits the keys (any order: whether it rejects does not
    depend on it, \<open>check_users_None_iff\<close>), and \<open>apply_status\<close> saves through the
    map's pointers. The lemmas show when it succeeds (the form's status is not
    checked, so any status other than 1 withdraws the member), its effect on the
    people table, and that a rejected request changes nothing.
  \<^item> \<open>Regroup\<close>: the handlers \<open>Regroup\<close> and \<open>SubmitTeam\<close> of team.go. \<open>Regroup\<close> is
    its three loops: \<open>scan_loop\<close> over the scanned JWTs (a duplicate writes an
    error and goes on, so the handler returns the list of responses written),
    \<open>dissolve_loop\<close> over the old teams (\<open>dissolve\<close> resets the members and the
    captain and deletes the team), and \<open>assign_loop\<close>, which saves the copies read
    by the first loop with the new team id. \<open>model.GetPersonsInTeam\<close> returns the
    zero \<open>model.Person\<close> as captain when the team has none, and the code saves it
    anyway: \<open>save_zero_captain\<close> is that save, which GORM turns into an insert of a
    row with the empty open id, refused when such a row exists. \<open>scanned_person\<close>
    names the person a JWT reads as. The lemmas show that a started team and its
    members are never touched, what a success writes (team id 0, Redis entry
    "0", the person of every JWT moved with its stale walk status), that a
    captain scanned twice ends as an ordinary member, the panic on an empty list,
    and the Redis round trip of \<open>SubmitTeam\<close>.

  \<^item> \<open>Reports\<close>: the read-only handlers \<open>GetDetail\<close>, \<open>GetSubmitDetail\<close>
    (with \<open>getTeamStats\<close>) and \<open>GetTeamBySecret\<close> of team.go, their SQL queries as
    list comprehensions over the tables, and their response structs
    (\<open>RouteDetail\<close>, \<open>Result\<close>, \<open>Results\<close>, the \<open>gin.H\<close> of \<open>GetDetail\<close>) as
    records. \<open>GetSubmitDetail\<close> is its two nested loops with the \<open>switch\<close> on the
    route name that appends each row to one field of \<open>Results\<close>
    (\<open>submit_results\<close>, \<open>append_result\<close>). The lemmas give the layout and the
    labels of a route's array in the response of \<open>GetDetail\<close>, show that the
    loop gives each route its four rows in order, and that these rows count
    each submitted team once.
  \<^item> \<open>Admin\<close>: \<open>CreateRouteAdmin\<close> and \<open>generateRandomString\<close> of
    src/controller/admin/admin.go, with the bytes of \<open>crypto/rand.Read\<close> as an
    input (\<open>rand_source\<close>). The lemmas show the alphabet and length of a password,
    the modulo bias of the letters, which fields the admins get, and that a failed
    read does not stop the handler: every call ends with a database error or a
    success after at most one password error per route list.
  \<^item> \<open>Register\<close>: \<open>StudentRegister\<close> of
    src/controller/register/student_register.go, with the identity service's answer
    as an input. The lemmas show when it succeeds, that it keeps the database well
    formed, and how a wrong password is reported.
  \<^item> \<open>Date\<close>: \<open>GetCurrentDate\<close>, \<open>CanOpenApi\<close> and \<open>CanSubmit\<close> of
    src/utility/date.go, with the parsed start date and the clock as inputs; Go's
    truncating division is \<open>sdiv\<close> and the \<open>uint8\<close> conversion keeps the value
    modulo 256.
  \<^item> \<open>Wechat\<close>: \<open>GetOpenID\<close> of src/utility/wechat.go, with the HTTP call as an
    input (a function from the URL and the query map to a transport error or the
    body as JSON) and gjson's \<open>Get\<close> and \<open>Result.String\<close> modelled from the
    library's documentation. The lemmas show that only a transport failure is
    an error, that WeChat's error object gives the empty open id with a nil
    error, and that a body with an \<open>openid\<close> string gives that string.
  \<^item> \<open>Invariant\<close>: the invariant \<open>db_inv\<close> of the database: \<open>db_wf\<close>, at most one
    captain (\<open>Status 2\<close>) per team (\<open>one_captain\<close>), every team's captain a member
    of it (\<open>captain_member\<close>), and every status in its enumeration
    (\<open>statuses_ok\<close>). One lemma per handler shows the handler keeps it: the
    member loops change walk statuses only (\<open>inv_walk\<close>), saving a found team
    with its id and captain keeps it (\<open>inv_team_Update\<close>), and the Redis set and
    the admins table are outside it (\<open>inv_frame\<close>).
  \<^item> \<open>RegroupInvariant\<close>: the proof for \<open>Regroup\<close>. With one captain per team,
    \<open>dissolve\<close> resets exactly the members of a team and adds at most the reset
    zero captain (\<open>people_dissolve\<close>, \<open>zero_rows\<close>); the dissolution loop
    resets the members and deletes the teams of \<open>dissolved_ids\<close>, adding the zero
    row at most once (\<open>dissolve_loop_shape\<close>); the zero row has no team, role 0
    and walk status 1, so the invariant holds (\<open>inv_reset\<close>); then no team has the first scanned person as
    captain, so \<open>GetTeamByCaptain\<close> (team.go line 440) finds the team just
    created, whose id is the counter (\<open>regroup_new_team_id\<close>), and its error branch
    is dead (\<open>regroup_created_captain\<close>); the last loop makes the scanned
    persons its members and the first its captain (\<open>assign_loop_inv\<close>).
  \<^item> \<open>Lifecycle\<close>: the eight handlers that change the database as one state
    machine: \<open>op\<close> is a request, \<open>step\<close> runs the handler (the router is outside
    src/), \<open>reachable\<close> (an inductive predicate) holds of the databases a sequence
    of requests produces from the empty one \<open>init_db\<close>. By rule induction every
    reachable database satisfies \<open>db_inv\<close> and has positive team ids below the
    counter. The moves of a team's status are read off the guards of each
    handler: \<open>checkin_edge\<close> (\<open>checkin_team\<close>), \<open>arrive_edge\<close> (\<open>arrive_team\<close>),
    \<open>bind_edge\<close> (\<open>bind_team\<close>, from any status), and no move for the other
    handlers; \<open>op_edge\<close> gives each request its edges, and \<open>progress_edge\<close> (an
    inductive predicate) joins the first two. \<open>teams_evolve\<close> says a step moves
    every team along an edge, creates a team with status 1 or deletes one with
    status 1. The lemmas show every request refines its own \<open>op_edge\<close>, that
    the specification's phases (\<open>phase_of\<close>, ordered by a
    \<open>linorder\<close> instance) never go back except by \<open>BindTeam\<close>, that an unfinished
    team can always be finished by one \<open>PostDestination\<close> request (progress),
    and that the id \<open>Regroup\<close> reports names no team.
  \<^item> This theory: properties across components (a check-in at the last
    waypoint, made by \<open>UpdateTeamStatus\<close>, is invisible to the dashboard of
    \<open>GetDetail\<close>, for every well-formed database).

  \<^bold>\<open>How the state corresponds to the code.\<close> A handler is a function
  \<open>env \<Rightarrow> db \<Rightarrow> admin \<Rightarrow> form \<Rightarrow> time \<Rightarrow> db \<times> response\<close>: the admin is the
  one \<open>adminService.GetAdminByJWT\<close> returns, the form the request after JSON
  decoding, the time \<open>time.Now()\<close>. Every early \<open>return\<close> after
  \<open>utility.ResponseError\<close> is a branch returning the database unchanged. The
  member loops iterate over copies read before the loop, as the Go \<open>range\<close> over a
  slice of structs does, and save each changed copy with \<open>upsert\<close>.

  \<^bold>\<open>Walk and team statuses\<close> are kept as the numbers the code uses: a person's
  walk status 1 not started, 2 walking, 3 confirmed, 4 withdrawn, 5 finished; a
  team's status 1 not started, 5 bound at the start, 2 checked in at a waypoint,
  3 ended, 4 arrived.

  \<^bold>\<open>Loops.\<close> Every loop of the code runs over a finite list (a slice or the
  keys of a map), so every loop is a structural recursion and every handler is a
  total function: no fuel is needed. The one loop written over indices, the
  nested \<open>for i := 0; i < len(data); i++\<close> of \<open>processData\<close>, is also modelled
  as written (\<open>processData_loop\<close>, a \<open>partial_function (option)\<close>), and proved
  to return, with the result of the loop over the rows (\<open>process_rows\<close>) that
  the handler uses (\<open>processData_loop_rows\<close>).

  \<^bold>\<open>Concrete runs.\<close> The witnesses run the handlers on small databases
  (\<open>sample_db\<close>, \<open>demo_db\<close>) and, for the state machine, on the run
  \<open>demo_life\<close>: a registration, then a regroup of that student into team 1, then
  (\<open>demo_arrive\<close>) its arrival.

  \<^bold>\<open>Not modelled.\<close> Every function and type of src/ is modelled; what
  the map leaves out are the package and import declarations and the constant
  \<open>TimeLayout\<close> of date.go, which only parses the configured start date (the
  parsed date is an input of \<open>GetCurrentDate\<close>). Outside the model, as inputs:
  the HTTP layer, JSON syntax errors and JWT parsing; the identity service that
  \<open>StudentRegister\<close> calls (\<open>oauthException\<close>, outside src/), whose answer is
  \<open>oauth_result\<close>; the HTTP call of \<open>GetOpenID\<close>; and \<open>middleware.CheckRoute\<close>,
  which is not under src/ and is a parameter of every handler (a campus-based
  instance is given for the concrete runs). The database never fails (GORM
  errors other than "record not found" are not modelled, so the "service error"
  branches are unreachable). GORM's \<open>Save\<close> of a row whose primary key is the
  zero value is an insert; the model treats every save as an upsert by key,
  except the one save the code makes of a zero value, the captain of a team with
  none (\<open>save_zero_captain\<close>). The requests run one at a time: gin serves them
  concurrently, but every handler's reads and writes are modelled as one
  atomic step, so interleavings inside a handler are not modelled.
\<close>

section \<open>Properties across components\<close>

text \<open>
  A team of route 1 (five waypoints in \<open>sample_env\<close>) bound at the start, with
  two confirmed members, and the QR code \<open>qr1\<close>.
\<close>

definition last_point_db :: db where
  "last_point_db = sample_db [sample_person ''a'' 1 2 3, sample_person ''b'' 1 1 3]
     [(sample_team 1 1 5 2)\<lparr>t_Point := 0, t_Code := ''qr1''\<rparr>]"

declare last_point_db_def [eval_simps]

text \<open>
  C17: a check-in at the last waypoint of a route (Checkin, \<open>UpdateTeamStatus\<close>)
  is lost by the dashboard (Reports, \<open>GetDetail\<close>): the members walking at
  waypoint \<open>PointMap[route]\<close> are counted in the slot that \<open>appendEndCounts\<close>
  then overwrites with the number of finished members, so the route's array is
  the same as if those people were not in the table at all.
\<close>

theorem checkin_last_point_unreported:
  assumes "db_wf d" and "0 \<le> PointMap e r"
  shows "route_counts e d r =
    route_counts e (d\<lparr>people := filter (\<lambda>p. \<not> (\<exists>t\<in>set (teams d). p_TeamId p = int (t_ID t) \<and>
        in_progress r (p, t) \<and> sint (t_Point t) = PointMap e r)) (people d)\<rparr>) r"
    (is "_ = route_counts e ?d2 r")
proof -
  let ?n = "nat (PointMap e r)"
  have ids: "distinct (map t_ID (teams d))" using assms(1) by (simp add: db_wf_def)
  have ws: "p_WalkStatus p \<in> {2, 3}" if "\<exists>t\<in>set (teams d). p_TeamId p = int (t_ID t) \<and>
      in_progress r (p, t) \<and> sint (t_Point t) = PointMap e r" for p
    using that by (auto simp: in_progress_def)
  have start: "start_count ?d2 r = start_count d r"
    unfolding start_count_def using ws by (intro count_rows_filter_people) fastforce
  have walk: "walk_count ?d2 r s = walk_count d r s" if "s \<notin> {2, 3}" for s
    unfolding walk_count_def using ws that by (intro count_rows_filter_people) fastforce
  have mid: "count_rows (\<lambda>x. in_progress r x \<and> sint (t_Point (snd x)) = int i) ?d2 =
             count_rows (\<lambda>x. in_progress r x \<and> sint (t_Point (snd x)) = int i) d" if "i < ?n" for i
  proof (rule count_rows_filter_people)
    fix p t assume t: "t \<in> set (teams d)" and pt: "p_TeamId p = int (t_ID t)"
      and P: "in_progress r (p, t) \<and> sint (t_Point (snd (p, t))) = int i"
    show "\<not> (\<exists>t\<in>set (teams d). p_TeamId p = int (t_ID t) \<and>
        in_progress r (p, t) \<and> sint (t_Point t) = PointMap e r)"
    proof
      assume "\<exists>t\<in>set (teams d). p_TeamId p = int (t_ID t) \<and> in_progress r (p, t) \<and> sint (t_Point t) = PointMap e r"
      then obtain t' where "t' \<in> set (teams d)" "p_TeamId p = int (t_ID t')" "sint (t_Point t') = PointMap e r"
        by blast
      moreover from this(1,2) t pt ids have "t' = t" by (auto dest: distinct_key_eq)
      ultimately show False using P that assms(2) by simp
    qed
  qed
  obtain xs where xs: "route_counts e d r = Some xs" "length xs = ?n + 3" "xs ! 0 = start_count d r"
    "\<forall>i < ?n. xs ! (i + 1) = count_rows (\<lambda>x. in_progress r x \<and> sint (t_Point (snd x)) = int i) d"
    "xs ! (?n + 1) = walk_count d r 5" "xs ! (?n + 2) = walk_count d r 4"
    using route_counts_layout [OF assms(2), of d] by blast
  obtain ys where ys: "route_counts e ?d2 r = Some ys" "length ys = ?n + 3" "ys ! 0 = start_count ?d2 r"
    "\<forall>i < ?n. ys ! (i + 1) = count_rows (\<lambda>x. in_progress r x \<and> sint (t_Point (snd x)) = int i) ?d2"
    "ys ! (?n + 1) = walk_count ?d2 r 5" "ys ! (?n + 2) = walk_count ?d2 r 4"
    using route_counts_layout [OF assms(2), of ?d2] by blast
  have "xs = ys"
  proof (rule nth_equalityI)
    show "length xs = length ys" using xs(2) ys(2) by simp
  next
    fix i assume "i < length xs"
    then consider "i = 0" | k where "i = k + 1" "k < ?n" | "i = ?n + 1" | "i = ?n + 2"
      using xs(2) by (cases i) (auto, arith)
    then show "xs ! i = ys ! i"
    proof cases
      case 1
      then show ?thesis using xs(3) ys(3) start by simp
    next
      case (2 k)
      then show ?thesis using xs(4) ys(4) mid by simp
    next
      case 3
      then show ?thesis using xs(5) ys(5) walk [of 5] by simp
    next
      case 4
      then show ?thesis using xs(6) ys(6) walk [of 4] by simp
    qed
  qed
  with xs(1) ys(1) show ?thesis by simp
qed

theorem checkin_last_point_unreported_witness:
  "(case UpdateTeamStatus sample_env last_point_db (sample_admin 1 5)
           \<lparr>sf_CodeType = 2, sf_Content = ''qr1''\<rparr> 100 of
      (d', r) \<Rightarrow>
        r = ResponseSuccess 2 \<and> count_rows (in_progress 1) d' = 2 \<and>
        route_counts sample_env d' 1 =
          route_counts sample_env (d'\<lparr>people := filter (\<lambda>p. \<not> (\<exists>t\<in>set (teams d'). p_TeamId p = int (t_ID t) \<and>
            in_progress 1 (p, t) \<and> sint (t_Point t) = PointMap sample_env 1)) (people d')\<rparr>) 1)"
proof -
  let ?d' = "fst (UpdateTeamStatus sample_env last_point_db (sample_admin 1 5)
                  \<lparr>sf_CodeType = 2, sf_Content = ''qr1''\<rparr> 100)"
  have "db_wf ?d'" "0 \<le> PointMap sample_env 1" by (simp_all add: db_wf_def eval_simps)
  note eq = checkin_last_point_unreported [OF this]
  have "snd (UpdateTeamStatus sample_env last_point_db (sample_admin 1 5)
               \<lparr>sf_CodeType = 2, sf_Content = ''qr1''\<rparr> 100) = ResponseSuccess 2"
    "count_rows (in_progress 1) ?d' = 2" by (simp_all add: eval_simps)
  with eq show ?thesis by (simp add: case_prod_beta)
qed

end
